(* ===== verification/OTA_Prelude.thy ===== *)
theory OTA_Prelude
  imports Complex_Main "HOL-Library.Word"
begin

text \<open>
  Shared vocabulary of the development: bytes and byte strings, the Python exceptions the
  sources raise, results that may be an exception, clock readings, and the generic lemmas on
  lists and big-endian integers that the component theories use.

  A byte is a word of width 8, so a list of bytes is exactly a Python \<open>bytes\<close> value.
  Python integers are \<open>int\<close> or, where they are sizes, counters and addresses that the
  code never makes negative, \<open>nat\<close>. Clock readings (\<open>time.monotonic()\<close>) are reals.
\<close>

unbundle bit_operations_syntax

section \<open>Types\<close>

type_synonym byte = "8 word"
type_synonym bytes = "byte list"
type_synonym clock = real

text \<open>The exceptions the modelled code raises or lets through, with the message it gives.\<close>

datatype py_error =
    ValueError string
  | RuntimeError string
  | KeyError string
  | FileNotFoundError string
  | TimeoutError string
  | IOError string
  | TypeError
  | ZeroDivisionError
  | IndexError
  | OverflowError
  | StructError

type_synonym 'a result = "py_error + 'a"

section \<open>Lemma collections\<close>

named_theorems be_simps \<open>big-endian encodings: lengths and round trips\<close>
named_theorems frame_simps \<open>fields an operation does not write\<close>

section \<open>Results\<close>

text \<open>Sequencing of computations that may raise: the first exception ends the computation.\<close>

fun bindE :: "('e + 'a) \<Rightarrow> ('a \<Rightarrow> 'e + 'b) \<Rightarrow> 'e + 'b" where
  "bindE (Inl e) f = Inl e"
| "bindE (Inr x) f = f x"

text \<open>\<open>if not c: raise e\<close>.\<close>

definition guardE :: "bool \<Rightarrow> 'e \<Rightarrow> 'e + unit" where
  "guardE c e = (if c then Inr () else Inl e)"

lemma bindE_Inr_iff: "bindE m f = Inr y \<longleftrightarrow> (\<exists>x. m = Inr x \<and> f x = Inr y)"
  by (cases m) auto

lemma bindE_Inl_iff: "bindE m f = Inl e \<longleftrightarrow> m = Inl e \<or> (\<exists>x. m = Inr x \<and> f x = Inl e)"
  by (cases m) auto

lemma guardE_Inr_iff [simp]: "guardE c e = Inr u \<longleftrightarrow> c"
  by (simp add: guardE_def)

lemma guardE_Inl_iff [simp]: "guardE c e = Inl e' \<longleftrightarrow> \<not> c \<and> e' = e"
  by (auto simp: guardE_def)

lemma bindE_guardE [simp]: "bindE (guardE c e) f = (if c then f () else Inl e)"
  by (simp add: guardE_def)

lemma bindE_assoc: "bindE (bindE m f) g = bindE m (\<lambda>x. bindE (f x) g)"
  by (cases m) auto

text \<open>A \<open>for\<close> loop whose body may raise.\<close>

fun forE :: "'a list \<Rightarrow> ('a \<Rightarrow> 's \<Rightarrow> 'e + 's) \<Rightarrow> 's \<Rightarrow> 'e + 's" where
  "forE [] f s = Inr s"
| "forE (x # xs) f s = bindE (f x s) (forE xs f)"

lemma forE_append: "forE (xs @ ys) f s = bindE (forE xs f s) (forE ys f)"
proof (induction xs arbitrary: s)
  case Nil
  then show ?case by simp
next
  case (Cons x xs)
  then show ?case by (cases "f x s") auto
qed

lemma forE_invariant:
  assumes "forE xs f s = Inr t" and "P s"
    and "\<And>x s s'. x \<in> set xs \<Longrightarrow> P s \<Longrightarrow> f x s = Inr s' \<Longrightarrow> P s'"
  shows "P t"
  using assms by (induction xs arbitrary: s) (auto simp: bindE_Inr_iff)

section \<open>Big-endian integers\<close>

text \<open>
  \<open>int.from_bytes(bs, "big")\<close> is \<open>from_be\<close>; \<open>be_bytes k n\<close> are the last \<open>k\<close> bytes of \<open>n\<close>,
  most significant first; \<open>n.to_bytes(k, "big")\<close> is \<open>to_bytes k n\<close>, which raises where \<open>n\<close>
  does not fit. \<open>struct.pack\<close> raises its own error in that case (\<open>pack_be\<close>).
\<close>

definition from_be :: "bytes \<Rightarrow> nat" where
  "from_be bs = foldl (\<lambda>acc b. acc * 256 + unat b) 0 bs"

fun be_bytes :: "nat \<Rightarrow> nat \<Rightarrow> bytes" where
  "be_bytes 0 n = []"
| "be_bytes (Suc k) n = be_bytes k (n div 256) @ [word_of_nat n]"

definition to_bytes :: "nat \<Rightarrow> nat \<Rightarrow> bytes result" where
  "to_bytes k n = (if n < 256 ^ k then Inr (be_bytes k n) else Inl OverflowError)"

definition pack_be :: "nat \<Rightarrow> nat \<Rightarrow> bytes result" where
  "pack_be k n = (if n < 256 ^ k then Inr (be_bytes k n) else Inl StructError)"

lemma from_be_Nil [be_simps, simp]: "from_be [] = 0"
  by (simp add: from_be_def)

lemma from_be_snoc [be_simps]: "from_be (bs @ [b]) = from_be bs * 256 + unat b"
  by (simp add: from_be_def)

lemma length_be_bytes [be_simps, simp]: "length (be_bytes k n) = k"
  by (induction k arbitrary: n) auto

lemma be_bytes_2: "be_bytes 2 n = [word_of_nat (n div 256), word_of_nat n]"
  by (simp add: numeral_2_eq_2)

lemma be_bytes_4:
  "be_bytes 4 n = [word_of_nat (n div 256 div 256 div 256), word_of_nat (n div 256 div 256),
     word_of_nat (n div 256), word_of_nat n]"
proof -
  have "(4 :: nat) = Suc (Suc (Suc (Suc 0)))" by simp
  then show ?thesis by (simp only: be_bytes.simps) simp
qed

lemma unat_byte_less [simp]: "unat (b :: byte) < 256"
proof -
  have "unat b < 2 ^ LENGTH(8)"
    by (rule unsigned_less)
  then show ?thesis by simp
qed

lemma unat_word_of_nat_byte [simp]: "unat (word_of_nat n :: byte) = n mod 256"
  by (simp add: unat_of_nat)

lemma byte_256: "(256 :: byte) = 0"
  by simp

lemma from_be_less: "from_be bs < 256 ^ length bs"
proof (induction bs rule: rev_induct)
  case Nil
  then show ?case by simp
next
  case (snoc b bs)
  have "from_be bs * 256 + unat b < (from_be bs + 1) * 256"
    by simp
  also have "\<dots> \<le> 256 ^ length bs * 256"
    using snoc.IH by (intro mult_right_mono) auto
  finally show ?case by (simp add: from_be_snoc mult.commute)
qed

lemma from_be_be_bytes_mod: "from_be (be_bytes k n) = n mod 256 ^ k"
proof (induction k arbitrary: n)
  case 0
  then show ?case by simp
next
  case (Suc k)
  have "n mod 256 ^ Suc k = n div 256 mod 256 ^ k * 256 + n mod 256"
    by (simp add: mod_mult2_eq mult.commute)
  with Suc show ?case by (simp add: from_be_snoc)
qed

lemma from_be_be_bytes [be_simps]: "n < 256 ^ k \<Longrightarrow> from_be (be_bytes k n) = n"
  by (simp add: from_be_be_bytes_mod)

lemma be_bytes_from_be [be_simps]: "be_bytes (length bs) (from_be bs) = bs"
proof (induction bs rule: rev_induct)
  case Nil
  then show ?case by simp
next
  case (snoc b bs)
  have "(from_be bs * 256 + unat b) div 256 = from_be bs"
    by simp
  moreover have "(word_of_nat (from_be bs * 256 + unat b) :: byte) = b"
    by (simp add: byte_256)
  ultimately show ?case using snoc.IH by (simp add: from_be_snoc)
qed

lemma be_bytes_inject: "n < 256 ^ k \<Longrightarrow> m < 256 ^ k \<Longrightarrow> be_bytes k n = be_bytes k m \<longleftrightarrow> n = m"
  by (metis from_be_be_bytes)

lemma pack_be_Inr_iff: "pack_be k n = Inr bs \<longleftrightarrow> n < 256 ^ k \<and> bs = be_bytes k n"
  by (auto simp: pack_be_def)

lemma to_bytes_Inr_iff: "to_bytes k n = Inr bs \<longleftrightarrow> n < 256 ^ k \<and> bs = be_bytes k n"
  by (auto simp: to_bytes_def)

lemma byte_and_FF [simp]: "(b :: byte) AND 0xFF = b"
proof -
  have "(0xFF :: byte) = - 1" by simp
  then show ?thesis by (metis and.right_neutral)
qed

section \<open>Text\<close>

text \<open>
  A Python \<open>str\<close> is modelled by the characters of its UTF-8 encoding, so \<open>encode("utf-8")\<close> is
  \<open>bytes_of\<close> and a string that consists of ASCII characters is what it looks like.
  \<open>decode("utf-8", errors="ignore")\<close> keeps the well-formed sequences and drops every other
  byte. (The decoder skips the longest prefix of a sequence that could have been continued;
  what follows the first byte of such a prefix are continuation bytes, which are dropped
  on their own account as well, so dropping one byte at a time gives the same text.)
\<close>

definition bytes_of :: "string \<Rightarrow> bytes" where
  "bytes_of s = map (\<lambda>c. word_of_nat (of_char c)) s"

definition string_of :: "bytes \<Rightarrow> string" where
  "string_of bs = map (\<lambda>b. char_of (unat b)) bs"

definition in_range :: "nat \<Rightarrow> nat \<Rightarrow> byte \<Rightarrow> bool" where
  "in_range lo hi b \<longleftrightarrow> lo \<le> unat b \<and> unat b \<le> hi"

text \<open>The length of the well-formed sequence a byte string starts with, 0 if there is none.\<close>

definition utf8_sequence :: "bytes \<Rightarrow> nat" where
  "utf8_sequence bs =
     (let cont = in_range 0x80 0xBF in
      case bs of
        [] \<Rightarrow> 0
      | a # r1 \<Rightarrow>
          if unat a < 0x80 then 1
          else case r1 of
            [] \<Rightarrow> 0
          | b # r2 \<Rightarrow>
              if in_range 0xC2 0xDF a then (if cont b then 2 else 0)
              else case r2 of
                [] \<Rightarrow> 0
              | c # r3 \<Rightarrow>
                  if in_range 0xE0 0xEF a
                  then (if cont c \<and> (if unat a = 0xE0 then in_range 0xA0 0xBF b
                                    else if unat a = 0xED then in_range 0x80 0x9F b
                                    else cont b)
                        then 3 else 0)
                  else case r3 of
                    [] \<Rightarrow> 0
                  | d # _ \<Rightarrow>
                      if in_range 0xF0 0xF4 a \<and> cont c \<and> cont d \<and>
                         (if unat a = 0xF0 then in_range 0x90 0xBF b
                          else if unat a = 0xF4 then in_range 0x80 0x8F b
                          else cont b)
                      then 4 else 0)"

function utf8_ignore :: "bytes \<Rightarrow> bytes" where
  "utf8_ignore [] = []"
| "utf8_ignore (b # bs) =
     (let k = utf8_sequence (b # bs)
      in take k (b # bs) @ utf8_ignore (drop (max 1 k) (b # bs)))"
  by pat_completeness auto
termination
  by (relation "measure length") auto

declare utf8_ignore.simps(2) [simp del]

definition ascii :: "bytes \<Rightarrow> bool" where
  "ascii bs \<longleftrightarrow> (\<forall>b \<in> set bs. unat b < 128)"

lemma utf8_ignore_ascii: "ascii bs \<Longrightarrow> utf8_ignore bs = bs"
proof (induction bs)
  case Nil
  then show ?case by simp
next
  case (Cons b bs)
  then have "utf8_sequence (b # bs) = 1"
    by (simp add: utf8_sequence_def ascii_def Let_def)
  with Cons show ?case by (simp add: utf8_ignore.simps(2) ascii_def)
qed

lemma unat_word_of_nat_of_char [simp]: "unat (word_of_nat (of_char c) :: byte) = of_char c"
  by simp

lemma string_of_bytes_of [simp]: "string_of (bytes_of s) = s"
  by (simp add: string_of_def bytes_of_def comp_def)

lemma bytes_of_string_of [simp]: "bytes_of (string_of bs) = bs"
proof -
  have "(word_of_nat (of_char (char_of (unat b) :: char)) :: byte) = b" for b :: byte
    by (simp add: mod_less)
  then show ?thesis by (simp add: string_of_def bytes_of_def comp_def)
qed

lemma length_bytes_of [simp]: "length (bytes_of s) = length s"
  by (simp add: bytes_of_def)

lemma length_string_of [simp]: "length (string_of bs) = length bs"
  by (simp add: string_of_def)

text \<open>\<open>s.strip(c)\<close> and \<open>s.rstrip(c)\<close> for one character.\<close>

definition rstrip :: "'a \<Rightarrow> 'a list \<Rightarrow> 'a list" where
  "rstrip c s = rev (dropWhile ((=) c) (rev s))"

definition strip :: "'a \<Rightarrow> 'a list \<Rightarrow> 'a list" where
  "strip c s = rstrip c (dropWhile ((=) c) s)"

lemma rstrip_append_replicate: "rstrip c (s @ replicate n c) = rstrip c s"
  by (simp add: rstrip_def dropWhile_append)

lemma rstrip_id: "s = [] \<or> last s \<noteq> c \<Longrightarrow> rstrip c s = s"
  by (cases s rule: rev_cases) (auto simp: rstrip_def)

lemma strip_id: "s = [] \<or> (hd s \<noteq> c \<and> last s \<noteq> c) \<Longrightarrow> strip c s = s"
  by (cases s) (auto simp: strip_def rstrip_id)

section \<open>Environment text\<close>

text \<open>
  What the code does with environment variables: \<open>strip()\<close>, \<open>lower()\<close>, \<open>upper()\<close> on ASCII
  text, and \<open>bytes.fromhex\<close>, which skips white space between bytes.
\<close>

definition is_space :: "char \<Rightarrow> bool" where
  "is_space c \<longleftrightarrow> (let n = (of_char c :: nat) in (9 \<le> n \<and> n \<le> 13) \<or> (28 \<le> n \<and> n \<le> 32))"

definition strip_space :: "string \<Rightarrow> string" where
  "strip_space s = rev (dropWhile is_space (rev (dropWhile is_space s)))"

definition lower_char :: "char \<Rightarrow> char" where
  "lower_char c = (let n = (of_char c :: nat) in if 65 \<le> n \<and> n \<le> 90 then char_of (n + 32) else c)"

definition upper_char :: "char \<Rightarrow> char" where
  "upper_char c = (let n = (of_char c :: nat) in if 97 \<le> n \<and> n \<le> 122 then char_of (n - 32) else c)"

definition lower :: "string \<Rightarrow> string" where
  "lower s = map lower_char s"

definition upper :: "string \<Rightarrow> string" where
  "upper s = map upper_char s"

definition hex_digit :: "char \<Rightarrow> nat option" where
  "hex_digit c =
     (let n = (of_char c :: nat) in
      if 48 \<le> n \<and> n \<le> 57 then Some (n - 48)
      else if 97 \<le> n \<and> n \<le> 102 then Some (n - 87)
      else if 65 \<le> n \<and> n \<le> 70 then Some (n - 55)
      else None)"

fun fromhex :: "string \<Rightarrow> bytes result" where
  "fromhex [] = Inr []"
| "fromhex [c] = (if is_space c then Inr [] else Inl (ValueError ''non-hexadecimal number''))"
| "fromhex (c # d # ds) =
     (if is_space c then fromhex (d # ds)
      else case (hex_digit c, hex_digit d) of
        (Some x, Some y) \<Rightarrow> bindE (fromhex ds) (\<lambda>r. Inr (word_of_nat (16 * x + y) # r))
      | _ \<Rightarrow> Inl (ValueError ''non-hexadecimal number''))"

text \<open>\<open>s.split(",")\<close>.\<close>

fun split_commas :: "string \<Rightarrow> string list" where
  "split_commas [] = [[]]"
| "split_commas (c # cs) =
     (if c = CHR '','' then [] # split_commas cs
      else case split_commas cs of [] \<Rightarrow> [[c]] | s # ss \<Rightarrow> (c # s) # ss)"

text \<open>\<open>os.getenv(name, default)\<close>; an unset variable is \<open>None\<close>.\<close>

definition getenv_or :: "string option \<Rightarrow> string \<Rightarrow> string" where
  "getenv_or v d = (case v of None \<Rightarrow> d | Some s \<Rightarrow> s)"

section \<open>Operations on a state\<close>

text \<open>
  A method that changes files or fields and may raise: the state is what is left behind either
  way. \<open>run_steps\<close> performs operations until one raises.
\<close>

type_synonym 's op = "'s \<Rightarrow> py_error option \<times> 's"

fun run_steps :: "'s op list \<Rightarrow> 's op" where
  "run_steps [] s = (None, s)"
| "run_steps (f # fs) s =
     (case f s of (None, s') \<Rightarrow> run_steps fs s' | (Some e, s') \<Rightarrow> (Some e, s'))"

lemma run_steps_ok: "fst (f s) = None \<Longrightarrow> run_steps (f # fs) s = run_steps fs (snd (f s))"
  by (cases "f s") simp

lemma run_steps_raises: "fst (f s) = Some e \<Longrightarrow> run_steps (f # fs) s = (Some e, snd (f s))"
  by (cases "f s") simp

lemma run_steps_append:
  "run_steps (fs @ gs) s =
     (case run_steps fs s of (None, s') \<Rightarrow> run_steps gs s' | (Some e, s') \<Rightarrow> (Some e, s'))"
  by (induction fs arbitrary: s) (auto split: option.splits prod.splits)

lemma run_steps_invariant:
  assumes "P s" and "\<And>f s. f \<in> set fs \<Longrightarrow> P s \<Longrightarrow> P (snd (f s))"
  shows "P (snd (run_steps fs s))"
  using assms
proof (induction fs arbitrary: s)
  case Nil
  then show ?case by simp
next
  case (Cons f fs)
  obtain r s' where f: "f s = (r, s')" by fastforce
  have "P s'" using Cons.prems(2) [of f s] Cons.prems(1) f by simp
  then show ?case using Cons.IH [of s'] Cons.prems(2) f by (cases r) simp_all
qed

declare run_steps.simps(2) [simp del]

text \<open>
  \<open>crash_safe S Q fs s\<close>: \<open>S\<close> holds before and after every operation, also after one that raised,
  and \<open>Q\<close> holds when all have been performed. \<open>step_to S P f Q\<close> is how one operation takes a
  phase \<open>P\<close> to a phase \<open>Q\<close>.
\<close>

fun crash_safe :: "('s \<Rightarrow> bool) \<Rightarrow> ('s \<Rightarrow> bool) \<Rightarrow> 's op list \<Rightarrow> 's \<Rightarrow> bool" where
  "crash_safe S Q [] s \<longleftrightarrow> S s \<and> Q s"
| "crash_safe S Q (f # fs) s \<longleftrightarrow>
     S s \<and> (if fst (f s) = None then crash_safe S Q fs (snd (f s)) else S (snd (f s)))"

definition step_to :: "('s \<Rightarrow> bool) \<Rightarrow> ('s \<Rightarrow> bool) \<Rightarrow> 's op \<Rightarrow> ('s \<Rightarrow> bool) \<Rightarrow> bool" where
  "step_to S P f Q \<longleftrightarrow>
     (\<forall>s. P s \<longrightarrow> S s \<and> (if fst (f s) = None then Q (snd (f s)) else S (snd (f s))))"

lemma crash_safe_prefix: "crash_safe S Q fs s \<Longrightarrow> S (snd (run_steps (take k fs) s))"
proof (induction fs arbitrary: s k)
  case Nil
  then show ?case by simp
next
  case (Cons f fs)
  then show ?case
    by (cases k; cases "fst (f s)") (simp_all add: run_steps_ok run_steps_raises)
qed

lemma crash_safe_final:
  "crash_safe S Q fs s \<Longrightarrow> fst (run_steps fs s) = None \<Longrightarrow> Q (snd (run_steps fs s))"
proof (induction fs arbitrary: s)
  case Nil
  then show ?case by simp
next
  case (Cons f fs)
  then show ?case
    by (cases "fst (f s)") (simp_all add: run_steps_ok run_steps_raises)
qed

lemma crash_safe_step:
  "step_to S P f R \<Longrightarrow> P s \<Longrightarrow> (\<And>s. R s \<Longrightarrow> crash_safe S Q fs s) \<Longrightarrow> crash_safe S Q (f # fs) s"
  by (auto simp: step_to_def)

lemma crash_safe_keep:
  assumes "\<And>f. f \<in> set fs \<Longrightarrow> step_to S P f P" and "P s" and "\<And>s. P s \<Longrightarrow> crash_safe S Q gs s"
  shows "crash_safe S Q (fs @ gs) s"
  using assms
proof (induction fs arbitrary: s)
  case Nil
  then show ?case by simp
next
  case (Cons f fs)
  have "step_to S P f P" using Cons.prems(1) by simp
  moreover have "crash_safe S Q (fs @ gs) s'" if "P s'" for s'
    using Cons.IH [OF _ that] Cons.prems(1,3) by simp
  ultimately show ?case
    using Cons.prems(2) by (simp only: append_Cons crash_safe_step)
qed

lemma step_to_keep: "(\<And>s. P s \<Longrightarrow> P (snd (f s))) \<Longrightarrow> (\<And>s. P s \<Longrightarrow> S s) \<Longrightarrow> step_to S P f P"
  by (auto simp: step_to_def)

section \<open>JSON objects\<close>

text \<open>
  A state file that holds a JSON object is a finite map from keys to values. \<open>JHex n\<close> is the
  text \<open>f"0x{n:08X}"\<close>, which \<open>int(_, 16)\<close> reads back as \<open>n\<close>.
\<close>

datatype jval = JText string | JNum nat | JBool bool | JHex nat

type_synonym jdict = "string \<Rightarrow> jval option"

text \<open>\<open>d.update(fields)\<close> and \<open>d.setdefault(k, v)\<close>.\<close>

definition jupdate :: "jdict \<Rightarrow> (string \<times> jval) list \<Rightarrow> jdict" where
  "jupdate d fields = d ++ map_of fields"

definition setdefault :: "string \<Rightarrow> jval \<Rightarrow> jdict \<Rightarrow> jdict" where
  "setdefault k v d = (if d k = None then d(k \<mapsto> v) else d)"

lemma jupdate_apply: "jupdate d fields k = (case map_of fields k of None \<Rightarrow> d k | Some v \<Rightarrow> Some v)"
  by (simp add: jupdate_def map_add_def)

lemma setdefault_other [simp]: "k \<noteq> k' \<Longrightarrow> setdefault k v d k' = d k'"
  by (simp add: setdefault_def)

section \<open>Actions with a result\<close>

text \<open>A call that may change a state and returns a value or raises.\<close>

type_synonym ('s, 'a) action = "'s \<Rightarrow> 'a result \<times> 's"

definition returnS :: "'a \<Rightarrow> ('s, 'a) action" where
  "returnS x s = (Inr x, s)"

definition raiseS :: "py_error \<Rightarrow> ('s, 'a) action" where
  "raiseS e s = (Inl e, s)"

definition bindS :: "('s, 'a) action \<Rightarrow> ('a \<Rightarrow> ('s, 'b) action) \<Rightarrow> ('s, 'b) action" where
  "bindS m f s = (case m s of (Inl e, s') \<Rightarrow> (Inl e, s') | (Inr x, s') \<Rightarrow> f x s')"

lemma bindS_Inr [simp]: "m s = (Inr x, s') \<Longrightarrow> bindS m f s = f x s'"
  by (simp add: bindS_def)

lemma bindS_Inl [simp]: "m s = (Inl e, s') \<Longrightarrow> bindS m f s = (Inl e, s')"
  by (simp add: bindS_def)

lemma returnS_apply [simp]: "returnS x s = (Inr x, s)"
  by (simp add: returnS_def)

lemma raiseS_apply [simp]: "raiseS e s = (Inl e, s)"
  by (simp add: raiseS_def)

end
