(* ===== verification/UDS_Codec.thy ===== *)
theory UDS_Codec
  imports OTA_Prelude
begin

text \<open>
  The UDS (ISO 14229) wire format: \<open>transport/uds/codec.py\<close> and \<open>transport/uds/security.py\<close>.

  Requests are built either by the third-party package \<open>udsoncan\<close> or, where it cannot be
  imported, from explicit bytes. The package is a parameter (\<open>udsoncan option\<close>: \<open>None\<close> is the
  failed import) and \<open>uds_library_conforms\<close> is what the code relies on: for arguments in range
  the package encodes a request as ISO 14229 prescribes. The lemmas show that the builders then
  agree on both paths, that a response is recognised exactly when it answers the request, and
  that the key derivation is an involution on seeds.
\<close>

section \<open>Constants\<close>

abbreviation SID_DIAGNOSTIC_SESSION_CONTROL :: byte where "SID_DIAGNOSTIC_SESSION_CONTROL \<equiv> 0x10"
abbreviation SID_ECU_RESET :: byte where "SID_ECU_RESET \<equiv> 0x11"
abbreviation SID_READ_DATA_BY_IDENTIFIER :: byte where "SID_READ_DATA_BY_IDENTIFIER \<equiv> 0x22"
abbreviation SID_SECURITY_ACCESS :: byte where "SID_SECURITY_ACCESS \<equiv> 0x27"
abbreviation SID_ROUTINE_CONTROL :: byte where "SID_ROUTINE_CONTROL \<equiv> 0x31"
abbreviation SID_REQUEST_DOWNLOAD :: byte where "SID_REQUEST_DOWNLOAD \<equiv> 0x34"
abbreviation SID_TRANSFER_DATA :: byte where "SID_TRANSFER_DATA \<equiv> 0x36"
abbreviation SID_REQUEST_TRANSFER_EXIT :: byte where "SID_REQUEST_TRANSFER_EXIT \<equiv> 0x37"
abbreviation SID_TESTER_PRESENT :: byte where "SID_TESTER_PRESENT \<equiv> 0x3E"

abbreviation POS_RESPONSE_OFFSET :: byte where "POS_RESPONSE_OFFSET \<equiv> 0x40"
abbreviation SID_NEGATIVE_RESPONSE :: byte where "SID_NEGATIVE_RESPONSE \<equiv> 0x7F"
abbreviation NRC_RESPONSE_PENDING :: byte where "NRC_RESPONSE_PENDING \<equiv> 0x78"
abbreviation NRC_INCORRECT_LENGTH_OR_FORMAT :: byte where "NRC_INCORRECT_LENGTH_OR_FORMAT \<equiv> 0x13"
abbreviation NRC_CONDITIONS_NOT_CORRECT :: byte where "NRC_CONDITIONS_NOT_CORRECT \<equiv> 0x22"
abbreviation NRC_REQUEST_SEQUENCE_ERROR :: byte where "NRC_REQUEST_SEQUENCE_ERROR \<equiv> 0x24"
abbreviation NRC_REQUEST_OUT_OF_RANGE :: byte where "NRC_REQUEST_OUT_OF_RANGE \<equiv> 0x31"
abbreviation NRC_SECURITY_ACCESS_DENIED :: byte where "NRC_SECURITY_ACCESS_DENIED \<equiv> 0x33"
abbreviation NRC_INVALID_KEY :: byte where "NRC_INVALID_KEY \<equiv> 0x35"
abbreviation NRC_EXCEED_NUMBER_OF_ATTEMPTS :: byte where "NRC_EXCEED_NUMBER_OF_ATTEMPTS \<equiv> 0x36"
abbreviation NRC_REQUIRED_TIME_DELAY_NOT_EXPIRED :: byte where
  "NRC_REQUIRED_TIME_DELAY_NOT_EXPIRED \<equiv> 0x37"
abbreviation NRC_UPLOAD_DOWNLOAD_NOT_ACCEPTED :: byte where
  "NRC_UPLOAD_DOWNLOAD_NOT_ACCEPTED \<equiv> 0x70"
abbreviation NRC_WRONG_BLOCK_SEQUENCE_COUNTER :: byte where
  "NRC_WRONG_BLOCK_SEQUENCE_COUNTER \<equiv> 0x73"
abbreviation NRC_SUBFUNCTION_NOT_SUPPORTED_IN_ACTIVE_SESSION :: byte where
  "NRC_SUBFUNCTION_NOT_SUPPORTED_IN_ACTIVE_SESSION \<equiv> 0x7E"
abbreviation NRC_SERVICE_NOT_SUPPORTED_IN_ACTIVE_SESSION :: byte where
  "NRC_SERVICE_NOT_SUPPORTED_IN_ACTIVE_SESSION \<equiv> 0x7F"

abbreviation DID_SOFTWARE_VERSION :: nat where "DID_SOFTWARE_VERSION \<equiv> 0xF188"
abbreviation DEFAULT_SESSION_PROGRAMMING :: byte where "DEFAULT_SESSION_PROGRAMMING \<equiv> 0x02"
abbreviation DEFAULT_RESET_HARD :: byte where "DEFAULT_RESET_HARD \<equiv> 0x01"
abbreviation SECURITY_ACCESS_REQUEST_SEED :: byte where "SECURITY_ACCESS_REQUEST_SEED \<equiv> 0x01"
abbreviation SECURITY_ACCESS_SEND_KEY :: byte where "SECURITY_ACCESS_SEND_KEY \<equiv> 0x02"
abbreviation ROUTINE_CONTROL_START :: byte where "ROUTINE_CONTROL_START \<equiv> 0x01"
abbreviation ROUTINE_ERASE_MEMORY :: nat where "ROUTINE_ERASE_MEMORY \<equiv> 0xFF00"
abbreviation ROUTINE_VERIFY_IMAGE :: nat where "ROUTINE_VERIFY_IMAGE \<equiv> 0xFF01"
abbreviation ROUTINE_ACTIVATE_IMAGE :: nat where "ROUTINE_ACTIVATE_IMAGE \<equiv> 0xFF02"

section \<open>Request builders\<close>

text \<open>What the code calls of \<open>udsoncan\<close>: one payload builder per service.\<close>

record udsoncan =
  lib_session_control :: "nat \<Rightarrow> bytes result"
  lib_tester_present :: "bytes result"
  lib_read_data_by_identifier :: "nat \<Rightarrow> bytes result"
  lib_request_seed :: "nat \<Rightarrow> bytes result"
  lib_send_key :: "nat \<Rightarrow> bytes \<Rightarrow> bytes result"
  lib_start_routine :: "nat \<Rightarrow> bytes \<Rightarrow> bytes result"
  lib_request_download :: "nat \<Rightarrow> nat \<Rightarrow> bytes result"
  lib_transfer_data :: "nat \<Rightarrow> bytes \<Rightarrow> bytes result"
  lib_transfer_exit :: "bytes result"
  lib_ecu_reset :: "nat \<Rightarrow> bytes result"

definition build_diagnostic_session_control :: "udsoncan option \<Rightarrow> nat \<Rightarrow> bytes result" where
  "build_diagnostic_session_control lib session =
     (case lib of
        Some L \<Rightarrow> lib_session_control L session
      | None \<Rightarrow> Inr [SID_DIAGNOSTIC_SESSION_CONTROL, word_of_nat session AND 0xFF])"

definition build_tester_present :: "udsoncan option \<Rightarrow> bool \<Rightarrow> bytes result" where
  "build_tester_present lib suppress_response =
     (case (lib, suppress_response) of
        (Some L, False) \<Rightarrow> lib_tester_present L
      | _ \<Rightarrow> Inr [SID_TESTER_PRESENT, if suppress_response then 0x80 else 0x00])"

definition build_read_data_by_identifier :: "udsoncan option \<Rightarrow> nat \<Rightarrow> bytes result" where
  "build_read_data_by_identifier lib did =
     (case lib of
        Some L \<Rightarrow> lib_read_data_by_identifier L did
      | None \<Rightarrow> bindE (to_bytes 2 did) (\<lambda>d. Inr (SID_READ_DATA_BY_IDENTIFIER # d)))"

definition build_security_access_request_seed :: "udsoncan option \<Rightarrow> nat \<Rightarrow> bytes result" where
  "build_security_access_request_seed lib level =
     (case lib of
        Some L \<Rightarrow> lib_request_seed L level
      | None \<Rightarrow> Inr [SID_SECURITY_ACCESS, word_of_nat level AND 0xFF])"

definition build_security_access_send_key ::
    "udsoncan option \<Rightarrow> nat \<Rightarrow> bytes \<Rightarrow> bytes result" where
  "build_security_access_send_key lib level key =
     (case lib of
        Some L \<Rightarrow> lib_send_key L level key
      | None \<Rightarrow> Inr ([SID_SECURITY_ACCESS, word_of_nat level AND 0xFF] @ key))"

definition build_routine_control_start ::
    "udsoncan option \<Rightarrow> nat \<Rightarrow> bytes \<Rightarrow> bytes result" where
  "build_routine_control_start lib routine_id data =
     (case lib of
        Some L \<Rightarrow> lib_start_routine L routine_id data
      | None \<Rightarrow> bindE (to_bytes 2 routine_id)
          (\<lambda>r. Inr ([SID_ROUTINE_CONTROL, ROUTINE_CONTROL_START] @ r @ data)))"

definition build_request_download :: "udsoncan option \<Rightarrow> nat \<Rightarrow> nat \<Rightarrow> bytes result" where
  "build_request_download lib memory_size memory_address =
     (case lib of
        Some L \<Rightarrow> lib_request_download L memory_size memory_address
      | None \<Rightarrow> bindE (to_bytes 4 memory_address) (\<lambda>a. bindE (to_bytes 4 memory_size)
          (\<lambda>s. Inr ([SID_REQUEST_DOWNLOAD, 0x00, 0x44] @ a @ s))))"

definition build_transfer_data :: "udsoncan option \<Rightarrow> nat \<Rightarrow> bytes \<Rightarrow> bytes result" where
  "build_transfer_data lib sequence_number payload =
     (case lib of
        Some L \<Rightarrow> lib_transfer_data L sequence_number payload
      | None \<Rightarrow> Inr ([SID_TRANSFER_DATA, word_of_nat sequence_number AND 0xFF] @ payload))"

definition build_request_transfer_exit :: "udsoncan option \<Rightarrow> bytes result" where
  "build_request_transfer_exit lib =
     (case lib of
        Some L \<Rightarrow> lib_transfer_exit L
      | None \<Rightarrow> Inr [SID_REQUEST_TRANSFER_EXIT])"

definition build_ecu_reset :: "udsoncan option \<Rightarrow> nat \<Rightarrow> bytes result" where
  "build_ecu_reset lib reset_type =
     (case lib of
        Some L \<Rightarrow> lib_ecu_reset L reset_type
      | None \<Rightarrow> Inr [SID_ECU_RESET, word_of_nat reset_type AND 0xFF])"

section \<open>Responses\<close>

definition positive_response_sid :: "byte \<Rightarrow> byte" where
  "positive_response_sid request_sid = (request_sid + POS_RESPONSE_OFFSET) AND 0xFF"

definition is_negative_response :: "bytes \<Rightarrow> bool" where
  "is_negative_response payload \<longleftrightarrow> 3 \<le> length payload \<and> payload ! 0 = SID_NEGATIVE_RESPONSE"

definition is_response_pending :: "bytes \<Rightarrow> byte option \<Rightarrow> bool" where
  "is_response_pending payload request_sid \<longleftrightarrow>
     (if \<not> is_negative_response payload then False
      else if (case request_sid of Some sid \<Rightarrow> payload ! 1 \<noteq> sid | None \<Rightarrow> False) then False
      else payload ! 2 = NRC_RESPONSE_PENDING)"

text \<open>
  \<open>_is_response_for_request\<close>: the filter by which the DoIP gateway, the zone controller and the
  CAN sender pick the answer to the pending request out of the traffic. The CAN sender differs
  in one branch: without a request id it accepts anything.
\<close>

definition is_response_for_request :: "bytes \<Rightarrow> byte option \<Rightarrow> bool" where
  "is_response_for_request payload request_sid \<longleftrightarrow>
     (case request_sid of
        None \<Rightarrow> False
      | Some sid \<Rightarrow>
          payload \<noteq> [] \<and>
          (payload ! 0 = positive_response_sid sid \<or>
           (is_negative_response payload \<and> 3 \<le> length payload \<and> payload ! 1 = sid)))"

definition parse_request_download_max_block_length :: "bytes \<Rightarrow> nat option" where
  "parse_request_download_max_block_length payload =
     (if payload = [] \<or> payload ! 0 \<noteq> positive_response_sid SID_REQUEST_DOWNLOAD then None
      else if length payload < 5 then None
      else let max_block_length = from_be (drop (length payload - 2) payload)
           in if max_block_length > 0 then Some max_block_length else None)"

definition parse_software_version :: "bytes \<Rightarrow> string option" where
  "parse_software_version payload =
     (if length payload < 3 \<or> payload ! 0 \<noteq> positive_response_sid SID_READ_DATA_BY_IDENTIFIER
      then None
      else if from_be (take 2 (drop 1 payload)) \<noteq> DID_SOFTWARE_VERSION then None
      else Some (strip (CHR 0x00) (string_of (utf8_ignore (drop 3 payload)))))"

definition parse_security_access_seed :: "bytes \<Rightarrow> bytes option" where
  "parse_security_access_seed payload =
     (if length payload < 3 \<or> payload ! 0 \<noteq> positive_response_sid SID_SECURITY_ACCESS then None
      else if payload ! 1 \<noteq> SECURITY_ACCESS_REQUEST_SEED then None
      else Some (drop 2 payload))"

section \<open>Security keys\<close>

definition DEMO_SECURITY_XOR_KEY :: bytes where
  "DEMO_SECURITY_XOR_KEY = [0xA5, 0x5A, 0x3C, 0xC3]"

text \<open>A key repeated up to the length of the seed: \<open>(key * ((n + k - 1) // k))[:n]\<close>.\<close>

definition repeat_key :: "bytes \<Rightarrow> nat \<Rightarrow> bytes" where
  "repeat_key key n = take n (concat (replicate ((n + length key - 1) div length key) key))"

definition derive_demo_security_key :: "bytes \<Rightarrow> bytes" where
  "derive_demo_security_key seed =
     (if seed = [] then []
      else map (\<lambda>(a, b). a XOR b) (zip seed (repeat_key DEMO_SECURITY_XOR_KEY (length seed))))"

text \<open>
  \<open>derive_security_key\<close> reads \<open>OTA_SECURITY_MODE\<close> (default \<open>demo_xor\<close>) and
  \<open>OTA_SECURITY_STATIC_KEY_HEX\<close> (default empty); \<open>None\<close> is an unset variable.
\<close>

record security_env =
  security_mode :: "string option"
  security_static_key_hex :: "string option"

definition derive_security_key :: "security_env \<Rightarrow> bytes \<Rightarrow> bytes result" where
  "derive_security_key env seed =
     (let mode = lower (strip_space (getenv_or (security_mode env) ''demo_xor'')) in
      if mode = ''static'' then
        let raw = strip_space (getenv_or (security_static_key_hex env) []) in
        if raw = [] then Inl (RuntimeError ''OTA_SECURITY_STATIC_KEY_HEX must be set'')
        else bindE (fromhex raw) (\<lambda>key.
          if key = [] then Inl (RuntimeError ''OTA_SECURITY_STATIC_KEY_HEX must not be empty'')
          else Inr (repeat_key key (length seed)))
      else Inr (derive_demo_security_key seed))"

section \<open>The builders on both paths\<close>

text \<open>
  ISO 14229 as far as the code uses it: what a conforming library returns for arguments in the
  range the standard allows.
\<close>

definition iso14229_encoder :: "udsoncan \<Rightarrow> bool" where
  "iso14229_encoder L \<longleftrightarrow>
     (\<forall>s < 0x80. lib_session_control L s = Inr [0x10, word_of_nat s]) \<and>
     lib_tester_present L = Inr [0x3E, 0x00] \<and>
     (\<forall>d < 0x10000. lib_read_data_by_identifier L d = Inr (0x22 # be_bytes 2 d)) \<and>
     (\<forall>l < 0x7F. odd l \<longrightarrow> lib_request_seed L l = Inr [0x27, word_of_nat l]) \<and>
     (\<forall>l < 0x7F. \<forall>k. even l \<and> 0 < l \<longrightarrow> lib_send_key L l k = Inr ([0x27, word_of_nat l] @ k)) \<and>
     (\<forall>r < 0x10000. \<forall>d. lib_start_routine L r d = Inr ([0x31, 0x01] @ be_bytes 2 r @ d)) \<and>
     (\<forall>n < 0x100000000. \<forall>a < 0x100000000.
        lib_request_download L n a = Inr ([0x34, 0x00, 0x44] @ be_bytes 4 a @ be_bytes 4 n)) \<and>
     (\<forall>q < 0x100. \<forall>p. lib_transfer_data L q p = Inr ([0x36, word_of_nat q] @ p)) \<and>
     lib_transfer_exit L = Inr [0x37] \<and>
     (\<forall>t < 0x80. lib_ecu_reset L t = Inr [0x11, word_of_nat t])"

definition uds_library_conforms :: "udsoncan option \<Rightarrow> bool" where
  "uds_library_conforms lib \<longleftrightarrow> (\<forall>L. lib = Some L \<longrightarrow> iso14229_encoder L)"

text \<open>A concrete conforming encoder: the explicit bytes.\<close>

definition explicit_encoder :: udsoncan where
  "explicit_encoder =
     \<lparr> lib_session_control = build_diagnostic_session_control None,
       lib_tester_present = build_tester_present None False,
       lib_read_data_by_identifier = build_read_data_by_identifier None,
       lib_request_seed = build_security_access_request_seed None,
       lib_send_key = build_security_access_send_key None,
       lib_start_routine = build_routine_control_start None,
       lib_request_download = build_request_download None,
       lib_transfer_data = build_transfer_data None,
       lib_transfer_exit = build_request_transfer_exit None,
       lib_ecu_reset = build_ecu_reset None \<rparr>"

lemmas builder_defs =
  build_diagnostic_session_control_def build_tester_present_def
  build_read_data_by_identifier_def build_security_access_request_seed_def
  build_security_access_send_key_def build_routine_control_start_def
  build_request_download_def build_transfer_data_def build_request_transfer_exit_def
  build_ecu_reset_def

lemma explicit_encoder_conforms: "iso14229_encoder explicit_encoder"
  by (simp add: iso14229_encoder_def explicit_encoder_def builder_defs to_bytes_def)

lemma no_library_conforms [simp]: "uds_library_conforms None"
  by (simp add: uds_library_conforms_def)

lemma uds_library_conformsD: "uds_library_conforms (Some L) \<Longrightarrow> iso14229_encoder L"
  by (simp add: uds_library_conforms_def)

text \<open>The requests of the programming flow, as the bytes on the wire.\<close>

lemma explicit_requests:
  "build_diagnostic_session_control None 0x02 = Inr [0x10, 0x02]"
  "build_tester_present None s = Inr [0x3E, if s then 0x80 else 0x00]"
  "d < 0x10000 \<Longrightarrow> build_read_data_by_identifier None d = Inr (0x22 # be_bytes 2 d)"
  "build_security_access_request_seed None 0x01 = Inr [0x27, 0x01]"
  "build_security_access_send_key None 0x02 key = Inr ([0x27, 0x02] @ key)"
  "r < 0x10000 \<Longrightarrow>
     build_routine_control_start None r data = Inr ([0x31, 0x01] @ be_bytes 2 r @ data)"
  "n < 0x100000000 \<Longrightarrow> a < 0x100000000 \<Longrightarrow>
     build_request_download None n a = Inr ([0x34, 0x00, 0x44] @ be_bytes 4 a @ be_bytes 4 n)"
  "build_transfer_data None q p = Inr ([0x36, word_of_nat q] @ p)"
  "build_request_transfer_exit None = Inr [0x37]"
  "build_ecu_reset None 0x01 = Inr [0x11, 0x01]"
  by (simp_all add: builder_defs to_bytes_def)

lemma library_requests:
  assumes "iso14229_encoder L"
  shows "build_diagnostic_session_control (Some L) 0x02 = Inr [0x10, 0x02]"
    and "build_tester_present (Some L) s = Inr [0x3E, if s then 0x80 else 0x00]"
    and "d < 0x10000 \<Longrightarrow> build_read_data_by_identifier (Some L) d = Inr (0x22 # be_bytes 2 d)"
    and "build_security_access_request_seed (Some L) 0x01 = Inr [0x27, 0x01]"
    and "build_security_access_send_key (Some L) 0x02 key = Inr ([0x27, 0x02] @ key)"
    and "r < 0x10000 \<Longrightarrow>
           build_routine_control_start (Some L) r data = Inr ([0x31, 0x01] @ be_bytes 2 r @ data)"
    and "n < 0x100000000 \<Longrightarrow> a < 0x100000000 \<Longrightarrow>
           build_request_download (Some L) n a =
             Inr ([0x34, 0x00, 0x44] @ be_bytes 4 a @ be_bytes 4 n)"
    and "q < 0x100 \<Longrightarrow> build_transfer_data (Some L) q p = Inr ([0x36, word_of_nat q] @ p)"
    and "build_request_transfer_exit (Some L) = Inr [0x37]"
    and "build_ecu_reset (Some L) 0x01 = Inr [0x11, 0x01]"
  using assms by (simp_all add: iso14229_encoder_def builder_defs split: bool.split)

lemma build_requests:
  assumes "uds_library_conforms lib"
  shows "build_diagnostic_session_control lib 0x02 = Inr [0x10, 0x02]"
    and "build_tester_present lib s = Inr [0x3E, if s then 0x80 else 0x00]"
    and "d < 0x10000 \<Longrightarrow> build_read_data_by_identifier lib d = Inr (0x22 # be_bytes 2 d)"
    and "build_security_access_request_seed lib 0x01 = Inr [0x27, 0x01]"
    and "build_security_access_send_key lib 0x02 key = Inr ([0x27, 0x02] @ key)"
    and "r < 0x10000 \<Longrightarrow>
           build_routine_control_start lib r data = Inr ([0x31, 0x01] @ be_bytes 2 r @ data)"
    and "n < 0x100000000 \<Longrightarrow> a < 0x100000000 \<Longrightarrow>
           build_request_download lib n a = Inr ([0x34, 0x00, 0x44] @ be_bytes 4 a @ be_bytes 4 n)"
    and "q < 0x100 \<Longrightarrow> build_transfer_data lib q p = Inr ([0x36, word_of_nat q] @ p)"
    and "build_request_transfer_exit lib = Inr [0x37]"
    and "build_ecu_reset lib 0x01 = Inr [0x11, 0x01]"
  using assms
  by (cases lib, simp only: explicit_requests,
      simp only: library_requests uds_library_conformsD)+

section \<open>Recognising responses\<close>

lemma positive_response_sid_inject [simp]:
  "positive_response_sid a = positive_response_sid b \<longleftrightarrow> a = b"
  by (simp add: positive_response_sid_def)

lemma positive_response_sid_neq_negative [simp]:
  "positive_response_sid sid = SID_NEGATIVE_RESPONSE \<longleftrightarrow> sid = 0x3F"
proof -
  have "(0x7F :: byte) = positive_response_sid 0x3F"
    by (simp add: positive_response_sid_def)
  then show ?thesis by (metis positive_response_sid_inject)
qed

lemma response_pending_negative: "is_response_pending p sid \<Longrightarrow> is_negative_response p"
  by (auto simp: is_response_pending_def split: if_splits)

lemma pending_is_response: "is_response_pending p (Some sid) \<Longrightarrow> is_response_for_request p (Some sid)"
  by (auto simp: is_response_pending_def is_response_for_request_def is_negative_response_def
      split: if_splits)

lemma negative_response_for_request:
  "is_response_for_request [0x7F, sid, code] (Some sid)"
  by (simp add: is_response_for_request_def is_negative_response_def)

lemma positive_response_for_request:
  "is_response_for_request (positive_response_sid sid # rest) (Some sid)"
  by (simp add: is_response_for_request_def)

text \<open>One payload answers at most one service, unless it answers service 3F, which does not exist.\<close>

lemma response_for_one_request:
  assumes "is_response_for_request p (Some a)" and "is_response_for_request p (Some b)"
    and "a \<noteq> 0x3F" and "b \<noteq> 0x3F"
  shows "a = b"
proof (cases "p ! 0 = SID_NEGATIVE_RESPONSE")
  case True
  have "p ! 1 = a"
    using assms(1,3) True positive_response_sid_neq_negative [of a]
    by (auto simp: is_response_for_request_def)
  moreover have "p ! 1 = b"
    using assms(2,4) True positive_response_sid_neq_negative [of b]
    by (auto simp: is_response_for_request_def)
  ultimately show ?thesis by simp
next
  case False
  then have "positive_response_sid a = p ! 0" and "positive_response_sid b = p ! 0"
    using assms(1,2) unfolding is_response_for_request_def is_negative_response_def
    by (auto split: option.splits)
  then show ?thesis by (metis positive_response_sid_inject)
qed

section \<open>The key derivation\<close>

lemma length_concat_replicate: "length (concat (replicate n xs)) = n * length xs"
  by (induction n) auto

lemma length_repeat_key [simp]: "key \<noteq> [] \<Longrightarrow> length (repeat_key key n) = n"
proof -
  assume "key \<noteq> []"
  let ?k = "length key"
  have k: "0 < ?k" using \<open>key \<noteq> []\<close> by simp
  have "n < (n + ?k - 1) div ?k * ?k + 1"
    using k div_mult_mod_eq [of "n + ?k - 1" ?k] mod_less_divisor [OF k, of "n + ?k - 1"] by linarith
  then show ?thesis by (simp add: repeat_key_def length_concat_replicate min_def)
qed

lemma length_derive_demo_security_key [simp]:
  "length (derive_demo_security_key seed) = length seed"
  by (simp add: derive_demo_security_key_def DEMO_SECURITY_XOR_KEY_def)

lemma map2_xor_involution:
  "length ks = length xs \<Longrightarrow>
   map (\<lambda>(a, b). a XOR b) (zip (map (\<lambda>(a, b). a XOR b) (zip xs ks)) ks) = (xs :: bytes)"
  by (induction ks xs rule: list_induct2) (simp_all add: xor.assoc)

lemma derive_demo_security_key_involution:
  "derive_demo_security_key (derive_demo_security_key seed) = seed"
proof (cases "seed = []")
  case True
  then show ?thesis by (simp add: derive_demo_security_key_def)
next
  case False
  let ?ks = "repeat_key DEMO_SECURITY_XOR_KEY (length seed)"
  have ks: "length ?ks = length seed"
    by (simp add: DEMO_SECURITY_XOR_KEY_def)
  let ?x = "map (\<lambda>(a, b). a XOR b) (zip seed ?ks)"
  have "?x \<noteq> []" and "length ?x = length seed"
    using False ks by (auto simp: zip_eq_Nil_iff)
  then show ?thesis
    using False map2_xor_involution [OF ks] by (simp add: derive_demo_security_key_def)
qed

lemma derive_demo_security_key_inject:
  "derive_demo_security_key s = derive_demo_security_key t \<Longrightarrow> s = t"
  by (metis derive_demo_security_key_involution)

section \<open>Properties of the wire format\<close>

text \<open>The two ways of building a request agree: where the package conforms to ISO 14229, each
  request of the programming flow has the same bytes with the package and without it, for
  arguments in range.\<close>

theorem builders_agree_with_library:
  assumes "uds_library_conforms (Some L)" and "r < 0x10000" and "n < 0x100000000" and "a < 0x100000000"
    and "q < 0x100"
  shows "build_diagnostic_session_control (Some L) 0x02 = build_diagnostic_session_control None 0x02 \<and>
         build_tester_present (Some L) s = build_tester_present None s \<and>
         build_read_data_by_identifier (Some L) r = build_read_data_by_identifier None r \<and>
         build_security_access_request_seed (Some L) 0x01 = build_security_access_request_seed None 0x01 \<and>
         build_security_access_send_key (Some L) 0x02 key = build_security_access_send_key None 0x02 key \<and>
         build_routine_control_start (Some L) r data = build_routine_control_start None r data \<and>
         build_request_download (Some L) n a = build_request_download None n a \<and>
         build_transfer_data (Some L) q data = build_transfer_data None q data \<and>
         build_request_transfer_exit (Some L) = build_request_transfer_exit None \<and>
         build_ecu_reset (Some L) 0x01 = build_ecu_reset None 0x01"
  using assms
  by (simp only: library_requests uds_library_conformsD explicit_requests simp_thms)

theorem builders_agree_with_library_witness:
  "build_request_download (Some explicit_encoder) 3 0 = build_request_download None 3 0"
proof -
  have "uds_library_conforms (Some explicit_encoder)"
    by (simp add: uds_library_conforms_def explicit_encoder_conforms)
  from builders_agree_with_library [OF this, where r = "0xFF00" and n = 3 and a = 0 and q = 1] show ?thesis by simp
qed

text \<open>A payload is taken for the answer to at most one service (service 3F, whose positive
  response would collide with the negative response id, does not exist), and a pending response
  is both an answer to its request and negative.\<close>

theorem response_identifies_request:
  assumes "is_response_for_request p (Some a)" and "a \<noteq> 0x3F"
  shows "(\<forall>b. b \<noteq> 0x3F \<longrightarrow> is_response_for_request p (Some b) \<longrightarrow> b = a) \<and>
         (is_response_pending p (Some b) \<longrightarrow> b \<noteq> 0x3F \<longrightarrow> is_negative_response p \<and> b = a)"
  using assms response_for_one_request [of p a] response_pending_negative [of p "Some b"]
    pending_is_response [of p b]
  by blast

theorem response_identifies_request_witness:
  "\<not> is_response_for_request [0x7F, 0x31, 0x78] (Some 0x36) \<and>
   is_negative_response [0x7F, 0x31, 0x78]"
proof -
  have "is_response_for_request [0x7F, 0x31, 0x78] (Some 0x31)"
    and "is_response_pending [0x7F, 0x31, 0x78] (Some 0x31)"
    by code_simp+
  with response_identifies_request [of "[0x7F, 0x31, 0x78]" "0x31" "0x36"]
    response_identifies_request [of "[0x7F, 0x31, 0x78]" "0x31" "0x31"]
  show ?thesis by (auto dest!: spec [where x = "0x36"])
qed

text \<open>The demo key derivation is its own inverse: from any key its seed is recovered by deriving
  again, so distinct seeds have distinct keys and every pair shows the secret constant.\<close>

theorem demo_key_is_involution:
  "derive_demo_security_key (derive_demo_security_key seed) = seed \<and>
   length (derive_demo_security_key seed) = length seed"
  by (simp add: derive_demo_security_key_involution)

end
