(* ===== verification/IsoTp.thy ===== *)
theory IsoTp
  imports OTA_Prelude
begin

text \<open>
  ISO-TP segmentation and reassembly on CAN FD: \<open>transport/can/isotp_adapter.py\<close>.

  \<open>segment\<close> and \<open>isotp_send\<close> are the sender (\<open>IsoTpAdapter\<close>), the record \<open>reassembler\<close> with
  \<open>reassembler_feed\<close> the receiver (\<open>IsoTpReassembler\<close>). The bus is the list of what successive
  \<open>recv\<close> calls return. The main results: the receiver restores every payload the sender
  segments, whatever state it was in; the flow-controlled sender puts exactly the segmented
  frames on the bus when it returns, and a prefix of them when it raises; no frame exceeds
  the CAN FD limit.
\<close>

section \<open>Sender\<close>

abbreviation MAX_CAN_FD_DATA :: nat where "MAX_CAN_FD_DATA \<equiv> 64"
abbreviation SF_MAX_PAYLOAD :: nat where "SF_MAX_PAYLOAD \<equiv> 62"
abbreviation FF_MAX_PAYLOAD :: nat where "FF_MAX_PAYLOAD \<equiv> 62"
abbreviation CF_MAX_PAYLOAD :: nat where "CF_MAX_PAYLOAD \<equiv> 63"
abbreviation MAX_WAIT_FRAMES :: nat where "MAX_WAIT_FRAMES \<equiv> 8"
abbreviation FLOW_CONTROL_TIMEOUT :: clock where "FLOW_CONTROL_TIMEOUT \<equiv> 2"
abbreviation FLOW_STATUS_CONTINUE :: byte where "FLOW_STATUS_CONTINUE \<equiv> 0x0"
abbreviation FLOW_STATUS_WAIT :: byte where "FLOW_STATUS_WAIT \<equiv> 0x1"
abbreviation FLOW_STATUS_OVERFLOW :: byte where "FLOW_STATUS_OVERFLOW \<equiv> 0x2"

definition single_frame :: "bytes \<Rightarrow> bytes result" where
  "single_frame payload =
     (if length payload > SF_MAX_PAYLOAD then Inl (ValueError ''Single frame payload too large'')
      else if length payload \<le> 0x0F then Inr ((push_bit 4 0x0 OR word_of_nat (length payload)) # payload)
      else Inr ([0x00, word_of_nat (length payload)] @ payload))"

definition first_frame :: "nat \<Rightarrow> bytes \<Rightarrow> bytes result" where
  "first_frame total_length payload =
     (if total_length > 0xFFF
      then Inl (ValueError ''ISO-TP payload too large for simple adapter'')
      else Inr ([push_bit 4 0x1 OR (word_of_nat (drop_bit 8 total_length) AND 0x0F),
                 word_of_nat (total_length) AND 0xFF] @ payload))"

definition consecutive_frame :: "nat \<Rightarrow> bytes \<Rightarrow> bytes" where
  "consecutive_frame sequence payload =
     (push_bit 4 0x2 OR (word_of_nat sequence AND 0x0F)) # payload"

text \<open>The \<open>while remaining\<close> loop of \<open>segment\<close>.\<close>

function consecutive_frames :: "nat \<Rightarrow> bytes \<Rightarrow> bytes list" where
  "consecutive_frames sequence remaining =
     (if remaining = [] then []
      else consecutive_frame sequence (take CF_MAX_PAYLOAD remaining) #
           consecutive_frames ((sequence + 1) mod 16) (drop CF_MAX_PAYLOAD remaining))"
  by pat_completeness auto
termination
  by (relation "measure (\<lambda>(_, r). length r)") auto

declare consecutive_frames.simps [simp del]

definition segment :: "bytes \<Rightarrow> bytes list result" where
  "segment payload =
     (if length payload \<le> SF_MAX_PAYLOAD then bindE (single_frame payload) (\<lambda>f. Inr [f])
      else bindE (first_frame (length payload) (take FF_MAX_PAYLOAD payload))
        (\<lambda>f. Inr (f # consecutive_frames 1 (drop FF_MAX_PAYLOAD payload))))"

definition build_flow_control :: "nat \<Rightarrow> nat \<Rightarrow> nat \<Rightarrow> bytes" where
  "build_flow_control flow_status block_size stmin =
     [push_bit 4 0x3 OR (word_of_nat flow_status AND 0x0F), word_of_nat block_size AND 0xFF,
      word_of_nat stmin AND 0xFF]"

definition parse_flow_control :: "bytes \<Rightarrow> (byte \<times> nat \<times> real) option" where
  "parse_flow_control frame =
     (if length frame < 3 \<or> drop_bit 4 (frame ! 0) \<noteq> 0x3 then None
      else let stmin_byte = unat (frame ! 2) in
        Some (frame ! 0 AND 0x0F, unat (frame ! 1),
          if stmin_byte \<le> 0x7F then real stmin_byte / 1000
          else if 0xF1 \<le> stmin_byte \<and> stmin_byte \<le> 0xF9
               then real (stmin_byte - 0xF0) / 10000
          else 0))"

text \<open>
  A CAN message as the code reads it, and one turn of a receive loop: the time the loop
  condition reads and what \<open>recv\<close> returned. When the list ends, nothing arrives before the
  deadline any more.
\<close>

record can_message =
  arbitration_id :: nat
  can_data :: bytes

type_synonym bus_input = "(clock \<times> can_message option) list"

text \<open>\<open>_wrap_frame\<close>: raises where a frame exceeds the CAN FD payload.\<close>

definition wrap_frame :: "nat \<Rightarrow> bytes \<Rightarrow> can_message result" where
  "wrap_frame arb payload =
     (if length payload > MAX_CAN_FD_DATA then Inl (ValueError ''Frame exceeds CAN FD max length'')
      else Inr \<lparr>arbitration_id = arb, can_data = payload\<rparr>)"

fun wait_for_flow_control ::
    "nat \<Rightarrow> clock \<Rightarrow> nat \<Rightarrow> bus_input \<Rightarrow> (nat \<times> real) result \<times> bus_input" where
  "wait_for_flow_control arb deadline wait_count [] =
     (Inl (TimeoutError ''Timed out waiting for ISO-TP FlowControl''), [])"
| "wait_for_flow_control arb deadline wait_count ((now, message) # inp) =
     (if \<not> now < deadline
      then (Inl (TimeoutError ''Timed out waiting for ISO-TP FlowControl''), inp)
      else case message of
        None \<Rightarrow> wait_for_flow_control arb deadline wait_count inp
      | Some m \<Rightarrow>
          if arbitration_id m \<noteq> arb then wait_for_flow_control arb deadline wait_count inp
          else case parse_flow_control (can_data m) of
            None \<Rightarrow> wait_for_flow_control arb deadline wait_count inp
          | Some (flow_status, block_size, stmin_seconds) \<Rightarrow>
              if flow_status = FLOW_STATUS_WAIT then
                (if wait_count + 1 > MAX_WAIT_FRAMES
                 then (Inl (TimeoutError ''ISO-TP receiver stayed in WAIT too long''), inp)
                 else wait_for_flow_control arb deadline (wait_count + 1) inp)
              else if flow_status = FLOW_STATUS_OVERFLOW
              then (Inl (RuntimeError ''ISO-TP receiver reported overflow''), inp)
              else if flow_status \<noteq> FLOW_STATUS_CONTINUE
              then (Inl (RuntimeError ''Unsupported ISO-TP flow status''), inp)
              else (Inr (block_size, stmin_seconds), inp))"

text \<open>
  The \<open>while remaining\<close> loop of \<open>send\<close>: before a block is exhausted the loop waits for the
  next flow control (\<open>starts k\<close> is the clock reading at the start of the \<open>k\<close>-th wait). The
  pause of \<open>stmin_seconds\<close> between frames changes nothing but the time and is left out. The
  result is the messages put on the bus and the exception that ended the call, if any.
\<close>

function send_loop ::
    "nat \<Rightarrow> (nat \<Rightarrow> clock) \<Rightarrow> nat \<Rightarrow> nat \<Rightarrow> nat \<Rightarrow> nat \<Rightarrow> bytes \<Rightarrow> bus_input
      \<Rightarrow> can_message list \<times> py_error option" where
  "send_loop arb starts k block_size block_counter sequence remaining inp =
     (if remaining = [] then ([], None)
      else
        let wait = (block_size \<noteq> 0 \<and> block_counter \<ge> block_size);
            (fc, inp') = (if wait
               then wait_for_flow_control arb (starts k + FLOW_CONTROL_TIMEOUT) 0 inp
               else (Inr (block_size, 0), inp));
            counter = (if wait then 0 else block_counter)
        in case fc of
          Inl e \<Rightarrow> ([], Some e)
        | Inr (bsize, _) \<Rightarrow>
            (case wrap_frame arb (consecutive_frame sequence (take CF_MAX_PAYLOAD remaining)) of
               Inl e \<Rightarrow> ([], Some e)
             | Inr m \<Rightarrow>
                 let (ms, err) =
                   send_loop arb starts (if wait then k + 1 else k) bsize (counter + 1)
                     ((sequence + 1) mod 16) (drop CF_MAX_PAYLOAD remaining) inp'
                 in (m # ms, err)))"
  by pat_completeness auto
termination
  by (relation "measure (\<lambda>(_, _, _, _, _, _, r, _). length r)") auto

declare send_loop.simps [simp del]

definition isotp_send ::
    "nat \<Rightarrow> (nat \<Rightarrow> clock) \<Rightarrow> bytes \<Rightarrow> bus_input \<Rightarrow> can_message list \<times> py_error option" where
  "isotp_send arb starts payload inp =
     (if length payload \<le> SF_MAX_PAYLOAD
      then (case bindE (single_frame payload) (wrap_frame arb) of
              Inl e \<Rightarrow> ([], Some e) | Inr m \<Rightarrow> ([m], None))
      else case bindE (first_frame (length payload) (take FF_MAX_PAYLOAD payload)) (wrap_frame arb) of
             Inl e \<Rightarrow> ([], Some e)
           | Inr m \<Rightarrow>
               (case wait_for_flow_control arb (starts 0 + FLOW_CONTROL_TIMEOUT) 0 inp of
                  (Inl e, _) \<Rightarrow> ([m], Some e)
                | (Inr (block_size, _), inp') \<Rightarrow>
                    let (ms, err) =
                      send_loop arb starts 1 block_size 0 1 (drop FF_MAX_PAYLOAD payload) inp'
                    in (m # ms, err)))"

section \<open>Receiver\<close>

record reassembler =
  expected_length :: "nat option"
  rx_data :: bytes
  next_sequence :: nat
  rx_block_size :: nat
  rx_stmin :: nat
  frames_until_next_flow_control :: int
  pending_flow_control :: "bytes option"

definition new_reassembler :: "nat \<Rightarrow> nat \<Rightarrow> reassembler" where
  "new_reassembler block_size stmin =
     \<lparr>expected_length = None, rx_data = [], next_sequence = 1, rx_block_size = block_size,
      rx_stmin = stmin, frames_until_next_flow_control = 0, pending_flow_control = None\<rparr>"

definition reassembler_reset :: "reassembler \<Rightarrow> reassembler" where
  "reassembler_reset r =
     r\<lparr>expected_length := None, rx_data := [], next_sequence := 1,
       frames_until_next_flow_control := 0, pending_flow_control := None\<rparr>"

definition feed_single_frame :: "bytes \<Rightarrow> reassembler \<Rightarrow> reassembler \<times> bytes option" where
  "feed_single_frame frame r =
     (let len = unat (frame ! 0 AND 0x0F) in
      if len = 0 \<and> length frame < 2 then (r, None)
      else
        let (n, start) = (if len = 0 then (unat (frame ! 1), 2) else (len, 1)) in
        if length frame < start + n then (r, None)
        else (reassembler_reset r, Some (take n (drop start frame))))"

definition feed_first_frame :: "bytes \<Rightarrow> reassembler \<Rightarrow> reassembler \<times> bytes option" where
  "feed_first_frame frame r =
     (if length frame < 2 then (r, None)
      else
        let n = push_bit 8 (unat (frame ! 0 AND 0x0F)) OR unat (frame ! 1) in
        if n = 0 then (reassembler_reset r, None)
        else
          let r' = r\<lparr>expected_length := Some n, rx_data := drop 2 frame, next_sequence := 1,
                     frames_until_next_flow_control := int (rx_block_size r),
                     pending_flow_control :=
                       Some (build_flow_control 0 (rx_block_size r) (rx_stmin r))\<rparr>
          in if length (rx_data r') \<ge> n
             then (reassembler_reset r', Some (take n (rx_data r')))
             else (r', None))"

definition feed_consecutive_frame :: "bytes \<Rightarrow> reassembler \<Rightarrow> reassembler \<times> bytes option" where
  "feed_consecutive_frame frame r =
     (case expected_length r of
        None \<Rightarrow> (r, None)
      | Some n \<Rightarrow>
          if unat (frame ! 0 AND 0x0F) \<noteq> next_sequence r then (reassembler_reset r, None)
          else if length frame < 2 then (reassembler_reset r, None)
          else
            let r1 = r\<lparr>rx_data := rx_data r @ drop 1 frame,
                       next_sequence := (next_sequence r + 1) mod 16\<rparr>;
                r2 = (if rx_block_size r \<noteq> 0
                      then r1\<lparr>frames_until_next_flow_control :=
                                frames_until_next_flow_control r1 - 1\<rparr>
                      else r1)
            in if length (rx_data r2) < n
               then ((if rx_block_size r \<noteq> 0 \<and> frames_until_next_flow_control r2 = 0
                      then r2\<lparr>pending_flow_control :=
                                Some (build_flow_control 0 (rx_block_size r) (rx_stmin r)),
                              frames_until_next_flow_control := int (rx_block_size r)\<rparr>
                      else r2), None)
               else (reassembler_reset r2, Some (take n (rx_data r2))))"

definition reassembler_feed :: "bytes \<Rightarrow> reassembler \<Rightarrow> reassembler \<times> bytes option" where
  "reassembler_feed frame r =
     (if frame = [] then (r, None)
      else let frame_type = drop_bit 4 (frame ! 0) in
        if frame_type = 0x0 then feed_single_frame frame r
        else if frame_type = 0x1 then feed_first_frame frame r
        else if frame_type = 0x2 then feed_consecutive_frame frame r
        else (r, None))"

definition pop_flow_control_frame :: "reassembler \<Rightarrow> reassembler \<times> bytes option" where
  "pop_flow_control_frame r = (r\<lparr>pending_flow_control := None\<rparr>, pending_flow_control r)"

text \<open>Feeding a sequence of frames, with the payloads that come out.\<close>

fun feed_all :: "bytes list \<Rightarrow> reassembler \<Rightarrow> reassembler \<times> bytes list" where
  "feed_all [] r = (r, [])"
| "feed_all (f # fs) r =
     (let (r', out) = reassembler_feed f r; (r'', outs) = feed_all fs r'
      in (r'', (case out of None \<Rightarrow> outs | Some p \<Rightarrow> p # outs)))"

section \<open>Protocol control bytes\<close>

lemma byte_low_nibble: "(x :: byte) AND 0x0F = take_bit 4 x"
  by (simp add: take_bit_eq_mask mask_eq_exp_minus_1)

lemma drop_bit_low_nibble: "drop_bit 4 (take_bit 4 (x :: byte)) = 0"
  by (simp add: drop_bit_take_bit)

lemma pci_type_first: "drop_bit 4 (0x10 OR take_bit 4 (x :: byte)) = 1"
  by (simp add: drop_bit_low_nibble)

lemma pci_type_consecutive: "drop_bit 4 (0x20 OR take_bit 4 (x :: byte)) = 2"
  by (simp add: drop_bit_low_nibble)

lemma pci_low_nibble:
  "take_bit 4 (0x10 OR take_bit 4 (x :: byte)) = take_bit 4 x"
  "take_bit 4 (0x20 OR take_bit 4 (x :: byte)) = take_bit 4 x"
  by (simp_all add: take_bit_or)

lemma unat_take_bit_4: "unat (take_bit 4 (word_of_nat n :: byte)) = n mod 16"
proof -
  have "unat (take_bit 4 (word_of_nat n :: byte)) = take_bit 4 (n mod 256)"
    by (simp only: unsigned_take_bit_eq unat_word_of_nat_byte)
  also have "\<dots> = n mod 16"
    by (simp add: take_bit_eq_mod mod_mod_cancel)
  finally show ?thesis .
qed

lemma drop_bit_4_small: "n < 16 \<Longrightarrow> drop_bit 4 (word_of_nat n :: byte) = 0"
proof -
  assume n: "n < 16"
  have "unat (drop_bit 4 (word_of_nat n :: byte)) = drop_bit 4 n"
    using n by (simp only: unsigned_drop_bit_eq unat_word_of_nat_byte)
      (simp add: take_bit_nat_eq_self)
  also have "\<dots> = 0" using n by (simp add: drop_bit_eq_div)
  finally show ?thesis by (simp only: unat_eq_0)
qed

lemma length_field: "b < 256 \<Longrightarrow> push_bit 8 (a :: nat) OR b = a * 256 + b"
proof -
  assume "b < 256"
  then have b: "take_bit 8 b = b" by (simp add: take_bit_nat_eq_self)
  have "push_bit 8 a OR take_bit 8 b = push_bit 8 a + take_bit 8 b"
    by (rule disjunctive_add_eq_or [symmetric]) (simp add: bit_eq_iff bit_simps)
  then show ?thesis by (simp add: b push_bit_eq_mult)
qed

lemmas pci_simps =
  byte_low_nibble drop_bit_low_nibble pci_type_first pci_type_consecutive pci_low_nibble unat_take_bit_4
  drop_bit_4_small length_field

section \<open>Segmentation\<close>

lemma single_frame_Inr_iff:
  "single_frame p = Inr f \<longleftrightarrow>
     length p \<le> 62 \<and>
     f = (if length p \<le> 15 then word_of_nat (length p) # p
          else [0x00, word_of_nat (length p)] @ p)"
  by (auto simp: single_frame_def)

lemma first_frame_Inr_iff:
  "first_frame n p = Inr f \<longleftrightarrow>
     n \<le> 0xFFF \<and>
     f = [0x10 OR (word_of_nat (n div 256) AND 0x0F), word_of_nat n] @ p"
  by (auto simp: first_frame_def drop_bit_eq_div)

lemma consecutive_frames_Nil [simp]: "consecutive_frames s [] = []"
  by (simp add: consecutive_frames.simps)

lemma consecutive_frames_step:
  "q \<noteq> [] \<Longrightarrow> consecutive_frames s q =
     consecutive_frame s (take 63 q) # consecutive_frames ((s + 1) mod 16) (drop 63 q)"
  by (subst consecutive_frames.simps) simp

lemma length_consecutive_frame [simp]: "length (consecutive_frame s c) = Suc (length c)"
  by (simp add: consecutive_frame_def)

lemma consecutive_frames_size: "f \<in> set (consecutive_frames s q) \<Longrightarrow> length f \<le> 64"
proof (induction s q rule: consecutive_frames.induct)
  case (1 s q)
  then show ?case
    by (cases "q = []") (auto simp: consecutive_frames_step)
qed

lemma segment_Inr_iff:
  "segment p = Inr fs \<longleftrightarrow>
     (length p \<le> 62 \<and> (\<exists>f. single_frame p = Inr f \<and> fs = [f])) \<or>
     (62 < length p \<and> (\<exists>f. first_frame (length p) (take 62 p) = Inr f \<and>
        fs = f # consecutive_frames 1 (drop 62 p)))"
  by (auto simp: segment_def bindE_Inr_iff)

lemma segment_defined: "(\<exists>fs. segment p = Inr fs) \<longleftrightarrow> length p \<le> 0xFFF"
  by (cases "length p \<le> 62") (simp_all add: segment_Inr_iff single_frame_Inr_iff first_frame_Inr_iff)

lemma segment_frame_size: "segment p = Inr fs \<Longrightarrow> f \<in> set fs \<Longrightarrow> length f \<le> 64"
  by (auto simp: segment_Inr_iff single_frame_Inr_iff first_frame_Inr_iff split: if_splits
      dest: consecutive_frames_size)

section \<open>Reassembly\<close>

lemma reset_reset [simp]: "reassembler_reset (reassembler_reset r) = reassembler_reset r"
  by (simp add: reassembler_reset_def)

lemma reassembler_feed_consecutive:
  "reassembler_feed (consecutive_frame s c) r = feed_consecutive_frame (consecutive_frame s c) r"
  by (simp add: reassembler_feed_def consecutive_frame_def pci_simps)

lemma feed_more:
  assumes "expected_length r = Some n" and "next_sequence r = s" and "s < 16" and "c \<noteq> []"
    and "length (rx_data r @ c) < n"
  obtains r' where "reassembler_feed (consecutive_frame s c) r = (r', None)"
    and "expected_length r' = Some n" and "rx_data r' = rx_data r @ c"
    and "next_sequence r' = (s + 1) mod 16" and "reassembler_reset r' = reassembler_reset r"
proof -
  let ?r' = "fst (feed_consecutive_frame (consecutive_frame s c) r)"
  have "feed_consecutive_frame (consecutive_frame s c) r = (?r', None)"
    and "expected_length ?r' = Some n" and "rx_data ?r' = rx_data r @ c"
    and "next_sequence ?r' = (s + 1) mod 16" and "reassembler_reset ?r' = reassembler_reset r"
    using assms
    by (auto simp: feed_consecutive_frame_def consecutive_frame_def pci_simps Let_def
        reassembler_reset_def)
  then show ?thesis
    by (intro that [of ?r']) (simp_all add: reassembler_feed_consecutive)
qed

lemma feed_last:
  assumes "expected_length r = Some n" and "next_sequence r = s" and "s < 16" and "c \<noteq> []"
    and "n \<le> length (rx_data r @ c)"
  shows "reassembler_feed (consecutive_frame s c) r =
           (reassembler_reset r, Some (take n (rx_data r @ c)))"
proof -
  have "feed_consecutive_frame (consecutive_frame s c) r =
          (reassembler_reset r, Some (take n (rx_data r @ c)))"
    using assms
    by (auto simp: feed_consecutive_frame_def consecutive_frame_def pci_simps Let_def
        reassembler_reset_def)
  then show ?thesis by (simp only: reassembler_feed_consecutive)
qed

lemma feed_all_consecutive_frames:
  assumes "q \<noteq> []" and "expected_length r = Some n" and "next_sequence r = s" and "s < 16"
    and "length (rx_data r @ q) = n"
  shows "feed_all (consecutive_frames s q) r = (reassembler_reset r, [rx_data r @ q])"
  using assms
proof (induction s q arbitrary: r rule: consecutive_frames.induct)
  case (1 s q)
  let ?c = "take 63 q"
  have c: "?c \<noteq> []" using "1.prems"(1) by simp
  have split: "consecutive_frames s q =
      consecutive_frame s ?c # consecutive_frames ((s + 1) mod 16) (drop 63 q)"
    using "1.prems"(1) by (rule consecutive_frames_step)
  show ?case
  proof (cases "drop 63 q = []")
    case True
    then have q: "?c = q" by simp
    have "reassembler_feed (consecutive_frame s q) r = (reassembler_reset r, Some (rx_data r @ q))"
      using feed_last [OF "1.prems"(2,3,4,1)] "1.prems"(5) by simp
    then show ?thesis by (simp add: split q True)
  next
    case False
    then have "length (rx_data r @ ?c) < n" using "1.prems"(5) by auto
    with feed_more [OF "1.prems"(2,3,4) c] obtain r' where
      r': "reassembler_feed (consecutive_frame s ?c) r = (r', None)"
        "expected_length r' = Some n" "rx_data r' = rx_data r @ ?c"
        "next_sequence r' = (s + 1) mod 16" "reassembler_reset r' = reassembler_reset r"
      by metis
    have "feed_all (consecutive_frames ((s + 1) mod 16) (drop 63 q)) r' =
        (reassembler_reset r', [rx_data r' @ drop 63 q])"
      using "1.prems"(5) r' False
      by (intro "1.IH" [OF "1.prems"(1)]) auto
    then show ?thesis by (simp add: split r')
  qed
qed

lemma feed_first_of_many:
  assumes "62 < length p" and "length p \<le> 0xFFF" and "first_frame (length p) (take 62 p) = Inr f"
  obtains r' where "reassembler_feed f r = (r', None)" and "expected_length r' = Some (length p)"
    and "next_sequence r' = 1" and "rx_data r' = take 62 p"
    and "reassembler_reset r' = reassembler_reset r"
proof -
  have len: "(length p div 256) mod 16 * 256 + length p mod 256 = length p"
    using assms(2) by simp
  have f: "f = [0x10 OR take_bit 4 (word_of_nat (length p div 256)), word_of_nat (length p)] @ take 62 p"
    using assms(3) by (simp add: first_frame_Inr_iff byte_low_nibble)
  let ?r' = "fst (reassembler_feed f r)"
  have "reassembler_feed f r = (?r', None)" and "expected_length ?r' = Some (length p)"
    and "next_sequence ?r' = 1" and "rx_data ?r' = take 62 p"
    and "reassembler_reset ?r' = reassembler_reset r"
    using assms(1) len
    by (auto simp: f reassembler_feed_def feed_first_frame_def pci_simps Let_def
        reassembler_reset_def)
  then show ?thesis by (rule that)
qed

lemma feed_single:
  assumes "single_frame p = Inr f" and "p \<noteq> []"
  shows "reassembler_feed f r = (reassembler_reset r, Some p)"
proof (cases "length p \<le> 15")
  case True
  then have f: "f = word_of_nat (length p) # p" and "length p < 16" "0 < length p"
    using assms by (auto simp: single_frame_Inr_iff)
  then show ?thesis
    by (simp add: reassembler_feed_def feed_single_frame_def pci_simps Let_def)
next
  case False
  then have "f = [0x00, word_of_nat (length p)] @ p" and "length p \<le> 62"
    using assms by (auto simp: single_frame_Inr_iff)
  then show ?thesis
    by (simp add: reassembler_feed_def feed_single_frame_def pci_simps Let_def)
qed

text \<open>
  The receiver restores what the sender segments, from any state it may be in: a new message
  overrides whatever an interrupted one left behind.
\<close>

lemma feed_all_segment:
  assumes "segment p = Inr fs" and "p \<noteq> []"
  shows "feed_all fs r = (reassembler_reset r, [p])"
proof (cases "length p \<le> 62")
  case True
  with assms obtain f where "single_frame p = Inr f" and fs: "fs = [f]"
    by (auto simp: segment_Inr_iff)
  with assms(2) show ?thesis by (simp add: feed_single)
next
  case False
  with assms obtain f where f: "first_frame (length p) (take 62 p) = Inr f"
    and fs: "fs = f # consecutive_frames 1 (drop 62 p)"
    by (auto simp: segment_Inr_iff)
  have "62 < length p" and "length p \<le> 0xFFF"
    using False f by (auto simp: first_frame_Inr_iff)
  then obtain r' where r': "reassembler_feed f r = (r', None)"
      "expected_length r' = Some (length p)" "next_sequence r' = 1" "rx_data r' = take 62 p"
      "reassembler_reset r' = reassembler_reset r"
    using f by (rule feed_first_of_many)
  have "feed_all (consecutive_frames 1 (drop 62 p)) r' = (reassembler_reset r', [rx_data r' @ drop 62 p])"
    using False r' by (intro feed_all_consecutive_frames) auto
  then show ?thesis by (simp add: fs r')
qed

section \<open>The flow-controlled sender\<close>

lemma wrap_frame_Inr_iff:
  "wrap_frame arb p = Inr m \<longleftrightarrow> length p \<le> 64 \<and> m = \<lparr>arbitration_id = arb, can_data = p\<rparr>"
  by (auto simp: wrap_frame_def)

lemma send_loop_prefix:
  "send_loop arb starts k bs bc s q inp = (ms, err) \<Longrightarrow>
     \<exists>rest. consecutive_frames s q = map can_data ms @ rest \<and> (err = None \<longrightarrow> rest = [])"
proof (induction arb starts k bs bc s q inp arbitrary: ms err rule: send_loop.induct)
  case (1 arb starts k bs bc s q inp)
  show ?case
  proof (cases "q = []")
    case True
    with "1.prems" show ?thesis by (simp add: send_loop.simps)
  next
    case False
    let ?wait = "bs \<noteq> 0 \<and> bc \<ge> bs"
    obtain fc inp' where fc: "(if ?wait
        then wait_for_flow_control arb (starts k + FLOW_CONTROL_TIMEOUT) 0 inp
        else (Inr (bs, 0), inp)) = (fc, inp')" by fastforce
    show ?thesis
    proof (cases fc)
      case (Inl e)
      with "1.prems" False fc have "ms = []" and "err = Some e"
        by (simp_all add: send_loop.simps [of arb starts k bs bc s q inp])
      then show ?thesis by simp
    next
      case (Inr sz)
      obtain bsize st where sz: "sz = (bsize, st)" by fastforce
      obtain m where m: "wrap_frame arb (consecutive_frame s (take CF_MAX_PAYLOAD q)) = Inr m"
        and data: "can_data m = consecutive_frame s (take 63 q)"
        by (auto simp: wrap_frame_def)
      obtain ms' err' where rec: "send_loop arb starts (if ?wait then k + 1 else k) bsize
          ((if ?wait then 0 else bc) + 1) ((s + 1) mod 16) (drop CF_MAX_PAYLOAD q) inp' = (ms', err')"
        by fastforce
      have res: "ms = m # ms'" "err = err'"
        using "1.prems" False fc m rec Inr sz
        by (auto simp: send_loop.simps [of arb starts k bs bc s q inp] Let_def split: if_splits)
      have "\<exists>rest. consecutive_frames ((s + 1) mod 16) (drop 63 q) = map can_data ms' @ rest \<and>
          (err' = None \<longrightarrow> rest = [])"
        by (rule "1.IH" [OF False refl refl fc [symmetric] refl Inr sz [symmetric] m rec])
      then show ?thesis
        by (auto simp: res data consecutive_frames_step [OF False])
    qed
  qed
qed

lemma isotp_send_prefix:
  assumes "isotp_send arb starts p inp = (ms, err)" and "segment p = Inr fs"
  shows "\<exists>rest. fs = map can_data ms @ rest \<and> (err = None \<longrightarrow> rest = [])"
proof (cases "length p \<le> 62")
  case True
  with assms show ?thesis
    by (auto simp: isotp_send_def segment_def single_frame_def wrap_frame_def split: if_splits)
next
  case False
  with assms(2) obtain f where f: "first_frame (length p) (take 62 p) = Inr f"
    and fs: "fs = f # consecutive_frames 1 (drop 62 p)"
    by (auto simp: segment_Inr_iff)
  have "length f \<le> 64" using f by (auto simp: first_frame_Inr_iff)
  then have m: "wrap_frame arb f = Inr \<lparr>arbitration_id = arb, can_data = f\<rparr>"
    by (simp add: wrap_frame_def)
  obtain fc inp' where fc: "wait_for_flow_control arb (starts 0 + FLOW_CONTROL_TIMEOUT) 0 inp = (fc, inp')"
    by fastforce
  show ?thesis
  proof (cases fc)
    case (Inl e)
    then show ?thesis using assms(1) False f m fc fs by (auto simp: isotp_send_def)
  next
    case (Inr sz)
    obtain bs st where sz: "sz = (bs, st)" by fastforce
    obtain ms' err' where rec:
      "send_loop arb starts 1 bs 0 1 (drop FF_MAX_PAYLOAD p) inp' = (ms', err')" by fastforce
    have "ms = \<lparr>arbitration_id = arb, can_data = f\<rparr> # ms'" and "err = err'"
      using assms(1) False f m fc Inr sz rec by (auto simp: isotp_send_def)
    with send_loop_prefix [OF rec] show ?thesis by (auto simp: fs)
  qed
qed

lemma send_loop_arbitration:
  "send_loop arb starts k bs bc s q inp = (ms, err) \<Longrightarrow> m \<in> set ms \<Longrightarrow> arbitration_id m = arb"
proof (induction arb starts k bs bc s q inp arbitrary: ms err rule: send_loop.induct)
  case (1 arb starts k bs bc s q inp)
  show ?case
  proof (cases "q = []")
    case True
    with "1.prems" show ?thesis by (simp add: send_loop.simps)
  next
    case False
    let ?wait = "bs \<noteq> 0 \<and> bc \<ge> bs"
    obtain fc inp' where fc: "(if ?wait
        then wait_for_flow_control arb (starts k + FLOW_CONTROL_TIMEOUT) 0 inp
        else (Inr (bs, 0), inp)) = (fc, inp')" by fastforce
    show ?thesis
    proof (cases fc)
      case (Inl e)
      with "1.prems" False fc show ?thesis
        by (simp add: send_loop.simps [of arb starts k bs bc s q inp])
    next
      case (Inr sz)
      obtain bsize st where sz: "sz = (bsize, st)" by fastforce
      obtain f where f: "wrap_frame arb (consecutive_frame s (take CF_MAX_PAYLOAD q)) = Inr f"
        and arb: "arbitration_id f = arb"
        by (auto simp: wrap_frame_def)
      obtain ms' err' where rec: "send_loop arb starts (if ?wait then k + 1 else k) bsize
          ((if ?wait then 0 else bc) + 1) ((s + 1) mod 16) (drop CF_MAX_PAYLOAD q) inp' = (ms', err')"
        by fastforce
      have res: "ms = f # ms'" "err = err'"
        using "1.prems" False fc f rec Inr sz
        by (auto simp: send_loop.simps [of arb starts k bs bc s q inp] Let_def split: if_splits)
      have "m \<in> set ms' \<Longrightarrow> arbitration_id m = arb"
        by (rule "1.IH" [OF False refl refl fc [symmetric] refl Inr sz [symmetric] f rec])
      then show ?thesis using "1.prems"(2) arb by (auto simp: res)
    qed
  qed
qed

lemma isotp_send_arbitration:
  assumes "isotp_send arb starts p inp = (ms, err)" and "m \<in> set ms"
  shows "arbitration_id m = arb"
  using assms
  by (auto simp: isotp_send_def wrap_frame_def bindE_Inr_iff
      split: if_splits sum.splits prod.splits dest: send_loop_arbitration)

section \<open>End to end\<close>

text \<open>C10: When \<open>send\<close> returns without an exception, whatever flow control the receiver sent
  meanwhile, the frames on the bus carry the whole payload: a reassembler in any state that is
  fed with them delivers exactly this payload, once, and is idle again. No frame is longer than
  a CAN FD frame.\<close>

theorem sent_payload_is_reassembled:
  assumes "isotp_send arb starts p inp = (ms, None)" and "p \<noteq> []"
  shows "feed_all (map can_data ms) r = (reassembler_reset r, [p]) \<and>
         (\<forall>m \<in> set ms. length (can_data m) \<le> 64)"
proof -
  have "length p \<le> 0xFFF"
    using assms(1)
    by (auto simp: isotp_send_def first_frame_def split: if_splits)
  then obtain fs where fs: "segment p = Inr fs" using segment_defined by blast
  then have "map can_data ms = fs" using isotp_send_prefix [OF assms(1) fs] by simp
  then show ?thesis
    using feed_all_segment [OF fs assms(2)] segment_frame_size [OF fs] by force
qed

text \<open>A payload of more than 4095 bytes is refused before anything is put on the bus, and an
  empty payload is sent but never delivered: the receiver does not take its frame for a message.\<close>

theorem isotp_payload_bounds:
  "(4095 < length p \<longrightarrow> (\<exists>e. isotp_send arb starts p inp = ([], Some e))) \<and>
   (\<exists>m. isotp_send arb starts [] inp = ([m], None) \<and> snd (reassembler_feed (can_data m) r) = None)"
proof (intro conjI impI)
  assume "4095 < length p"
  then show "\<exists>e. isotp_send arb starts p inp = ([], Some e)"
    by (simp add: isotp_send_def first_frame_def)
next
  show "\<exists>m. isotp_send arb starts [] inp = ([m], None) \<and> snd (reassembler_feed (can_data m) r) = None"
    by (simp add: isotp_send_def single_frame_def wrap_frame_def reassembler_feed_def
        feed_single_frame_def)
qed

theorem isotp_payload_bounds_witness:
  "(\<exists>e. isotp_send 0x201 (\<lambda>_. 0) (replicate 4096 0) [] = ([], Some e)) \<and>
   (\<exists>m. isotp_send 0x201 (\<lambda>_. 0) [] [] = ([m], None) \<and> snd (reassembler_feed (can_data m) (new_reassembler 0 0)) = None)"
  using isotp_payload_bounds [where p = "replicate 4096 0" and r = "new_reassembler 0 0" and arb = "0x201" and starts = "\<lambda>_. 0" and inp = "[]"] by simp

theorem sent_payload_is_reassembled_witness:
  "feed_all (map can_data [\<lparr>arbitration_id = 0x201, can_data = [2, 0x10, 0x02]\<rparr>])
     (new_reassembler 0 0) = (reassembler_reset (new_reassembler 0 0), [[0x10, 0x02]])"
  using sent_payload_is_reassembled [of "0x201" "\<lambda>_. 0" "[0x10, 0x02]" "[]"
      "[\<lparr>arbitration_id = 0x201, can_data = [2, 0x10, 0x02]\<rparr>]" "new_reassembler 0 0"]
  by (simp add: isotp_send_def single_frame_def wrap_frame_def)

end
