(* ===== verification/Versions.thy ===== *)
theory Versions
  imports OTA_Prelude
begin

text \<open>
  Version values and transport names: \<open>common/utils.py\<close>.

  \<open>SemVer\<close> is ordered like the tuple of its fields (\<open>dataclass(order=True)\<close>), which makes it a
  linear order; \<open>SemVer_parse\<close> is the regular expression of \<open>SemVer.parse\<close> written as the
  deterministic scan it denotes (each group is followed by a character the group cannot
  contain, so the match never has to give characters back). Digits are the ASCII ones. The
  main results: printing and parsing are inverse, and normalising a version keeps its place in
  the order and is idempotent.
\<close>

section \<open>Numbers\<close>

definition is_digit :: "char \<Rightarrow> bool" where
  "is_digit c \<longleftrightarrow> (let n = (of_char c :: nat) in 48 \<le> n \<and> n \<le> 57)"

definition number :: "string \<Rightarrow> nat" where
  "number ds = foldl (\<lambda>acc c. acc * 10 + (of_char c - 48)) 0 ds"

fun show_nat :: "nat \<Rightarrow> string" where
  "show_nat n =
     (if n < 10 then [char_of (48 + n)]
      else show_nat (n div 10) @ [char_of (48 + n mod 10)])"

declare show_nat.simps [simp del]

lemma is_digit_char_of: "(n :: nat) < 10 \<Longrightarrow> is_digit (char_of (48 + n))"
  by (simp add: is_digit_def Let_def)

lemma show_nat_digits: "c \<in> set (show_nat n) \<Longrightarrow> is_digit c"
proof (induction n rule: show_nat.induct)
  case (1 n)
  show ?case
  proof (cases "n < 10")
    case True
    with 1 show ?thesis by (simp add: show_nat.simps [of n] is_digit_char_of)
  next
    case False
    with 1 show ?thesis
      by (auto simp: show_nat.simps [of n] is_digit_char_of)
  qed
qed

lemma show_nat_neq_Nil [simp]: "show_nat n \<noteq> []"
  by (subst show_nat.simps) simp

lemma number_snoc: "number (ds @ [c]) = number ds * 10 + (of_char c - 48)"
  by (simp add: number_def)

lemma number_show_nat [simp]: "number (show_nat n) = n"
proof (induction n rule: show_nat.induct)
  case (1 n)
  show ?case
  proof (cases "n < 10")
    case True
    then show ?thesis by (simp add: show_nat.simps [of n] number_def)
  next
    case False
    then show ?thesis by (simp add: show_nat.simps [of n] number_snoc 1)
  qed
qed

section \<open>Versions\<close>

datatype semver = SemVer (major: nat) (minor: nat) (patch: nat)

instantiation semver :: linorder
begin

fun less_eq_semver :: "semver \<Rightarrow> semver \<Rightarrow> bool" where
  "less_eq_semver (SemVer a b c) (SemVer a' b' c') \<longleftrightarrow>
     a < a' \<or> (a = a' \<and> (b < b' \<or> (b = b' \<and> c \<le> c')))"

fun less_semver :: "semver \<Rightarrow> semver \<Rightarrow> bool" where
  "less_semver (SemVer a b c) (SemVer a' b' c') \<longleftrightarrow>
     a < a' \<or> (a = a' \<and> (b < b' \<or> (b = b' \<and> c < c')))"

instance
proof
  fix x y z :: semver
  show "x < y \<longleftrightarrow> x \<le> y \<and> \<not> y \<le> x" by (cases x; cases y) auto
  show "x \<le> x" by (cases x) auto
  show "x \<le> y \<Longrightarrow> y \<le> z \<Longrightarrow> x \<le> z" by (cases x; cases y; cases z) auto
  show "x \<le> y \<Longrightarrow> y \<le> x \<Longrightarrow> x = y" by (cases x; cases y) auto
  show "x \<le> y \<or> y \<le> x" by (cases x; cases y) auto
qed

end

text \<open>A version value: absent, already parsed, or text.\<close>

datatype version_value = VersionNone | VersionParsed semver | VersionText string

text \<open>An optional group \<open>(?:\.(\d+))?\<close>: its number (0 where it is absent) and the rest.\<close>

definition optional_group :: "string \<Rightarrow> nat \<times> string" where
  "optional_group s =
     (case s of
        [] \<Rightarrow> (0, [])
      | c # r \<Rightarrow>
          if c = CHR ''.'' \<and> takeWhile is_digit r \<noteq> []
          then (number (takeWhile is_digit r), dropWhile is_digit r)
          else (0, s))"

text \<open>The rest \<open>(?:[-+].*)?$\<close>; a dot does not match a newline.\<close>

definition version_suffix :: "string \<Rightarrow> bool" where
  "version_suffix s \<longleftrightarrow>
     (case s of [] \<Rightarrow> True | c # r \<Rightarrow> (c = CHR ''-'' \<or> c = CHR ''+'') \<and> CHR 0x0A \<notin> set r)"

definition SemVer_parse :: "version_value \<Rightarrow> semver result" where
  "SemVer_parse value =
     (case value of
        VersionParsed v \<Rightarrow> Inr v
      | VersionNone \<Rightarrow> Inl (ValueError ''Version value cannot be None'')
      | VersionText text \<Rightarrow>
          let normalized = strip_space text;
              digits = takeWhile is_digit normalized;
              (min, rest1) = optional_group (dropWhile is_digit normalized);
              (pat, rest2) = optional_group rest1
          in if normalized = [] then Inl (ValueError ''Version value cannot be empty'')
             else if digits = [] \<or> \<not> version_suffix rest2
             then Inl (ValueError ''Invalid version value'')
             else Inr (SemVer (number digits) min pat))"

definition SemVer_str :: "semver \<Rightarrow> string" where
  "SemVer_str v = show_nat (major v) @ ''.'' @ show_nat (minor v) @ ''.'' @ show_nat (patch v)"

definition parse_version :: "version_value \<Rightarrow> semver result" where
  "parse_version value = SemVer_parse value"

definition version_lt :: "version_value \<Rightarrow> version_value \<Rightarrow> bool result" where
  "version_lt left right =
     bindE (parse_version left) (\<lambda>l. bindE (parse_version right) (\<lambda>r. Inr (l < r)))"

definition version_lte :: "version_value \<Rightarrow> version_value \<Rightarrow> bool result" where
  "version_lte left right =
     bindE (parse_version left) (\<lambda>l. bindE (parse_version right) (\<lambda>r. Inr (l \<le> r)))"

definition version_eq :: "version_value \<Rightarrow> version_value \<Rightarrow> bool result" where
  "version_eq left right =
     bindE (parse_version left) (\<lambda>l. bindE (parse_version right) (\<lambda>r. Inr (l = r)))"

definition version_gte :: "version_value \<Rightarrow> version_value \<Rightarrow> bool result" where
  "version_gte left right =
     bindE (parse_version left) (\<lambda>l. bindE (parse_version right) (\<lambda>r. Inr (l \<ge> r)))"

definition normalize_version :: "version_value \<Rightarrow> string result" where
  "normalize_version value = bindE (parse_version value) (\<lambda>v. Inr (SemVer_str v))"

section \<open>Printing and parsing\<close>

lemma takeWhile_digits:
  assumes "\<forall>c \<in> set ds. is_digit c" and "r = [] \<or> \<not> is_digit (hd r)"
  shows "takeWhile is_digit (ds @ r) = ds" and "dropWhile is_digit (ds @ r) = r"
  using assms by (cases r; simp)+

lemma digit_not_space: "is_digit c \<Longrightarrow> \<not> is_space c"
  by (auto simp: is_digit_def is_space_def Let_def)

lemma strip_space_id:
  assumes "s \<noteq> []" and "\<not> is_space (hd s)" and "\<not> is_space (last s)"
  shows "strip_space s = s"
proof -
  have "dropWhile is_space s = s"
    using assms(1,2) by (cases s) auto
  moreover have "dropWhile is_space (rev s) = rev s"
    using assms(1,3) by (cases "rev s") (auto simp: last_conv_nth hd_rev [symmetric])
  ultimately show ?thesis by (simp add: strip_space_def)
qed

lemma not_digit_dot [simp]: "\<not> is_digit (CHR ''.'')"
  by (simp add: is_digit_def)

lemma optional_group_dot:
  "r = [] \<or> \<not> is_digit (hd r) \<Longrightarrow> optional_group (CHR ''.'' # show_nat n @ r) = (n, r)"
  using takeWhile_digits [of "show_nat n" r] show_nat_digits
  by (auto simp: optional_group_def)

lemma SemVer_str_roundtrip: "SemVer_parse (VersionText (SemVer_str v)) = Inr v"
proof -
  let ?t = "''.'' @ show_nat (minor v) @ ''.'' @ show_nat (patch v)"
  let ?s = "show_nat (major v) @ ?t"
  have "hd ?s \<in> set (show_nat (major v))" and "last ?s \<in> set (show_nat (patch v))"
    by simp_all
  then have "is_digit (hd ?s)" and "is_digit (last ?s)"
    by (blast intro: show_nat_digits)+
  then have "strip_space ?s = ?s"
    by (intro strip_space_id digit_not_space) simp_all
  moreover have "takeWhile is_digit ?s = show_nat (major v)" and "dropWhile is_digit ?s = ?t"
    using takeWhile_digits [of "show_nat (major v)" ?t] show_nat_digits by auto
  moreover have "optional_group ?t = (minor v, ''.'' @ show_nat (patch v))"
    using optional_group_dot [of "''.'' @ show_nat (patch v)" "minor v"] by simp
  moreover have "optional_group (''.'' @ show_nat (patch v)) = (patch v, [])"
    using optional_group_dot [of "[]" "patch v"] by simp
  ultimately show ?thesis
    by (simp add: SemVer_parse_def SemVer_str_def version_suffix_def Let_def)
qed

lemma parse_version_str [simp]: "parse_version (VersionText (SemVer_str v)) = Inr v"
  by (simp add: parse_version_def SemVer_str_roundtrip)

lemma normalize_version_Inr_iff:
  "normalize_version x = Inr s \<longleftrightarrow> (\<exists>v. parse_version x = Inr v \<and> s = SemVer_str v)"
  by (auto simp: normalize_version_def bindE_Inr_iff)

lemma parse_normalized: "normalize_version x = Inr s \<Longrightarrow> parse_version (VersionText s) = parse_version x"
  by (auto simp: normalize_version_Inr_iff)

lemma normalize_version_idem: "normalize_version x = Inr s \<Longrightarrow> normalize_version (VersionText s) = Inr s"
  by (auto simp: normalize_version_Inr_iff)

lemma version_trichotomy:
  assumes "parse_version x = Inr a" and "parse_version y = Inr b"
  shows "version_lt x y = Inr (\<not> (a \<ge> b))" and "version_gte x y = Inr (a \<ge> b)"
    and "version_lte x y = Inr (a < b \<or> a = b)" and "version_eq x y = Inr (a = b)"
  using assms by (auto simp: version_lt_def version_gte_def version_lte_def version_eq_def)

section \<open>Transport names\<close>

definition transport_aliases :: "(string \<times> string) list" where
  "transport_aliases =
     [(''CAN'', ''CAN''), (''VCAN'', ''VCAN''), (''DOIP'', ''DOIP''), (''ETHERNET'', ''ETHERNET'')]"

definition normalize_transport :: "string option \<Rightarrow> string" where
  "normalize_transport value =
     (case value of
        None \<Rightarrow> []
      | Some v \<Rightarrow>
          let t = upper (strip_space v)
          in (case map_of transport_aliases t of Some a \<Rightarrow> a | None \<Rightarrow> t))"

lemma normalize_transport_Some: "normalize_transport (Some v) = upper (strip_space v)"
  by (auto simp: normalize_transport_def transport_aliases_def Let_def split: option.split if_splits)

section \<open>Normal forms and the order\<close>

text \<open>Normalising a version gives a text that normalises to itself and that every comparison
  treats like the original, and the comparisons are those of the numeric triple: exactly one of
  less, equal and greater holds.\<close>

theorem normalised_version_compares_alike:
  assumes "normalize_version x = Inr s" and "parse_version y = Inr b"
  shows "normalize_version (VersionText s) = Inr s \<and>
         version_eq x (VersionText s) = Inr True \<and>
         version_lt (VersionText s) y = version_lt x y \<and>
         version_lte (VersionText s) y = version_lte x y \<and>
         version_gte (VersionText s) y = version_gte x y \<and>
         (\<exists>a. parse_version x = Inr a \<and> version_lt x y = Inr (a < b) \<and>
            version_eq x y = Inr (a = b) \<and> version_lt y x = Inr (b < a))"
proof -
  obtain a where a: "parse_version x = Inr a" and s: "s = SemVer_str a"
    using assms(1) by (auto simp: normalize_version_Inr_iff)
  show ?thesis
    using normalize_version_idem [OF assms(1)] a assms(2)
    by (auto simp: s version_lt_def version_lte_def version_gte_def version_eq_def)
qed

theorem normalised_version_compares_alike_witness:
  "\<exists>a. parse_version (VersionText '' 1.10-rc1 '') = Inr a \<and>
     version_lt (VersionText '' 1.10-rc1 '') (VersionText ''1.9.3'') = Inr (a < SemVer 1 9 3)"
proof -
  have "normalize_version (VersionText '' 1.10-rc1 '') = Inr ''1.10.0''"
    and "parse_version (VersionText ''1.9.3'') = Inr (SemVer 1 9 3)"
    by code_simp+
  from normalised_version_compares_alike [OF this] show ?thesis by blast
qed

end
