(* ===== verification/Digests.thy ===== *)
theory Digests
  imports OTA_Prelude
begin

text \<open>
  The standard-library digests the sources call: \<open>hashlib.sha256\<close>, \<open>hmac.new(key, msg, sha256)\<close>
  and \<open>binascii.crc32\<close>, written out so that the model computes them, and \<open>hexdigest()\<close>.
  \<open>common/checksum.py\<close> wraps them.
\<close>

section \<open>Hexadecimal text\<close>

definition hex_char :: "nat \<Rightarrow> char" where
  "hex_char n = char_of (if n < 10 then 48 + n else 87 + n)"

definition hex_of :: "bytes \<Rightarrow> string" where
  "hex_of bs = concat (map (\<lambda>b. [hex_char (unat b div 16), hex_char (unat b mod 16)]) bs)"

lemma hex_digit_hex_char [simp]: "n < 16 \<Longrightarrow> hex_digit (hex_char n) = Some n"
  by (simp add: hex_digit_def hex_char_def Let_def)

lemma not_space_hex_char [simp]: "n < 16 \<Longrightarrow> \<not> is_space (hex_char n)"
  by (simp add: is_space_def hex_char_def Let_def)

lemma fromhex_hex_of [simp]: "fromhex (hex_of bs) = Inr bs"
proof (induction bs)
  case Nil
  then show ?case by (simp add: hex_of_def)
next
  case (Cons b bs)
  have "unat b div 16 < 16" and "unat b mod 16 < 16"
    using unat_byte_less [of b] by (simp_all add: less_mult_imp_div_less)
  then show ?case using Cons.IH
    by (simp add: hex_of_def)
qed

lemma hex_of_inject [simp]: "hex_of a = hex_of b \<longleftrightarrow> a = b"
  by (metis fromhex_hex_of sum.inject(2))

lemma lower_hex_char [simp]: "n < 16 \<Longrightarrow> lower_char (hex_char n) = hex_char n"
  by (auto simp: lower_char_def hex_char_def Let_def)

lemma lower_hex_of [simp]: "lower (hex_of bs) = hex_of bs"
proof (induction bs)
  case Nil
  then show ?case by (simp add: hex_of_def lower_def)
next
  case (Cons b bs)
  have "unat b div 16 < 16" and "unat b mod 16 < 16"
    using unat_byte_less [of b] by (simp_all add: less_mult_imp_div_less)
  with Cons.IH show ?case by (simp add: hex_of_def lower_def)
qed

lemma length_hex_of [simp]: "length (hex_of bs) = 2 * length bs"
  by (induction bs) (simp_all add: hex_of_def)

section \<open>CRC-32\<close>

fun crc32_bits :: "nat \<Rightarrow> 32 word \<Rightarrow> 32 word" where
  "crc32_bits 0 c = c"
| "crc32_bits (Suc n) c =
     crc32_bits n (if bit c 0 then drop_bit 1 c XOR 0xEDB88320 else drop_bit 1 c)"

definition crc32 :: "bytes \<Rightarrow> nat" where
  "crc32 bs = unat (NOT (foldl (\<lambda>c b. crc32_bits 8 (c XOR ucast b)) (NOT 0) bs))"

lemma crc32_less: "crc32 bs < 256 ^ 4"
proof -
  have "unat (w :: 32 word) < 2 ^ LENGTH(32)" for w
    by (rule unsigned_less)
  then show ?thesis by (simp add: crc32_def)
qed

section \<open>SHA-256\<close>

text \<open>
  The standard defines the round constants as the first 32 bits of the fractional parts of the cube
  roots of the first 64 primes, and the initial state by the square roots of the first eight.
  \<open>root_bits k p\<close> computes such bits: the largest \<open>r\<close> of 36 bits with
  \<open>r ^ k \<le> p * 2 ^ (32 * k)\<close>, modulo \<open>2 ^ 32\<close>.
\<close>

fun root_search :: "nat \<Rightarrow> nat \<Rightarrow> nat \<Rightarrow> nat \<Rightarrow> nat" where
  "root_search k n 0 r = r"
| "root_search k n (Suc b) r = root_search k n b (if (r + 2 ^ b) ^ k \<le> n then r + 2 ^ b else r)"

definition root_bits :: "nat \<Rightarrow> nat \<Rightarrow> 32 word" where
  "root_bits k p = word_of_nat (root_search k (p * 2 ^ (32 * k)) 36 0)"

definition first_primes :: "nat list" where
  "first_primes =
    [2, 3, 5, 7, 11, 13, 17, 19, 23, 29, 31, 37, 41, 43, 47, 53,
     59, 61, 67, 71, 73, 79, 83, 89, 97, 101, 103, 107, 109, 113, 127, 131,
     137, 139, 149, 151, 157, 163, 167, 173, 179, 181, 191, 193, 197, 199, 211, 223,
     227, 229, 233, 239, 241, 251, 257, 263, 269, 271, 277, 281, 283, 293, 307, 311]"

definition sha256_constants :: "32 word list" where
  "sha256_constants = map (root_bits 3) first_primes"

definition sha256_initial :: "32 word list" where
  "sha256_initial = map (root_bits 2) (take 8 first_primes)"

definition sha256_pad :: "bytes \<Rightarrow> bytes" where
  "sha256_pad m =
     m @ [0x80] @ replicate ((119 - length m mod 64) mod 64) 0 @ be_bytes 8 (8 * length m)"

fun words32 :: "bytes \<Rightarrow> 32 word list" where
  "words32 (a # b # c # d # bs) = word_of_nat (from_be [a, b, c, d]) # words32 bs"
| "words32 _ = []"

fun sha256_schedule :: "nat \<Rightarrow> 32 word list \<Rightarrow> 32 word list" where
  "sha256_schedule 0 w = w"
| "sha256_schedule (Suc n) w =
     (let t = length w;
          x = w ! (t - 15); y = w ! (t - 2);
          s0 = word_rotr 7 x XOR word_rotr 18 x XOR drop_bit 3 x;
          s1 = word_rotr 17 y XOR word_rotr 19 y XOR drop_bit 10 y
      in sha256_schedule n (w @ [w ! (t - 16) + s0 + w ! (t - 7) + s1]))"

fun sha256_round :: "32 word list \<Rightarrow> 32 word \<times> 32 word \<Rightarrow> 32 word list" where
  "sha256_round [a, b, c, d, e, f, g, h] (k, w) =
     (let s1 = word_rotr 6 e XOR word_rotr 11 e XOR word_rotr 25 e;
          ch = (e AND f) XOR (NOT e AND g);
          t1 = h + s1 + ch + k + w;
          s0 = word_rotr 2 a XOR word_rotr 13 a XOR word_rotr 22 a;
          maj = (a AND b) XOR (a AND c) XOR (b AND c)
      in [t1 + s0 + maj, a, b, c, d + t1, e, f, g])"
| "sha256_round st _ = st"

definition sha256_block :: "32 word list \<Rightarrow> bytes \<Rightarrow> 32 word list" where
  "sha256_block st blk =
     map (\<lambda>(x, y). x + y)
       (zip st (foldl sha256_round st (zip sha256_constants (sha256_schedule 48 (words32 blk)))))"

fun sha256_blocks :: "nat \<Rightarrow> bytes \<Rightarrow> 32 word list \<Rightarrow> 32 word list" where
  "sha256_blocks 0 bs st = st"
| "sha256_blocks (Suc n) bs st = sha256_blocks n (drop 64 bs) (sha256_block st (take 64 bs))"

definition sha256 :: "bytes \<Rightarrow> bytes" where
  "sha256 m =
     (let p = sha256_pad m
      in concat (map (\<lambda>w. be_bytes 4 (unat w)) (sha256_blocks (length p div 64) p sha256_initial)))"

text \<open>Every state of the compression function has eight words, so a digest has 32 bytes.\<close>

lemma length_sha256_round: "length st = 8 \<Longrightarrow> length (sha256_round st kw) = 8"
  by (cases "(st, kw)" rule: sha256_round.cases) (auto simp: Let_def)

lemma length_sha256_rounds: "length st = 8 \<Longrightarrow> length (foldl sha256_round st kws) = 8"
  by (induction kws arbitrary: st) (simp_all add: length_sha256_round)

lemma length_sha256_blocks: "length st = 8 \<Longrightarrow> length (sha256_blocks n bs st) = 8"
  by (induction n arbitrary: bs st) (simp_all add: sha256_block_def length_sha256_rounds)

lemma length_sha256 [simp]: "length (sha256 m) = 32"
proof -
  have "length (concat (map (\<lambda>w. be_bytes 4 (unat w)) ws)) = 4 * length ws" for ws :: "32 word list"
    by (induction ws) auto
  then show ?thesis
    by (simp add: sha256_def Let_def length_sha256_blocks sha256_initial_def first_primes_def)
qed

section \<open>HMAC\<close>

definition hmac_sha256 :: "bytes \<Rightarrow> bytes \<Rightarrow> bytes" where
  "hmac_sha256 key msg =
     (let k0 = (if length key > 64 then sha256 key else key);
          k = k0 @ replicate (64 - length k0) 0
      in sha256 (map (\<lambda>b. b XOR 0x5C) k @ sha256 (map (\<lambda>b. b XOR 0x36) k @ msg)))"

section \<open>Checksums\<close>

definition hexdigest :: "bytes \<Rightarrow> string" where
  "hexdigest m = hex_of (sha256 m)"

definition calculate_bytes :: "bytes \<Rightarrow> string" where
  "calculate_bytes m = hexdigest m"

definition checksum_verify :: "string \<Rightarrow> string \<Rightarrow> bool" where
  "checksum_verify expected actual \<longleftrightarrow> lower expected = lower actual"

lemma checksum_verify_refl [simp]: "checksum_verify s s"
  by (simp add: checksum_verify_def)

lemma checksum_verify_hexdigest:
  "checksum_verify (hexdigest a) (hexdigest b) \<longleftrightarrow> sha256 a = sha256 b"
  by (simp add: checksum_verify_def hexdigest_def)

end
