(* ===== verification/Firmware_Image.thy ===== *)
theory Firmware_Image
  imports Digests Versions
begin

text \<open>
  The binary firmware image: \<open>firmware/image_format.py\<close>.

  \<open>build_firmware_image\<close> packs a header of 160 bytes and the payload, \<open>parse_firmware_image\<close>
  unpacks and validates one, \<open>extract_firmware_payload\<close> adds the payload. \<open>struct.pack\<close> and
  \<open>struct.unpack\<close> with the format \<open>>8sBBH16s16s16s16s8sIIIII32s8s16s\<close> are the concatenation of
  the packed fields and \<open>split_fields\<close>. The generator \<open>random.Random(seed).randbytes\<close>, which only
  a specification without payload data uses, is the parameter \<open>randbytes\<close>.

  The lemmas show the round trip and which tampering the parser notices: it does not compare
  the stored digests with the payload, so the payload may be replaced by any other of the same
  length.
\<close>

section \<open>Fields\<close>

definition IMAGE_MAGIC :: bytes where "IMAGE_MAGIC = bytes_of ''VOTAIMG1''"
abbreviation FORMAT_VERSION :: nat where "FORMAT_VERSION \<equiv> 1"
abbreviation HEADER_SIZE :: nat where "HEADER_SIZE \<equiv> 160"

text \<open>\<open>encode("ascii", errors="ignore")\<close> and \<open>decode("ascii", errors="ignore")\<close>.\<close>

definition encode_ascii :: "string \<Rightarrow> bytes" where
  "encode_ascii s = filter (\<lambda>b. unat b < 128) (bytes_of s)"

definition decode_ascii :: "bytes \<Rightarrow> string" where
  "decode_ascii bs = string_of (filter (\<lambda>b. unat b < 128) bs)"

definition pad_text :: "string \<Rightarrow> nat \<Rightarrow> bytes" where
  "pad_text value width =
     (let data = encode_ascii value in
      if length data > width then take width data
      else data @ replicate (width - length data) 0)"

definition unpad_text :: "bytes \<Rightarrow> string" where
  "unpad_text value = decode_ascii (rstrip 0 value)"

definition looks_like_firmware_image :: "bytes \<Rightarrow> bool" where
  "looks_like_firmware_image image_bytes \<longleftrightarrow>
     length IMAGE_MAGIC \<le> length image_bytes \<and> take (length IMAGE_MAGIC) image_bytes = IMAGE_MAGIC"

text \<open>Splitting a byte string into fields of given sizes, as \<open>struct.unpack\<close> does.\<close>

fun split_fields :: "nat list \<Rightarrow> bytes \<Rightarrow> bytes list" where
  "split_fields [] bs = []"
| "split_fields (n # ns) bs = take n bs # split_fields ns (drop n bs)"

definition header_sizes :: "nat list" where
  "header_sizes = [8, 1, 1, 2, 16, 16, 16, 16, 8, 4, 4, 4, 4, 4, 32, 8, 16]"

section \<open>Images\<close>

record image_spec =
  spec_ecu_name :: string
  spec_ecu_id :: nat
  spec_part_number :: string
  spec_current_version :: string
  spec_target_version :: string
  spec_build_date :: string
  spec_build_number :: nat
  spec_flash_address :: nat
  spec_payload_size :: nat
  spec_image_format :: string
  spec_payload_data :: "bytes option"

record image_metadata =
  img_ecu_name :: string
  img_ecu_id :: nat
  img_part_number :: string
  img_current_version :: string
  img_target_version :: string
  img_build_date :: string
  img_build_number :: nat
  img_flash_address :: nat
  img_payload_size :: nat
  img_image_size :: nat
  img_crc32 :: nat
  img_payload_sha256 :: string
  img_image_format :: string

definition spec_payload :: "(string \<Rightarrow> nat \<Rightarrow> bytes) \<Rightarrow> image_spec \<Rightarrow> bytes result" where
  "spec_payload randbytes spec =
     (case spec_payload_data spec of
        Some payload \<Rightarrow>
          if spec_payload_size spec \<noteq> length payload then Inl (ValueError ''payload_size mismatch'')
          else Inr payload
      | None \<Rightarrow>
          Inr (randbytes (spec_ecu_name spec @ ''|'' @ spec_target_version spec @ ''|'' @
                          show_nat (spec_build_number spec))
                 (spec_payload_size spec)))"

definition build_firmware_image :: "(string \<Rightarrow> nat \<Rightarrow> bytes) \<Rightarrow> image_spec \<Rightarrow> bytes result" where
  "build_firmware_image randbytes spec =
     bindE (spec_payload randbytes spec) (\<lambda>payload.
     bindE (pack_be 4 (spec_build_number spec)) (\<lambda>build_number.
     bindE (pack_be 4 (spec_flash_address spec)) (\<lambda>flash_address.
     bindE (pack_be 4 (length payload)) (\<lambda>payload_size.
     bindE (pack_be 4 (HEADER_SIZE + length payload)) (\<lambda>image_size.
       Inr (concat
         [IMAGE_MAGIC,
          [word_of_nat FORMAT_VERSION],
          [word_of_nat (spec_ecu_id spec) AND 0xFF],
          be_bytes 2 HEADER_SIZE,
          pad_text (spec_ecu_name spec) 16,
          pad_text (spec_part_number spec) 16,
          pad_text (spec_current_version spec) 16,
          pad_text (spec_target_version spec) 16,
          pad_text (spec_build_date spec) 8,
          build_number, flash_address, payload_size, image_size,
          be_bytes 4 (crc32 payload),
          sha256 payload,
          pad_text (spec_image_format spec) 8,
          replicate 16 0] @ payload))))))"

definition parse_firmware_image :: "bytes \<Rightarrow> image_metadata result" where
  "parse_firmware_image image_bytes =
     (if length image_bytes < HEADER_SIZE
      then Inl (ValueError ''Firmware image too small to contain a header'')
      else
        let h = split_fields header_sizes (take HEADER_SIZE image_bytes);
            payload_size = from_be (h ! 11);
            payload = take payload_size (drop HEADER_SIZE image_bytes);
            stored_crc32 = from_be (h ! 13);
            calculated_crc32 = crc32 payload
        in if h ! 0 \<noteq> IMAGE_MAGIC then Inl (ValueError ''Invalid firmware image magic'')
           else if from_be (h ! 1) \<noteq> FORMAT_VERSION
           then Inl (ValueError ''Unsupported firmware image version'')
           else if from_be (h ! 3) \<noteq> HEADER_SIZE then Inl (ValueError ''Unexpected header width'')
           else if length payload \<noteq> payload_size
           then Inl (ValueError ''Firmware image payload truncated'')
           else Inr
             \<lparr>img_ecu_name = unpad_text (h ! 4), img_ecu_id = from_be (h ! 2),
              img_part_number = unpad_text (h ! 5), img_current_version = unpad_text (h ! 6),
              img_target_version = unpad_text (h ! 7), img_build_date = unpad_text (h ! 8),
              img_build_number = from_be (h ! 9), img_flash_address = from_be (h ! 10),
              img_payload_size = payload_size, img_image_size = from_be (h ! 12),
              img_crc32 = (if stored_crc32 = calculated_crc32 then stored_crc32
                           else calculated_crc32),
              img_payload_sha256 = hexdigest payload,
              img_image_format = unpad_text (h ! 15)\<rparr>)"

definition extract_firmware_payload :: "bytes \<Rightarrow> (image_metadata \<times> bytes) result" where
  "extract_firmware_payload image_bytes =
     bindE (parse_firmware_image image_bytes)
       (\<lambda>m. Inr (m, take (img_payload_size m) (drop HEADER_SIZE image_bytes)))"

section \<open>Text fields\<close>

text \<open>A text a field of the given size holds: ASCII, not longer, no trailing NUL.\<close>

definition field_text :: "string \<Rightarrow> nat \<Rightarrow> bool" where
  "field_text s width \<longleftrightarrow>
     (\<forall>c \<in> set s. (of_char c :: nat) < 128) \<and> length s \<le> width \<and> (s = [] \<or> last s \<noteq> CHR 0x00)"

lemma encode_ascii_length: "length (encode_ascii s) \<le> length s"
  by (simp add: encode_ascii_def) (metis length_bytes_of length_filter_le)

lemma length_pad_text [simp]: "length (pad_text s width) = width"
  by (simp add: pad_text_def Let_def)

lemma encode_ascii_id: "(\<forall>c \<in> set s. (of_char c :: nat) < 128) \<Longrightarrow> encode_ascii s = bytes_of s"
  by (auto simp: encode_ascii_def bytes_of_def)

lemma bytes_of_eq_0: "(word_of_nat (of_char c) :: byte) = 0 \<longleftrightarrow> c = CHR 0x00"
proof
  assume "(word_of_nat (of_char c) :: byte) = 0"
  then have "(of_char c :: nat) = unat (0 :: byte)"
    using unat_word_of_nat_of_char [of c] by (simp only:)
  then have "(of_char c :: nat) = of_char (CHR 0x00)"
    by (simp only: unsigned_0) simp
  then show "c = CHR 0x00" by (simp only: of_char_eq_iff)
qed simp

lemma unpad_pad_text:
  assumes "field_text s width"
  shows "unpad_text (pad_text s width) = s"
proof -
  have ascii: "\<forall>c \<in> set s. (of_char c :: nat) < 128" and "length s \<le> width"
    using assms by (auto simp: field_text_def)
  then have pad: "pad_text s width = bytes_of s @ replicate (width - length s) 0"
    by (simp add: pad_text_def encode_ascii_id Let_def)
  have "rstrip 0 (bytes_of s) = bytes_of s"
    using assms by (intro rstrip_id)
      (auto simp: field_text_def bytes_of_def last_map bytes_of_eq_0)
  then have "rstrip 0 (pad_text s width) = bytes_of s"
    by (simp add: pad rstrip_append_replicate)
  moreover have "filter (\<lambda>b. unat b < 128) (bytes_of s) = bytes_of s"
    using encode_ascii_id [OF ascii] by (simp add: encode_ascii_def)
  ultimately show ?thesis by (simp add: unpad_text_def decode_ascii_def)
qed

section \<open>The round trip\<close>

lemma split_fields_concat:
  "map length fs = ns \<Longrightarrow> split_fields ns (concat fs) = fs"
  by (induction ns arbitrary: fs) (auto simp: Cons_eq_map_conv)

lemma build_firmware_image_Inr_iff:
  "build_firmware_image randbytes spec = Inr img \<longleftrightarrow>
     (\<exists>p. spec_payload randbytes spec = Inr p \<and>
       spec_build_number spec < 256 ^ 4 \<and> spec_flash_address spec < 256 ^ 4 \<and>
       HEADER_SIZE + length p < 256 ^ 4 \<and>
       img = concat
         [IMAGE_MAGIC, [1], [word_of_nat (spec_ecu_id spec)], be_bytes 2 160,
          pad_text (spec_ecu_name spec) 16, pad_text (spec_part_number spec) 16,
          pad_text (spec_current_version spec) 16, pad_text (spec_target_version spec) 16,
          pad_text (spec_build_date spec) 8, be_bytes 4 (spec_build_number spec),
          be_bytes 4 (spec_flash_address spec), be_bytes 4 (length p), be_bytes 4 (160 + length p),
          be_bytes 4 (crc32 p), sha256 p, pad_text (spec_image_format spec) 8,
          replicate 16 0] @ p)"
  by (auto simp: build_firmware_image_def bindE_Inr_iff pack_be_Inr_iff)

definition spec_texts_fit :: "image_spec \<Rightarrow> bool" where
  "spec_texts_fit spec \<longleftrightarrow>
     field_text (spec_ecu_name spec) 16 \<and> field_text (spec_part_number spec) 16 \<and>
     field_text (spec_current_version spec) 16 \<and> field_text (spec_target_version spec) 16 \<and>
     field_text (spec_build_date spec) 8 \<and> field_text (spec_image_format spec) 8"

definition spec_metadata :: "image_spec \<Rightarrow> bytes \<Rightarrow> image_metadata" where
  "spec_metadata spec p =
     \<lparr>img_ecu_name = spec_ecu_name spec, img_ecu_id = spec_ecu_id spec mod 256,
      img_part_number = spec_part_number spec, img_current_version = spec_current_version spec,
      img_target_version = spec_target_version spec, img_build_date = spec_build_date spec,
      img_build_number = spec_build_number spec, img_flash_address = spec_flash_address spec,
      img_payload_size = length p, img_image_size = HEADER_SIZE + length p,
      img_crc32 = crc32 p, img_payload_sha256 = hexdigest p,
      img_image_format = spec_image_format spec\<rparr>"

lemma length_IMAGE_MAGIC [simp]: "length IMAGE_MAGIC = 8"
  by (simp add: IMAGE_MAGIC_def)

lemma from_be_single [simp]: "from_be [b] = unat b"
  by (simp add: from_be_def)

lemma parse_fields:
  assumes "map length fs = header_sizes" and "fs ! 0 = IMAGE_MAGIC" and "from_be (fs ! 1) = 1"
    and "from_be (fs ! 3) = 160" and "from_be (fs ! 11) = length p"
  shows "parse_firmware_image (concat fs @ p) = Inr
     \<lparr>img_ecu_name = unpad_text (fs ! 4), img_ecu_id = from_be (fs ! 2),
      img_part_number = unpad_text (fs ! 5), img_current_version = unpad_text (fs ! 6),
      img_target_version = unpad_text (fs ! 7), img_build_date = unpad_text (fs ! 8),
      img_build_number = from_be (fs ! 9), img_flash_address = from_be (fs ! 10),
      img_payload_size = length p, img_image_size = from_be (fs ! 12),
      img_crc32 = crc32 p, img_payload_sha256 = hexdigest p,
      img_image_format = unpad_text (fs ! 15)\<rparr>"
proof -
  have len: "length (concat fs) = 160"
    using assms(1) by (simp add: length_concat header_sizes_def)
  have split: "split_fields header_sizes (concat fs) = fs"
    using assms(1) by (rule split_fields_concat)
  show ?thesis
    using assms by (simp add: parse_firmware_image_def len split Let_def)
qed

lemma parse_build_firmware_image:
  assumes "build_firmware_image randbytes spec = Inr img" and "spec_texts_fit spec"
    and "spec_payload randbytes spec = Inr p"
  shows "parse_firmware_image img = Inr (spec_metadata spec p)"
proof -
  let ?fs = "[IMAGE_MAGIC, [1], [word_of_nat (spec_ecu_id spec)], be_bytes 2 160,
          pad_text (spec_ecu_name spec) 16, pad_text (spec_part_number spec) 16,
          pad_text (spec_current_version spec) 16, pad_text (spec_target_version spec) 16,
          pad_text (spec_build_date spec) 8, be_bytes 4 (spec_build_number spec),
          be_bytes 4 (spec_flash_address spec), be_bytes 4 (length p), be_bytes 4 (160 + length p),
          be_bytes 4 (crc32 p), sha256 p, pad_text (spec_image_format spec) 8,
          replicate 16 0]"
  have img: "img = concat ?fs @ p" and bounds: "spec_build_number spec < 256 ^ 4"
    "spec_flash_address spec < 256 ^ 4" "160 + length p < 256 ^ 4"
    using assms(1,3) by (auto simp only: build_firmware_image_Inr_iff sum.inject)
  have "map length ?fs = header_sizes"
    by (simp add: header_sizes_def)
  moreover have "from_be (be_bytes 4 (length p)) = length p" and "from_be (be_bytes 2 160) = 160"
    and "from_be (be_bytes 4 (160 + length p)) = 160 + length p"
    and "from_be (be_bytes 4 (spec_build_number spec)) = spec_build_number spec"
    and "from_be (be_bytes 4 (spec_flash_address spec)) = spec_flash_address spec"
    using bounds by (simp_all add: from_be_be_bytes)
  ultimately show ?thesis
    using assms(2) unfolding img
    by (subst parse_fields) (simp_all add: spec_metadata_def spec_texts_fit_def unpad_pad_text)
qed

lemma extract_Inr_iff:
  "extract_firmware_payload img = Inr (m, p) \<longleftrightarrow>
     parse_firmware_image img = Inr m \<and> p = take (img_payload_size m) (drop HEADER_SIZE img)"
  by (auto simp: extract_firmware_payload_def bindE_Inr_iff)

text \<open>What a successful extraction says about the payload, for any image.\<close>

lemma extract_payload_facts:
  assumes "extract_firmware_payload img = Inr (m, p)"
  shows "length p = img_payload_size m" and "img_payload_sha256 m = hexdigest p"
    and "img_crc32 m = crc32 p"
  using assms
  by (auto simp: extract_Inr_iff parse_firmware_image_def Let_def split: if_splits)

lemma build_payload:
  assumes "build_firmware_image randbytes spec = Inr img" and "spec_payload randbytes spec = Inr p"
  shows "length img = HEADER_SIZE + length p" and "drop HEADER_SIZE img = p"
  using assms by (auto simp: build_firmware_image_Inr_iff)

text \<open>A payload of the same length may replace the one the header was built for.\<close>

lemma parse_other_payload:
  assumes "parse_firmware_image (h @ p) = Inr m" and "length h = HEADER_SIZE"
    and "length q = img_payload_size m"
  shows "parse_firmware_image (h @ q) = Inr (m\<lparr>img_crc32 := crc32 q, img_payload_sha256 := hexdigest q\<rparr>)"
  using assms by (auto simp: parse_firmware_image_def Let_def split: if_splits)

section \<open>A concrete image\<close>

definition demo_spec :: image_spec where
  "demo_spec =
     \<lparr>spec_ecu_name = ''BCM'', spec_ecu_id = 2, spec_part_number = ''BCM-001'',
      spec_current_version = ''1.0.0'', spec_target_version = ''2.0.0'',
      spec_build_date = ''20250101'', spec_build_number = 7, spec_flash_address = 0x08000000,
      spec_payload_size = 3, spec_image_format = ''RAW'', spec_payload_data = Some [1, 2, 3]\<rparr>"

definition demo_image :: bytes where
  "demo_image = projr (build_firmware_image (\<lambda>_ n. replicate n 0) demo_spec)"

lemma demo_spec_payload: "spec_payload r demo_spec = Inr [1, 2, 3]"
  by (simp add: spec_payload_def demo_spec_def)

lemma demo_texts_fit: "spec_texts_fit demo_spec"
  by (simp add: spec_texts_fit_def field_text_def demo_spec_def)

lemma demo_image_built: "build_firmware_image (\<lambda>_ n. replicate n 0) demo_spec = Inr demo_image"
proof -
  have "\<exists>img. build_firmware_image (\<lambda>_ n. replicate n 0) demo_spec = Inr img"
    by (simp add: build_firmware_image_Inr_iff demo_spec_payload) (simp add: demo_spec_def)
  then show ?thesis by (auto simp: demo_image_def)
qed

lemma demo_extract: "extract_firmware_payload demo_image = Inr (spec_metadata demo_spec [1, 2, 3], [1, 2, 3])"
  using parse_build_firmware_image [OF demo_image_built demo_texts_fit demo_spec_payload]
    build_payload [OF demo_image_built demo_spec_payload]
  by (simp add: extract_Inr_iff spec_metadata_def)

section \<open>Round trip and integrity\<close>

text \<open>C14: What \<open>extract_firmware_payload\<close> reads from an image that \<open>build_firmware_image\<close>
  wrote is the payload, whole, and the metadata of the spec, for every spec whose texts fit their
  header fields.\<close>

theorem image_roundtrip:
  assumes "build_firmware_image randbytes spec = Inr img" and "spec_payload randbytes spec = Inr p"
    and "spec_texts_fit spec"
  shows "extract_firmware_payload img = Inr (spec_metadata spec p, p)"
  using parse_build_firmware_image [OF assms(1,3,2)] build_payload [OF assms(1,2)]
  by (simp add: extract_Inr_iff spec_metadata_def)

theorem image_roundtrip_witness:
  "extract_firmware_payload demo_image = Inr (spec_metadata demo_spec [1, 2, 3], [1, 2, 3])"
  by (rule image_roundtrip [OF demo_image_built demo_spec_payload demo_texts_fit])

text \<open>C40: The CRC-32 and SHA-256 fields of the header protect nothing: an image whose payload is
  replaced by any other bytes of the same length still extracts, with the digests of the
  replacement reported as if the header had vouched for them.\<close>

theorem tampered_payload_extracts:
  assumes "extract_firmware_payload (h @ p) = Inr (m, p)" and "length h = HEADER_SIZE"
    and "length q = length p"
  shows "extract_firmware_payload (h @ q) =
           Inr (m\<lparr>img_crc32 := crc32 q, img_payload_sha256 := hexdigest q\<rparr>, q)"
proof -
  have "parse_firmware_image (h @ p) = Inr m" and "length p = img_payload_size m"
    using assms(1) extract_payload_facts(1) [OF assms(1)] by (simp_all add: extract_Inr_iff)
  then show ?thesis
    using parse_other_payload [of h p m q] assms(2,3) by (simp add: extract_Inr_iff)
qed

theorem tampered_payload_extracts_witness:
  "extract_firmware_payload (take HEADER_SIZE demo_image @ [9, 9, 9]) =
     Inr ((spec_metadata demo_spec [1, 2, 3])
            \<lparr>img_crc32 := crc32 [9, 9, 9], img_payload_sha256 := hexdigest [9, 9, 9]\<rparr>, [9, 9, 9])"
proof (rule tampered_payload_extracts [where p = "[1, 2, 3]"])
  have "drop HEADER_SIZE demo_image = [1, 2, 3]"
    by (rule build_payload(2) [OF demo_image_built demo_spec_payload])
  then show "extract_firmware_payload (take HEADER_SIZE demo_image @ [1, 2, 3]) =
      Inr (spec_metadata demo_spec [1, 2, 3], [1, 2, 3])"
    using append_take_drop_id [of HEADER_SIZE demo_image] demo_extract by simp
qed (use build_payload(1) [OF demo_image_built demo_spec_payload] in simp_all)

end
