(* ===== verification/Flash_Memory.thy ===== *)
theory Flash_Memory
  imports Digests
begin

text \<open>
  The flash emulator of one ECU slot: \<open>ecus/base/flash_memory.py\<close>.

  \<open>flash_config\<close> holds the constructor arguments of \<open>FlashMemoryEmulator\<close>, \<open>slot_dir\<close> the files
  of the slot directory (\<open>None\<close> is a file that does not exist). Operations that write are
  \<open>slot_dir op\<close>: a failed operation keeps the pages it has already written. The lemmas show NOR
  semantics (programming only clears bits, and fails where it would set one), that programming
  an erased region reads back, and that nothing outside the addressed range changes.
\<close>

section \<open>State\<close>

abbreviation ERASED_BYTE :: byte where "ERASED_BYTE \<equiv> 0xFF"
abbreviation PAGE_SIZE :: nat where "PAGE_SIZE \<equiv> 256"
abbreviation SECTOR_SIZE :: nat where "SECTOR_SIZE \<equiv> 4096"

record flash_config =
  base_address :: nat
  partition_size :: nat
  page_size :: nat
  sector_size :: nat

record slot_dir =
  flash_file :: "bytes option"
  layout_file :: "jdict option"
  journal_file :: "jdict option"
  control_block_file :: "jdict option"
  slot_files :: "string \<Rightarrow> bytes option"

text \<open>Writing \<open>d\<close> at an offset of a file, which pads a gap with zero bytes.\<close>

definition write_at :: "nat \<Rightarrow> bytes \<Rightarrow> bytes \<Rightarrow> bytes" where
  "write_at off d f =
     (if d = [] then f
      else take off (f @ replicate (off - length f) 0) @ d @ drop (off + length d) f)"

section \<open>Journal and control block\<close>

definition update_journal :: "flash_config \<Rightarrow> string \<Rightarrow> (string \<times> jval) list \<Rightarrow> slot_dir \<Rightarrow> slot_dir" where
  "update_journal fl state extra d =
     d\<lparr>journal_file := Some (jupdate
         [''state'' \<mapsto> JText state, ''base_address'' \<mapsto> JHex (base_address fl),
          ''partition_size'' \<mapsto> JNum (partition_size fl)] extra)\<rparr>"

definition load_journal :: "slot_dir \<Rightarrow> jdict" where
  "load_journal d = (case journal_file d of None \<Rightarrow> Map.empty | Some j \<Rightarrow> j)"

definition read_control_block :: "slot_dir \<Rightarrow> jdict" where
  "read_control_block d = (case control_block_file d of None \<Rightarrow> Map.empty | Some c \<Rightarrow> c)"

definition write_control_block :: "flash_config \<Rightarrow> (string \<times> jval) list \<Rightarrow> slot_dir \<Rightarrow> slot_dir" where
  "write_control_block fl updates d =
     (let control = jupdate (read_control_block d) updates;
          control = setdefault ''base_address'' (JHex (base_address fl)) control;
          control = setdefault ''partition_size'' (JNum (partition_size fl)) control
      in d\<lparr>control_block_file := Some control\<rparr>)"

definition load_layout :: "slot_dir \<Rightarrow> jdict" where
  "load_layout d = (case layout_file d of None \<Rightarrow> Map.empty | Some l \<Rightarrow> l)"

definition save_layout :: "jdict \<Rightarrow> slot_dir \<Rightarrow> slot_dir" where
  "save_layout l d = d\<lparr>layout_file := Some l\<rparr>"

section \<open>Operations\<close>

definition flash_initialize :: "flash_config \<Rightarrow> slot_dir op" where
  "flash_initialize fl d =
     (let d = d\<lparr>flash_file := Some (replicate (partition_size fl) ERASED_BYTE)\<rparr>;
          d = save_layout
            [''base_address'' \<mapsto> JHex (base_address fl),
             ''partition_size'' \<mapsto> JNum (partition_size fl), ''page_size'' \<mapsto> JNum (page_size fl),
             ''sector_size'' \<mapsto> JNum (sector_size fl), ''last_programmed_address'' \<mapsto> JText [],
             ''last_programmed_size'' \<mapsto> JNum 0, ''last_chunk_sha256'' \<mapsto> JText [],
             ''payload_sha256'' \<mapsto> JText []] d;
          d = update_journal fl ''INITIALIZED'' [] d
      in (None, write_control_block fl
            [(''bootable'', JBool False), (''confirmed'', JBool False), (''active'', JBool False),
             (''rollback_reason'', JText [])] d))"

definition flash_offset :: "flash_config \<Rightarrow> nat \<Rightarrow> nat result" where
  "flash_offset fl address =
     (if address < base_address fl
      then Inl (ValueError ''Flash address precedes emulated base address'')
      else Inr (address - base_address fl))"

definition erase_region :: "flash_config \<Rightarrow> nat \<Rightarrow> nat \<Rightarrow> slot_dir op" where
  "erase_region fl address len d =
     (case bindE (flash_offset fl address) (\<lambda>s. bindE (flash_offset fl (address + len)) (\<lambda>e. Inr (s, e))) of
        Inl err \<Rightarrow> (Some err, d)
      | Inr (start_offset, end_offset) \<Rightarrow>
          let erase_start = start_offset div sector_size fl * sector_size fl;
              erase_end = (end_offset + sector_size fl - 1) div sector_size fl * sector_size fl;
              erase_end = min (partition_size fl) erase_end
          in (case flash_file d of
                None \<Rightarrow> (Some (FileNotFoundError ''flash_memory.bin''), d)
              | Some f \<Rightarrow>
                  (None, update_journal fl ''ERASED''
                     [(''erase_start'', JHex address), (''erase_size'', JNum len)]
                     (d\<lparr>flash_file :=
                        Some (write_at erase_start (replicate (erase_end - erase_start) ERASED_BYTE) f)\<rparr>))))"

text \<open>
  One page of \<open>program\<close>: it reads the bytes the page would replace and refuses to turn a cleared
  bit on. Beyond the end of the file there is nothing to read, so nothing is written there.
\<close>

definition program_page :: "nat \<Rightarrow> bytes \<Rightarrow> bytes \<Rightarrow> bytes result" where
  "program_page off chunk f =
     (let pairs = zip (take (length chunk) (drop off f)) chunk in
      if \<exists>(current, new_value) \<in> set pairs. current OR new_value \<noteq> current
      then Inl (ValueError ''Flash programming attempted to set erased bits back to 1'')
      else Inr (write_at off (map (\<lambda>(current, new_value). current AND new_value) pairs) f))"

function program_pages :: "nat \<Rightarrow> nat \<Rightarrow> bytes \<Rightarrow> bytes \<Rightarrow> py_error option \<times> bytes" where
  "program_pages page off payload f =
     (if page = 0 then (Some (ValueError ''range() arg 3 must not be zero''), f)
      else if payload = [] then (None, f)
      else case program_page off (take page payload) f of
             Inl e \<Rightarrow> (Some e, f)
           | Inr f' \<Rightarrow> program_pages page (off + page) (drop page payload) f')"
  by pat_completeness auto
termination
  by (relation "measure (\<lambda>(_, _, p, _). length p)") auto

declare program_pages.simps [simp del]

definition flash_program :: "flash_config \<Rightarrow> nat \<Rightarrow> bytes \<Rightarrow> slot_dir op" where
  "flash_program fl address payload d =
     (case flash_offset fl address of
        Inl e \<Rightarrow> (Some e, d)
      | Inr start_offset \<Rightarrow>
          if start_offset + length payload > partition_size fl
          then (Some (ValueError ''Flash write exceeds partition size''), d)
          else case flash_file d of
            None \<Rightarrow> (Some (FileNotFoundError ''flash_memory.bin''), d)
          | Some f \<Rightarrow>
              (case program_pages (page_size fl) start_offset payload f of
                 (Some e, f') \<Rightarrow> (Some e, d\<lparr>flash_file := Some f'\<rparr>)
               | (None, f') \<Rightarrow>
                   let d = d\<lparr>flash_file := Some f'\<rparr>;
                       digest = JText (hexdigest payload);
                       layout = (load_layout d)(''last_programmed_address'' \<mapsto> JHex address,
                         ''last_programmed_size'' \<mapsto> JNum (length payload),
                         ''last_chunk_sha256'' \<mapsto> digest);
                       d = save_layout layout d
                   in (None, update_journal fl ''PROGRAMMED''
                         [(''program_address'', JHex address),
                          (''program_size'', JNum (length payload)),
                          (''last_chunk_sha256'', digest)] d)))"

definition flash_read :: "flash_config \<Rightarrow> nat \<Rightarrow> nat \<Rightarrow> slot_dir \<Rightarrow> bytes result" where
  "flash_read fl address len d =
     bindE (flash_offset fl address) (\<lambda>off.
       if off + len > partition_size fl
       then Inl (ValueError ''Flash read exceeds partition size'')
       else case flash_file d of
         None \<Rightarrow> Inl (FileNotFoundError ''flash_memory.bin'')
       | Some f \<Rightarrow> Inr (take len (drop off f)))"

definition flash_verify :: "flash_config \<Rightarrow> nat \<Rightarrow> bytes \<Rightarrow> slot_dir \<Rightarrow> bool result" where
  "flash_verify fl address payload d =
     bindE (flash_read fl address (length payload) d) (\<lambda>r. Inr (r = payload))"

definition flash_sha256 :: "flash_config \<Rightarrow> nat \<Rightarrow> nat \<Rightarrow> slot_dir \<Rightarrow> string result" where
  "flash_sha256 fl address len d =
     bindE (flash_read fl address len d) (\<lambda>r. Inr (hexdigest r))"

definition record_payload_metadata :: "flash_config \<Rightarrow> nat \<Rightarrow> bytes \<Rightarrow> slot_dir \<Rightarrow> slot_dir" where
  "record_payload_metadata fl address payload d =
     save_layout ((load_layout d)(''payload_sha256'' \<mapsto> JText (hexdigest payload),
       ''payload_size'' \<mapsto> JNum (length payload), ''payload_address'' \<mapsto> JHex address)) d"

section \<open>Pages\<close>

lemma write_at_inside:
  "off + length d \<le> length f \<Longrightarrow> write_at off d f = take off f @ d @ drop (off + length d) f"
  by (auto simp: write_at_def)

lemma length_write_at [simp]: "off + length d \<le> length f \<Longrightarrow> length (write_at off d f) = length f"
  by (simp add: write_at_inside)

lemma nth_write_at:
  "off + length d \<le> length f \<Longrightarrow> i < length f \<Longrightarrow>
   write_at off d f ! i = (if off \<le> i \<and> i < off + length d then d ! (i - off) else f ! i)"
  by (auto simp: write_at_inside nth_append)

text \<open>Bits only go from 1 to 0.\<close>

definition only_clears :: "bytes \<Rightarrow> bytes \<Rightarrow> bool" where
  "only_clears f g \<longleftrightarrow> length g = length f \<and> (\<forall>i < length f. g ! i AND f ! i = g ! i)"

lemma only_clears_refl [simp]: "only_clears f f"
  by (simp add: only_clears_def)

lemma only_clears_trans:
  assumes fg: "only_clears f g" and gh: "only_clears g h"
  shows "only_clears f h"
  unfolding only_clears_def
proof (intro conjI allI impI)
  show "length h = length f" using fg gh by (simp add: only_clears_def)
  fix i assume "i < length f"
  then have "g ! i AND f ! i = g ! i" and "h ! i AND g ! i = h ! i"
    using fg gh by (auto simp: only_clears_def)
  then show "h ! i AND f ! i = h ! i" by (metis and.assoc)
qed

lemma program_page_clears:
  assumes "program_page off chunk f = Inr f'"
  shows "only_clears f f'"
proof -
  let ?c = "take (length chunk) (drop off f)"
  let ?d = "map (\<lambda>(current, new_value). current AND new_value) (zip ?c chunk)"
  have f': "f' = write_at off ?d f"
    using assms by (auto simp: program_page_def Let_def split: if_splits)
  have len: "length ?d = min (length chunk) (length f - off)"
    by simp
  show ?thesis
  proof (cases "off \<le> length f")
    case True
    then have fit: "off + length ?d \<le> length f" unfolding len by simp
    have "?d ! (i - off) AND f ! i = ?d ! (i - off)" if "off \<le> i" "i < off + length ?d" for i
    proof -
      from that have "i - off < length (zip ?c chunk)" and "i < length f" using len by auto
      then show ?thesis using \<open>off \<le> i\<close> by (simp add: and.assoc and.commute and.left_commute)
    qed
    then show ?thesis
      unfolding only_clears_def f' using fit by (simp add: nth_write_at del: length_map)
  next
    case False
    then have "f' = f" by (simp add: f' write_at_def)
    then show ?thesis by simp
  qed
qed

lemma program_pages_clears: "only_clears f (snd (program_pages page off p f))"
proof (induction page off p f rule: program_pages.induct)
  case (1 page off p f)
  show ?case
  proof (cases "page = 0 \<or> p = []")
    case True
    then show ?thesis by (auto simp: program_pages.simps [of page off p f])
  next
    case False
    then show ?thesis
    proof (cases "program_page off (take page p) f")
      case (Inl e)
      with False show ?thesis by (simp add: program_pages.simps [of page off p f])
    next
      case (Inr f')
      have "only_clears f' (snd (program_pages page (off + page) (drop page p) f'))"
        using "1.IH" False Inr by blast
      with program_page_clears [OF Inr] have
        "only_clears f (snd (program_pages page (off + page) (drop page p) f'))"
        by (rule only_clears_trans)
      then show ?thesis using False Inr by (simp add: program_pages.simps [of page off p f])
    qed
  qed
qed

text \<open>A region all of whose bytes are erased.\<close>

definition erased :: "nat \<Rightarrow> nat \<Rightarrow> bytes \<Rightarrow> bool" where
  "erased off n f \<longleftrightarrow> off + n \<le> length f \<and> take n (drop off f) = replicate n ERASED_BYTE"

lemma byte_FF: "(0xFF :: byte) = - 1"
  by simp

lemma erased_byte_simps: "0xFF OR x = (0xFF :: byte)" "0xFF AND x = (x :: byte)"
  unfolding byte_FF by simp_all

lemma erased_prefix:
  assumes "erased off n f" and "m \<le> n"
  shows "erased off m f"
proof -
  have "take m (drop off f) = take m (take n (drop off f))"
    using assms(2) by (simp add: min.absorb1)
  also have "\<dots> = replicate m ERASED_BYTE"
    using assms by (simp add: erased_def min.absorb1 del: take_take)
  finally show ?thesis using assms by (simp add: erased_def)
qed

lemma zip_replicate_map: "length xs = n \<Longrightarrow> zip (replicate n a) xs = map (Pair a) xs"
  by (induction xs arbitrary: n) auto

lemma program_page_erased:
  assumes "erased off (length chunk) f"
  shows "program_page off chunk f = Inr (take off f @ chunk @ drop (off + length chunk) f)"
  using assms
  by (simp add: program_page_def erased_def zip_replicate_map write_at_inside comp_def
      erased_byte_simps)

lemma erased_suffix:
  assumes "erased off (length p) f" and "c = take n p"
  shows "erased (off + length c) (length p - length c) (take off f @ c @ drop (off + length c) f)"
proof -
  have "length c \<le> length p" using assms(2) by simp
  have len: "off + length p \<le> length f" and e: "take (length p) (drop off f) = replicate (length p) ERASED_BYTE"
    using assms(1) by (auto simp: erased_def)
  have "take (length p - length c) (drop (length c) (drop off f)) = drop (length c) (take (length p) (drop off f))"
    by (simp add: drop_take)
  also have "\<dots> = replicate (length p - length c) ERASED_BYTE"
    by (simp only: e drop_replicate)
  finally show ?thesis
    using len \<open>length c \<le> length p\<close> by (simp add: erased_def add.commute)
qed

lemma program_pages_erased:
  "0 < page \<Longrightarrow> erased off (length p) f \<Longrightarrow>
     program_pages page off p f = (None, take off f @ p @ drop (off + length p) f)"
proof (induction page off p f rule: program_pages.induct)
  case (1 page off p f)
  show ?case
  proof (cases "p = []")
    case True
    with 1 show ?thesis by (simp add: program_pages.simps)
  next
    case False
    let ?c = "take page p"
    let ?f' = "take off f @ ?c @ drop (off + length ?c) f"
    have "erased off (length ?c) f"
      using "1.prems"(2) by (rule erased_prefix) simp
    then have page: "program_page off ?c f = Inr ?f'"
      by (rule program_page_erased)
    have len: "off + length p \<le> length f" using "1.prems"(2) by (simp add: erased_def)
    show ?thesis
    proof (cases "length p \<le> page")
      case True
      then have "program_pages page off p f = program_pages page (off + page) [] ?f'"
        using False page "1.prems"(1) by (simp add: program_pages.simps [of page off p f])
      then show ?thesis
        using True "1.prems"(1) by (simp add: program_pages.simps)
    next
      case long: False
      then have c: "length ?c = page" by simp
      have "erased (off + page) (length (drop page p)) ?f'"
        using erased_suffix [OF "1.prems"(2) refl, of page] long by (simp add: min.absorb2)
      then have "program_pages page (off + page) (drop page p) ?f' =
          (None, take (off + page) ?f' @ drop page p @ drop (off + page + length (drop page p)) ?f')"
        using "1.IH" [OF _ False page] "1.prems"(1) by simp
      also have "take (off + page) ?f' = take off f @ ?c"
        using c len by simp
      also have "drop (off + page + length (drop page p)) ?f' = drop (off + length p) f"
        using c len long by (simp add: add.commute)
      finally show ?thesis
        using False page "1.prems"(1) by (simp add: program_pages.simps [of page off p f])
    qed
  qed
qed

section \<open>The operations on a slot\<close>

text \<open>The files an operation does not write.\<close>

lemma journal_frame [simp, frame_simps]:
  "flash_file (update_journal fl st x d) = flash_file d"
  "layout_file (update_journal fl st x d) = layout_file d"
  "control_block_file (update_journal fl st x d) = control_block_file d"
  "slot_files (update_journal fl st x d) = slot_files d"
  by (simp_all add: update_journal_def)

lemma control_frame [simp, frame_simps]:
  "flash_file (write_control_block fl u d) = flash_file d"
  "layout_file (write_control_block fl u d) = layout_file d"
  "journal_file (write_control_block fl u d) = journal_file d"
  "slot_files (write_control_block fl u d) = slot_files d"
  by (simp_all add: write_control_block_def Let_def)

lemma layout_frame [simp, frame_simps]:
  "flash_file (save_layout l d) = flash_file d"
  "journal_file (save_layout l d) = journal_file d"
  "control_block_file (save_layout l d) = control_block_file d"
  "slot_files (save_layout l d) = slot_files d"
  "layout_file (save_layout l d) = Some l"
  by (simp_all add: save_layout_def)

lemma payload_metadata_frame [simp, frame_simps]:
  "flash_file (record_payload_metadata fl a p d) = flash_file d"
  "journal_file (record_payload_metadata fl a p d) = journal_file d"
  "control_block_file (record_payload_metadata fl a p d) = control_block_file d"
  by (simp_all add: record_payload_metadata_def)

definition journal_state :: "slot_dir \<Rightarrow> jval option" where
  "journal_state d = load_journal d ''state''"

lemma journal_state_update [simp]:
  "\<forall>(k, v) \<in> set x. k \<noteq> ''state'' \<Longrightarrow> journal_state (update_journal fl st x d) = Some (JText st)"
  by (auto simp: journal_state_def load_journal_def update_journal_def jupdate_apply
      split: option.split dest!: map_of_SomeD)

lemma journal_state_frame [simp]:
  "journal_state (write_control_block fl u d) = journal_state d"
  "journal_state (save_layout l d) = journal_state d"
  "journal_state (record_payload_metadata fl a p d) = journal_state d"
  by (simp_all add: journal_state_def load_journal_def)

lemma read_control_block_written [simp]: "read_control_block (d\<lparr>control_block_file := Some c\<rparr>) = c"
  by (simp add: read_control_block_def)

lemma setdefault_keeps: "d k = Some v \<Longrightarrow> setdefault k' x d k = Some v"
  by (auto simp: setdefault_def)

lemma control_block_after:
  "map_of u k = Some v \<Longrightarrow> read_control_block (write_control_block fl u d) k = Some v"
  by (simp add: write_control_block_def setdefault_keeps jupdate_apply Let_def)

text \<open>Where the flash file holds \<open>bs\<close> from the address on.\<close>

definition flash_holds :: "flash_config \<Rightarrow> slot_dir \<Rightarrow> nat \<Rightarrow> bytes \<Rightarrow> bool" where
  "flash_holds fl d off bs \<longleftrightarrow>
     (\<exists>f. flash_file d = Some f \<and> take (length bs) (drop off f) = bs)"

lemma flash_read_holds:
  assumes "base_address fl \<le> address" and "address - base_address fl + length bs \<le> partition_size fl"
    and "flash_holds fl d (address - base_address fl) bs"
  shows "flash_read fl address (length bs) d = Inr bs"
  using assms by (auto simp: flash_read_def flash_offset_def flash_holds_def)

lemma flash_initialize_erased:
  "flash_file (snd (flash_initialize fl d)) = Some (replicate (partition_size fl) ERASED_BYTE)"
  "fst (flash_initialize fl d) = None"
  "journal_state (snd (flash_initialize fl d)) = Some (JText ''INITIALIZED'')"
  by (simp_all add: flash_initialize_def Let_def)

text \<open>Programming an erased region succeeds, and the file then holds the payload there.\<close>

lemma flash_program_erased:
  assumes "flash_file d = Some f" and "base_address fl \<le> address" and "0 < page_size fl"
    and off: "off = address - base_address fl" and "off + length p \<le> partition_size fl"
    and "erased off (length p) f"
  obtains d' where "flash_program fl address p d = (None, d')"
    and "flash_file d' = Some (take off f @ p @ drop (off + length p) f)"
    and "journal_state d' = Some (JText ''PROGRAMMED'')"
proof (rule that [of "snd (flash_program fl address p d)"])
  note pages = program_pages_erased [OF \<open>0 < page_size fl\<close> \<open>erased off (length p) f\<close>]
  have o: "flash_offset fl address = Inr off"
    using assms by (simp add: flash_offset_def)
  show "flash_program fl address p d = (None, snd (flash_program fl address p d))"
    and "flash_file (snd (flash_program fl address p d)) =
           Some (take off f @ p @ drop (off + length p) f)"
    and "journal_state (snd (flash_program fl address p d)) = Some (JText ''PROGRAMMED'')"
    using assms(1,5) by (simp_all add: flash_program_def o pages Let_def)
qed

lemma flash_program_clears:
  assumes "flash_file d = Some f"
  shows "\<exists>g. flash_file (snd (flash_program fl address p d)) = Some g \<and> only_clears f g"
proof (cases "flash_offset fl address")
  case (Inl e)
  with assms show ?thesis by (simp add: flash_program_def)
next
  case (Inr off)
  obtain r g where g: "program_pages (page_size fl) off p f = (r, g)" by fastforce
  then have "only_clears f g" using program_pages_clears [of f "page_size fl" off p] by simp
  then show ?thesis
    using assms Inr g by (cases r) (auto simp: flash_program_def Let_def)
qed

lemma round_up: "0 < s \<Longrightarrow> n \<le> (n + s - 1) div s * s" for n s :: nat
proof -
  assume "0 < s"
  then have "(n + s - 1) mod s \<le> s - 1"
    using mod_less_divisor [of s "n + s - 1"] by linarith
  then show ?thesis
    using div_mult_mod_eq [of "n + s - 1" s] \<open>0 < s\<close> by linarith
qed

lemma erased_write_at:
  assumes "s \<le> off" and "off + n \<le> s + k" and "s + k \<le> length f"
  shows "erased off n (write_at s (replicate k ERASED_BYTE) f)"
proof -
  let ?g = "write_at s (replicate k ERASED_BYTE) f"
  have len: "length ?g = length f" using assms(3) by simp
  have "take n (drop off ?g) ! i = replicate n ERASED_BYTE ! i" if "i < n" for i
  proof -
    have "off + i < length f" and "s \<le> off + i" and "off + i < s + k" and "off + i - s < k"
      using that assms by linarith+
    then show ?thesis using that assms(3) by (simp add: nth_write_at len)
  qed
  then have "take n (drop off ?g) = replicate n ERASED_BYTE"
    using assms len by (intro nth_equalityI) auto
  then show ?thesis using assms by (simp add: erased_def len)
qed

text \<open>Erasing clears whole sectors, at least the region asked for, within the partition.\<close>

lemma erase_region_erases:
  assumes "flash_file d = Some f" and "length f = partition_size fl" and "0 < sector_size fl"
    and "base_address fl \<le> address" and "address - base_address fl + n \<le> partition_size fl"
  obtains d' g where "erase_region fl address n d = (None, d')" and "flash_file d' = Some g"
    and "length g = partition_size fl" and "erased (address - base_address fl) n g"
    and "journal_state d' = Some (JText ''ERASED'')"
proof -
  let ?off = "address - base_address fl" and ?s = "sector_size fl"
  let ?start = "?off div ?s * ?s"
  let ?upto = "min (partition_size fl) ((?off + n + ?s - 1) div ?s * ?s)"
  let ?g = "write_at ?start (replicate (?upto - ?start) ERASED_BYTE) f"
  have start: "?start \<le> ?off" by simp
  have "?off + n \<le> (?off + n + ?s - 1) div ?s * ?s"
    by (rule round_up [OF assms(3)])
  then have "?off + n \<le> ?upto" using assms(5) by simp
  have aux: "s \<le> P \<Longrightarrow> s + (min P x - s) \<le> P" for s P x :: nat
    by arith
  have "?start \<le> partition_size fl" using start assms(5) by linarith
  from aux [OF this] have fit: "?start + length (replicate (?upto - ?start) ERASED_BYTE) \<le> length f"
    using assms(2) by simp
  have len: "length ?g = partition_size fl"
    using fit assms(2) by (simp del: length_replicate)
  have e: "erased ?off n ?g"
    using start \<open>?off + n \<le> ?upto\<close> fit by (intro erased_write_at) (simp_all only: length_replicate, linarith)
  have "flash_offset fl address = Inr ?off" and "flash_offset fl (address + n) = Inr (?off + n)"
    using assms(4) by (simp_all add: flash_offset_def)
  then have run: "erase_region fl address n d = (None, update_journal fl ''ERASED''
      [(''erase_start'', JHex address), (''erase_size'', JNum n)] (d\<lparr>flash_file := Some ?g\<rparr>))"
    by (simp add: erase_region_def assms(1) Let_def)
  show ?thesis
    by (rule that [OF run _ len e]) simp_all
qed

text \<open>Programming page after page fills an erased region with the payload.\<close>

lemma erased_after_prefix:
  assumes "erased off (length p) f" and "n \<le> length p"
  shows "erased (off + n) (length p - n) (take off f @ take n p @ drop (off + n) f)"
  using erased_suffix [OF assms(1) refl, of n] assms(2) by (simp add: min.absorb2)

lemma prefix_then_suffix:
  assumes "off + length p \<le> length f" and "n \<le> length p" and g: "g = take off f @ take n p @ drop (off + n) f"
  shows "take (off + n) g @ drop n p @ drop (off + n + length (drop n p)) g =
           take off f @ p @ drop (off + length p) f"
proof -
  have "take (off + n) g = take off f @ take n p"
    using assms by simp
  moreover have "drop (off + n + length (drop n p)) g = drop (off + length p) f"
    using assms by (simp add: add.commute)
  ultimately show ?thesis by simp
qed

section \<open>Erase, program, read\<close>

text \<open>Programming can only turn flash bits from 1 to 0 and never changes the size of the
  flash, whether it succeeds or raises part of the way.\<close>

theorem programming_only_clears_bits:
  assumes "flash_file d = Some f"
  shows "\<exists>g. flash_file (snd (flash_program fl address p d)) = Some g \<and> length g = length f \<and>
           (\<forall>i < length f. g ! i AND f ! i = g ! i)"
  using flash_program_clears [OF assms, of fl address p] by (auto simp: only_clears_def)

theorem programming_only_clears_bits_witness:
  "\<exists>g. flash_file (snd (flash_program \<lparr>base_address = 0, partition_size = 2, page_size = 1, sector_size = 2\<rparr>
          0 [0x0F, 0x80] \<lparr>flash_file = Some [0xFF, 0x0F], layout_file = None,
            journal_file = None, control_block_file = None, slot_files = \<lambda>_. None\<rparr>)) = Some g \<and>
       length g = length [0xFF, 0x0F :: byte] \<and>
       (\<forall>i < length [0xFF, 0x0F :: byte]. g ! i AND [0xFF, 0x0F] ! i = g ! i)"
  by (rule programming_only_clears_bits) simp

text \<open>C15: Erasing a region inside the partition and programming it succeeds, whatever the flash
  held and however the payload lies to sectors and pages; reading the region back then gives the
  payload and the verification passes.\<close>

theorem erase_program_reads_back:
  assumes "flash_file d = Some f" and "length f = partition_size fl" and "0 < sector_size fl"
    and "0 < page_size fl" and "base_address fl \<le> address"
    and "address - base_address fl + length p \<le> partition_size fl"
  shows "\<exists>d1 d2. erase_region fl address (length p) d = (None, d1) \<and>
           flash_program fl address p d1 = (None, d2) \<and>
           flash_read fl address (length p) d2 = Inr p \<and> flash_verify fl address p d2 = Inr True"
proof -
  let ?off = "address - base_address fl"
  obtain d1 g where e: "erase_region fl address (length p) d = (None, d1)" "flash_file d1 = Some g"
      "length g = partition_size fl" "erased ?off (length p) g"
    using erase_region_erases [OF assms(1-3,5,6)] by metis
  obtain d2 where w: "flash_program fl address p d1 = (None, d2)"
      "flash_file d2 = Some (take ?off g @ p @ drop (?off + length p) g)"
    using flash_program_erased [OF e(2) assms(5,4) refl assms(6) e(4)] by metis
  have "?off \<le> length g" using e(3) assms(6) by simp
  then have "flash_holds fl d2 ?off p" by (simp add: flash_holds_def w(2))
  then have "flash_read fl address (length p) d2 = Inr p"
    by (rule flash_read_holds [OF assms(5,6)])
  then show ?thesis using e(1) w(1) by (auto simp: flash_verify_def)
qed

theorem erase_program_reads_back_witness:
  "\<exists>d1 d2. erase_region \<lparr>base_address = 16, partition_size = 8, page_size = 2, sector_size = 4\<rparr> 19 (length [1, 2, 3 :: byte])
        \<lparr>flash_file = Some (replicate 8 0), layout_file = None, journal_file = None,
          control_block_file = None, slot_files = \<lambda>_. None\<rparr> = (None, d1) \<and>
     flash_program \<lparr>base_address = 16, partition_size = 8, page_size = 2, sector_size = 4\<rparr> 19 [1, 2, 3] d1 = (None, d2) \<and>
     flash_read \<lparr>base_address = 16, partition_size = 8, page_size = 2, sector_size = 4\<rparr> 19 (length [1, 2, 3 :: byte]) d2 =
       Inr [1, 2, 3] \<and>
     flash_verify \<lparr>base_address = 16, partition_size = 8, page_size = 2, sector_size = 4\<rparr> 19 [1, 2, 3] d2 = Inr True"
  by (rule erase_program_reads_back [where f = "replicate 8 0"]) (simp_all add: numeral_eq_Suc)

end
