(* ===== verification/AB_Update.thy ===== *)
theory AB_Update
  imports OTA_Prelude
begin

text \<open>
  The contract of an A/B update: what the ECU software relies on from a component that stages
  something new, boots it on trial, and then confirms it or falls back. \<open>SlotManager\<close> promises it
  for the slot the ECU runs from and \<open>VersionManager\<close> for the software version; both interpret
  the locale. The client lemmas are about arbitrary sequences of operations.
\<close>

datatype 'l ab_op = Stage 'l | Boot | Commit | Rollback string

text \<open>
  \<open>stage l\<close> stages what the label \<open>l\<close> describes, \<open>target l\<close> is what the ECU will then run;
  \<open>accepts l\<close> are the labels the component does not reject.
\<close>

locale ab_update =
  fixes wf :: "'s \<Rightarrow> bool"
    and accepts :: "'l \<Rightarrow> bool"
    and target :: "'l \<Rightarrow> 'v"
    and stage :: "'l \<Rightarrow> 's \<Rightarrow> 's"
    and boot :: "'s \<Rightarrow> 's"
    and commit :: "'s \<Rightarrow> 's"
    and rollback :: "string \<Rightarrow> 's \<Rightarrow> 's"
    and running :: "'s \<Rightarrow> 'v"
    and confirmed :: "'s \<Rightarrow> 'v"
    and pending :: "'s \<Rightarrow> 'v option"
  assumes wf_stage: "wf s \<Longrightarrow> accepts l \<Longrightarrow> wf (stage l s)"
    and wf_boot: "wf s \<Longrightarrow> wf (boot s)"
    and wf_commit: "wf s \<Longrightarrow> wf (commit s)"
    and wf_rollback: "wf s \<Longrightarrow> wf (rollback r s)"
    and running_stage: "wf s \<Longrightarrow> accepts l \<Longrightarrow> running (stage l s) = running s"
    and confirmed_stage: "wf s \<Longrightarrow> accepts l \<Longrightarrow> confirmed (stage l s) = confirmed s"
    and pending_stage: "wf s \<Longrightarrow> accepts l \<Longrightarrow> pending (stage l s) = Some (target l)"
    and running_boot: "wf s \<Longrightarrow> running (boot s) = (case pending s of None \<Rightarrow> running s | Some v \<Rightarrow> v)"
    and confirmed_boot: "wf s \<Longrightarrow> confirmed (boot s) = confirmed s"
    and pending_boot: "wf s \<Longrightarrow> pending (boot s) = pending s"
    and running_commit: "wf s \<Longrightarrow> running (commit s) = running s"
    and confirmed_commit: "wf s \<Longrightarrow> confirmed (commit s) = running s"
    and pending_commit: "wf s \<Longrightarrow> pending (commit s) = None"
    and running_rollback: "wf s \<Longrightarrow> running (rollback r s) = confirmed s"
    and confirmed_rollback: "wf s \<Longrightarrow> confirmed (rollback r s) = confirmed s"
    and pending_rollback: "wf s \<Longrightarrow> pending (rollback r s) = None"
begin

fun ab_step :: "'l ab_op \<Rightarrow> 's \<Rightarrow> 's" where
  "ab_step (Stage l) s = stage l s"
| "ab_step Boot s = boot s"
| "ab_step Commit s = commit s"
| "ab_step (Rollback r) s = rollback r s"

definition accepted :: "'l ab_op list \<Rightarrow> bool" where
  "accepted xs \<longleftrightarrow> (\<forall>l. Stage l \<in> set xs \<longrightarrow> accepts l)"

definition ab_run :: "'l ab_op list \<Rightarrow> 's \<Rightarrow> 's" where
  "ab_run xs s = fold ab_step xs s"

lemmas ab_laws =
  running_stage confirmed_stage pending_stage running_boot confirmed_boot pending_boot
  running_commit confirmed_commit pending_commit running_rollback confirmed_rollback pending_rollback

lemma wf_step: "wf s \<Longrightarrow> (\<forall>l. x = Stage l \<longrightarrow> accepts l) \<Longrightarrow> wf (ab_step x s)"
  by (cases x) (auto intro: wf_stage wf_boot wf_commit wf_rollback)

lemma ab_run_Cons: "ab_run (x # xs) s = ab_run xs (ab_step x s)"
  by (simp add: ab_run_def)

lemma wf_run: "wf s \<Longrightarrow> accepted xs \<Longrightarrow> wf (ab_run xs s)"
proof (induction xs arbitrary: s)
  case Nil
  then show ?case by (simp add: ab_run_def)
next
  case (Cons x xs)
  then have "wf (ab_step x s)" and "accepted xs"
    by (auto simp: accepted_def intro!: wf_step)
  then show ?case using Cons.IH by (simp add: ab_run_Cons)
qed

text \<open>Without a commit the fallback does not change, however often things are staged and booted.\<close>

lemma confirmed_step:
  "wf s \<Longrightarrow> (\<forall>l. x = Stage l \<longrightarrow> accepts l) \<Longrightarrow> x \<noteq> Commit \<Longrightarrow> confirmed (ab_step x s) = confirmed s"
  by (cases x) (simp_all add: ab_laws)

lemma confirmed_without_commit:
  "wf s \<Longrightarrow> accepted xs \<Longrightarrow> Commit \<notin> set xs \<Longrightarrow> confirmed (ab_run xs s) = confirmed s"
proof (induction xs arbitrary: s)
  case Nil
  then show ?case by (simp add: ab_run_def)
next
  case (Cons x xs)
  then have "\<forall>l. x = Stage l \<longrightarrow> accepts l" and "accepted xs" and "x \<noteq> Commit"
    by (auto simp: accepted_def)
  then show ?case using Cons wf_step confirmed_step by (simp add: ab_run_Cons)
qed

lemma rollback_restores:
  assumes "wf s" and "accepted xs" and "Commit \<notin> set xs"
  shows "running (rollback r (ab_run xs s)) = confirmed s"
    and "confirmed (rollback r (ab_run xs s)) = confirmed s"
  using wf_run [OF assms(1,2)] confirmed_without_commit [OF assms] by (simp_all add: ab_laws)

text \<open>Booting again runs the same trial software.\<close>

lemma boot_again: "wf s \<Longrightarrow> running (boot (boot s)) = running (boot s)"
  by (simp add: ab_laws wf_boot split: option.split)

lemma commit_trial:
  assumes "wf s" and "accepts l"
  shows "running (commit (boot (stage l s))) = target l"
    and "confirmed (commit (boot (stage l s))) = target l"
    and "pending (commit (boot (stage l s))) = None"
  using assms by (simp_all add: ab_laws wf_stage wf_boot)

text \<open>The ECU only ever runs and confirms what it had before or what was staged.\<close>

definition known :: "'s \<Rightarrow> 'v set" where
  "known s = {running s, confirmed s} \<union> set_option (pending s)"

definition staged :: "'l ab_op list \<Rightarrow> 'v set" where
  "staged xs = {target l | l. Stage l \<in> set xs}"

lemma known_step:
  assumes "wf s" and "\<forall>l. x = Stage l \<longrightarrow> accepts l"
  shows "known (ab_step x s) \<subseteq> known s \<union> staged [x]"
  using assms by (cases x) (auto simp: known_def staged_def ab_laws split: option.splits)

lemma known_run: "wf s \<Longrightarrow> accepted xs \<Longrightarrow> known (ab_run xs s) \<subseteq> known s \<union> staged xs"
proof (induction xs arbitrary: s)
  case Nil
  then show ?case by (simp add: ab_run_def)
next
  case (Cons x xs)
  then have x: "\<forall>l. x = Stage l \<longrightarrow> accepts l" and "accepted xs"
    by (auto simp: accepted_def)
  then have "known (ab_run xs (ab_step x s)) \<subseteq> known (ab_step x s) \<union> staged xs"
    using Cons.IH Cons.prems(1) wf_step by blast
  moreover have "staged (x # xs) = staged [x] \<union> staged xs"
    by (auto simp: staged_def)
  ultimately show ?case using known_step [OF Cons.prems(1) x] by (auto simp: ab_run_Cons)
qed

end

end
