(* ===== verification/Slots.thy ===== *)
theory Slots
  imports Flash_Memory AB_Update
begin

text \<open>
  The A/B slots of an ECU: \<open>ecus/base/slot_manager.py\<close>.

  \<open>slot_state\<close> is the JSON object in \<open>slot_state.json\<close> (the empty text of \<open>pending_slot\<close> is
  \<open>None\<close>), \<open>slot_disk\<close> that file with the two slot directories. Each method is a \<open>slot_disk op\<close>
  that saves the state first and then brings journal and control blocks up to date. Loading a
  missing state file also writes the defaults; they are what a later load returns anyway, so
  the queries here only return them.
\<close>

section \<open>State\<close>

datatype slot = SLOT_A | SLOT_B

fun slot_name :: "slot \<Rightarrow> string" where
  "slot_name SLOT_A = ''A''"
| "slot_name SLOT_B = ''B''"

fun other_slot :: "slot \<Rightarrow> slot" where
  "other_slot SLOT_A = SLOT_B"
| "other_slot SLOT_B = SLOT_A"

record slot_state =
  st_active_slot :: slot
  st_confirmed_slot :: slot
  st_previous_slot :: slot
  st_pending_slot :: "slot option"
  st_pending_file :: string
  st_pending_version :: string
  st_boot_attempts :: nat
  st_max_boot_attempts :: nat
  st_rollback_reason :: string
  st_last_transition :: string

definition default_slot_state :: slot_state where
  "default_slot_state =
     \<lparr>st_active_slot = SLOT_A, st_confirmed_slot = SLOT_A, st_previous_slot = SLOT_A,
      st_pending_slot = None, st_pending_file = [], st_pending_version = [],
      st_boot_attempts = 0, st_max_boot_attempts = 1, st_rollback_reason = [],
      st_last_transition = ''INITIALIZED''\<rparr>"

record slot_disk =
  slot_state_file :: "slot_state option"
  slot_dirs :: "slot \<Rightarrow> slot_dir"

definition load_state :: "slot_disk \<Rightarrow> slot_state" where
  "load_state d = (case slot_state_file d of None \<Rightarrow> default_slot_state | Some st \<Rightarrow> st)"

definition save_state :: "slot_state \<Rightarrow> slot_disk \<Rightarrow> slot_disk" where
  "save_state st d = d\<lparr>slot_state_file := Some st\<rparr>"

definition active_slot :: "slot_disk \<Rightarrow> slot" where
  "active_slot d = st_active_slot (load_state d)"

definition inactive_slot :: "slot_disk \<Rightarrow> slot" where
  "inactive_slot d = (if active_slot d = SLOT_A then SLOT_B else SLOT_A)"

text \<open>
  The emulator \<open>_update_control_block\<close> and \<open>_update_journal\<close> set up from a slot's layout file:
  a missing key raises \<open>KeyError\<close>, a value that is not the one \<open>initialize\<close> writes \<open>ValueError\<close>.
\<close>

definition layout_value :: "jdict \<Rightarrow> string \<Rightarrow> (jval \<Rightarrow> nat option) \<Rightarrow> nat result" where
  "layout_value l k conv =
     (case l k of
        None \<Rightarrow> Inl (KeyError k)
      | Some v \<Rightarrow> (case conv v of None \<Rightarrow> Inl (ValueError k) | Some n \<Rightarrow> Inr n))"

definition hex_value :: "jval \<Rightarrow> nat option" where
  "hex_value v = (case v of JHex n \<Rightarrow> Some n | _ \<Rightarrow> None)"

definition num_value :: "jval \<Rightarrow> nat option" where
  "num_value v = (case v of JNum n \<Rightarrow> Some n | _ \<Rightarrow> None)"

definition layout_config :: "jdict \<Rightarrow> flash_config result" where
  "layout_config l =
     bindE (layout_value l ''base_address'' hex_value) (\<lambda>b.
     bindE (layout_value l ''partition_size'' num_value) (\<lambda>p.
     bindE (layout_value l ''page_size'' num_value) (\<lambda>g.
     bindE (layout_value l ''sector_size'' num_value) (\<lambda>s.
       Inr \<lparr>base_address = b, partition_size = p, page_size = g, sector_size = s\<rparr>))))"

definition with_slot_flash :: "slot \<Rightarrow> (flash_config \<Rightarrow> slot_dir \<Rightarrow> slot_dir) \<Rightarrow> slot_disk op" where
  "with_slot_flash slot f d =
     (case layout_file (slot_dirs d slot) of
        None \<Rightarrow> (None, d)
      | Some l \<Rightarrow>
          (case layout_config l of
             Inl e \<Rightarrow> (Some e, d)
           | Inr fl \<Rightarrow> (None, d\<lparr>slot_dirs := (slot_dirs d)(slot := f fl (slot_dirs d slot))\<rparr>)))"

definition update_control_block :: "slot \<Rightarrow> (string \<times> jval) list \<Rightarrow> slot_disk op" where
  "update_control_block slot updates = with_slot_flash slot (\<lambda>fl. write_control_block fl updates)"

definition update_slot_journal :: "slot \<Rightarrow> string \<Rightarrow> (string \<times> jval) list \<Rightarrow> slot_disk op" where
  "update_slot_journal slot state updates = with_slot_flash slot (\<lambda>fl. update_journal fl state updates)"

definition set_active_slot_control_blocks :: "slot \<Rightarrow> bool \<Rightarrow> slot_disk op" where
  "set_active_slot_control_blocks active confirmed =
     run_steps (map (\<lambda>slot. update_control_block slot
        ([(''active'', JBool (slot = active)),
          (''confirmed'', JBool (if slot = active then confirmed else False))] @
         (if slot = active then [(''bootable'', JBool True)] else [])))
       [SLOT_A, SLOT_B])"

section \<open>Methods\<close>

text \<open>
  \<open>stage_firmware\<close> moves the downloaded file into the inactive slot, replacing an older file of
  that name. The download is given by its content (\<open>None\<close>: no such file, \<open>shutil.move\<close> raises).
\<close>

definition stage_firmware :: "bytes option \<Rightarrow> string \<Rightarrow> slot_disk \<Rightarrow> slot result \<times> slot_disk" where
  "stage_firmware download firmware_file d =
     (let slot = inactive_slot d;
          cleared = (slot_dirs d slot)\<lparr>slot_files := (slot_files (slot_dirs d slot))(firmware_file := None)\<rparr>
      in case download of
           None \<Rightarrow> (Inl (FileNotFoundError firmware_file),
                    d\<lparr>slot_dirs := (slot_dirs d)(slot := cleared)\<rparr>)
         | Some content \<Rightarrow>
             (Inr slot, d\<lparr>slot_dirs := (slot_dirs d)(slot :=
                cleared\<lparr>slot_files := (slot_files cleared)(firmware_file \<mapsto> content)\<rparr>)\<rparr>))"

definition mark_pending :: "slot \<Rightarrow> string \<Rightarrow> string \<Rightarrow> slot_disk op" where
  "mark_pending slot firmware_file version d =
     (let st = (load_state d)\<lparr>st_pending_slot := Some slot, st_pending_file := firmware_file,
                 st_pending_version := version, st_boot_attempts := 0, st_rollback_reason := [],
                 st_last_transition := ''STAGED''\<rparr>
      in update_control_block slot
           [(''slot'', JText (slot_name slot)), (''firmware_file'', JText firmware_file),
            (''target_version'', JText version), (''bootable'', JBool True),
            (''confirmed'', JBool False), (''active'', JBool False),
            (''rollback_reason'', JText [])] (save_state st d))"

definition activate_pending :: "slot_disk op" where
  "activate_pending d =
     (case st_pending_slot (load_state d) of
        None \<Rightarrow> (None, d)
      | Some pending \<Rightarrow>
          let st = load_state d;
              st = st\<lparr>st_previous_slot := st_active_slot st, st_active_slot := pending,
                     st_boot_attempts := st_boot_attempts st + 1,
                     st_last_transition := ''BOOTED_PENDING''\<rparr>
          in run_steps
               [update_slot_journal pending ''BOOTED_PENDING''
                  [(''boot_attempts'', JNum (st_boot_attempts st))],
                set_active_slot_control_blocks pending False]
               (save_state st d))"

definition commit_pending :: "slot_disk op" where
  "commit_pending d =
     (let st = load_state d;
          st = st\<lparr>st_confirmed_slot := st_active_slot st, st_pending_slot := None,
                 st_pending_file := [], st_pending_version := [], st_boot_attempts := 0,
                 st_rollback_reason := [], st_last_transition := ''CONFIRMED''\<rparr>
      in run_steps
           [update_slot_journal (st_active_slot st) ''CONFIRMED''
              [(''confirmed_slot'', JText (slot_name (st_confirmed_slot st)))],
            set_active_slot_control_blocks (st_active_slot st) True]
           (save_state st d))"

definition rollback_pending :: "string \<Rightarrow> slot_disk op" where
  "rollback_pending reason d =
     (let st = load_state d;
          rolled_back_slot = st_active_slot st;
          st = st\<lparr>st_previous_slot := st_active_slot st, st_active_slot := st_confirmed_slot st,
                 st_pending_slot := None, st_pending_file := [], st_pending_version := [],
                 st_boot_attempts := 0, st_rollback_reason := reason,
                 st_last_transition := ''ROLLED_BACK''\<rparr>
      in run_steps
           [update_slot_journal rolled_back_slot ''ROLLED_BACK''
              [(''rollback_reason'', JText reason),
               (''confirmed_slot'', JText (slot_name (st_active_slot st)))],
            update_control_block rolled_back_slot
              [(''bootable'', JBool False), (''active'', JBool False),
               (''confirmed'', JBool False), (''rollback_reason'', JText reason)],
            set_active_slot_control_blocks (st_active_slot st) True]
           (save_state st d))"

definition should_rollback_pending :: "slot_disk \<Rightarrow> bool" where
  "should_rollback_pending d =
     (let st = load_state d in
      st_pending_slot st \<noteq> None \<and> st_boot_attempts st \<ge> st_max_boot_attempts st)"

definition INCOMPLETE_JOURNAL_STATES :: "string list" where
  "INCOMPLETE_JOURNAL_STATES = [''INITIALIZED'', ''PREPARED'', ''ERASED'', ''PROGRAMMED'']"

definition pending_journal_requires_recovery :: "slot_disk \<Rightarrow> bool" where
  "pending_journal_requires_recovery d =
     (case st_pending_slot (load_state d) of
        None \<Rightarrow> False
      | Some slot \<Rightarrow>
          (case journal_state (slot_dirs d slot) of
             Some (JText s) \<Rightarrow> s \<in> set INCOMPLETE_JOURNAL_STATES
           | _ \<Rightarrow> False))"

section \<open>What the methods do to the slot state\<close>

text \<open>Layout files that \<open>initialize\<close> wrote; then no method raises.\<close>

definition layouts_ok :: "slot_disk \<Rightarrow> bool" where
  "layouts_ok d \<longleftrightarrow>
     (\<forall>s l. layout_file (slot_dirs d s) = Some l \<longrightarrow> (\<exists>fl. layout_config l = Inr fl))"

lemma load_save_state [simp]: "load_state (save_state st d) = st"
  by (simp add: load_state_def save_state_def)

lemma save_state_dirs [simp]: "slot_dirs (save_state st d) = slot_dirs d"
  by (simp add: save_state_def)

lemma slot_state_frame [simp]: "load_state (d\<lparr>slot_dirs := x\<rparr>) = load_state d"
  by (simp add: load_state_def)

lemma with_slot_flash_state [simp]: "load_state (snd (with_slot_flash slot f d)) = load_state d"
  by (simp add: with_slot_flash_def split: option.split sum.split)

lemma with_slot_flash_other:
  "s \<noteq> slot \<Longrightarrow> slot_dirs (snd (with_slot_flash slot f d)) s = slot_dirs d s"
  by (simp add: with_slot_flash_def split: option.split sum.split)

lemma layouts_okD:
  "layouts_ok d \<Longrightarrow> layout_file (slot_dirs d s) = Some l \<Longrightarrow> layout_config l \<noteq> Inl e"
  unfolding layouts_ok_def by (metis sum.distinct(1))

lemma with_slot_flash_same:
  assumes "layouts_ok d"
  shows "slot_dirs (snd (with_slot_flash slot f d)) slot =
           (case layout_file (slot_dirs d slot) of
              None \<Rightarrow> slot_dirs d slot
            | Some l \<Rightarrow> f (projr (layout_config l)) (slot_dirs d slot))"
  using assms by (auto simp: with_slot_flash_def dest: layouts_okD split: option.split sum.split)

lemma with_slot_flash_total: "layouts_ok d \<Longrightarrow> fst (with_slot_flash slot f d) = None"
  by (auto simp: with_slot_flash_def dest: layouts_okD split: option.split sum.split)

lemma with_slot_flash_layout:
  assumes "\<And>fl sd. layout_file (f fl sd) = layout_file sd"
  shows "layout_file (slot_dirs (snd (with_slot_flash slot f d)) s) = layout_file (slot_dirs d s)"
  using assms by (auto simp: with_slot_flash_def split: option.split sum.split)

lemma slot_update_layout [simp]:
  "layout_file (slot_dirs (snd (update_control_block slot u d)) s) = layout_file (slot_dirs d s)"
  "layout_file (slot_dirs (snd (update_slot_journal slot st u d)) s) = layout_file (slot_dirs d s)"
  by (simp_all add: update_control_block_def update_slot_journal_def with_slot_flash_layout)

lemma with_slot_flash_flash:
  assumes "\<And>fl sd. flash_file (f fl sd) = flash_file sd"
  shows "flash_file (slot_dirs (snd (with_slot_flash slot f d)) s) = flash_file (slot_dirs d s)"
  using assms by (auto simp: with_slot_flash_def split: option.split sum.split)

lemma slot_update_flash [simp]:
  "flash_file (slot_dirs (snd (update_control_block slot u d)) s) = flash_file (slot_dirs d s)"
  "flash_file (slot_dirs (snd (update_slot_journal slot st u d)) s) = flash_file (slot_dirs d s)"
  by (simp_all add: update_control_block_def update_slot_journal_def with_slot_flash_flash)

lemma slot_update_state [simp]:
  "load_state (snd (update_control_block slot u d)) = load_state d"
  "load_state (snd (update_slot_journal slot st u d)) = load_state d"
  by (simp_all add: update_control_block_def update_slot_journal_def)

lemma slot_update_total [simp]:
  "layouts_ok d \<Longrightarrow> fst (update_control_block slot u d) = None"
  "layouts_ok d \<Longrightarrow> fst (update_slot_journal slot st u d) = None"
  by (simp_all add: update_control_block_def update_slot_journal_def with_slot_flash_total)

lemma slot_update_layouts_ok [simp]:
  "layouts_ok (snd (update_control_block slot u d)) = layouts_ok d"
  "layouts_ok (snd (update_slot_journal slot st u d)) = layouts_ok d"
  by (simp_all add: layouts_ok_def)

lemma save_state_layouts_ok [simp]: "layouts_ok (save_state st d) = layouts_ok d"
  by (simp add: layouts_ok_def)

definition active_block_updates :: "slot \<Rightarrow> bool \<Rightarrow> slot \<Rightarrow> (string \<times> jval) list" where
  "active_block_updates active confirmed slot =
     [(''active'', JBool (slot = active)),
      (''confirmed'', JBool (if slot = active then confirmed else False))] @
     (if slot = active then [(''bootable'', JBool True)] else [])"

lemma set_active_slot_control_blocks_eq:
  assumes "layouts_ok d"
  shows "set_active_slot_control_blocks active c d =
     (None, snd (update_control_block SLOT_B (active_block_updates active c SLOT_B)
        (snd (update_control_block SLOT_A (active_block_updates active c SLOT_A) d))))"
  using assms
  by (simp add: set_active_slot_control_blocks_def active_block_updates_def run_steps_ok prod_eq_iff)

lemma set_active_state [simp]: "load_state (snd (set_active_slot_control_blocks s c d)) = load_state d"
  unfolding set_active_slot_control_blocks_def
  by (rule run_steps_invariant [where P = "\<lambda>d'. load_state d' = load_state d"]) auto

lemma set_active_flash [simp]:
  "flash_file (slot_dirs (snd (set_active_slot_control_blocks a c d)) s) = flash_file (slot_dirs d s)"
  unfolding set_active_slot_control_blocks_def
  by (rule run_steps_invariant [where P = "\<lambda>d'. flash_file (slot_dirs d' s) = flash_file (slot_dirs d s)"]) auto

lemma set_active_layout [simp]:
  "layout_file (slot_dirs (snd (set_active_slot_control_blocks a c d)) s) = layout_file (slot_dirs d s)"
  unfolding set_active_slot_control_blocks_def
  by (rule run_steps_invariant [where P = "\<lambda>d'. layout_file (slot_dirs d' s) = layout_file (slot_dirs d s)"]) auto

lemma set_active_total [simp]: "layouts_ok d \<Longrightarrow> fst (set_active_slot_control_blocks s c d) = None"
  by (simp add: set_active_slot_control_blocks_eq)

text \<open>The state each method leaves in \<open>slot_state.json\<close>, whatever the layout files hold.\<close>

lemma run_steps_state:
  assumes "\<And>f d. f \<in> set fs \<Longrightarrow> load_state (snd (f d)) = load_state d"
  shows "load_state (snd (run_steps fs d)) = load_state d"
  using run_steps_invariant [of "\<lambda>d'. load_state d' = load_state d" d fs] assms by simp

lemma mark_pending_state:
  "load_state (snd (mark_pending slot file v d)) =
     (load_state d)\<lparr>st_pending_slot := Some slot, st_pending_file := file, st_pending_version := v,
       st_boot_attempts := 0, st_rollback_reason := [], st_last_transition := ''STAGED''\<rparr>"
  by (simp add: mark_pending_def)

lemma activate_pending_state:
  "load_state (snd (activate_pending d)) =
     (let st = load_state d in
      case st_pending_slot st of
        None \<Rightarrow> st
      | Some p \<Rightarrow> st\<lparr>st_previous_slot := st_active_slot st, st_active_slot := p,
          st_boot_attempts := st_boot_attempts st + 1, st_last_transition := ''BOOTED_PENDING''\<rparr>)"
  unfolding activate_pending_def Let_def
  by (cases "st_pending_slot (load_state d)") (simp_all, subst run_steps_state, auto)

lemma commit_pending_state:
  "load_state (snd (commit_pending d)) =
     (load_state d)\<lparr>st_confirmed_slot := st_active_slot (load_state d), st_pending_slot := None,
       st_pending_file := [], st_pending_version := [], st_boot_attempts := 0,
       st_rollback_reason := [], st_last_transition := ''CONFIRMED''\<rparr>"
  unfolding commit_pending_def Let_def by (subst run_steps_state) auto

lemma rollback_pending_state:
  "load_state (snd (rollback_pending reason d)) =
     (load_state d)\<lparr>st_previous_slot := st_active_slot (load_state d),
       st_active_slot := st_confirmed_slot (load_state d), st_pending_slot := None,
       st_pending_file := [], st_pending_version := [], st_boot_attempts := 0,
       st_rollback_reason := reason, st_last_transition := ''ROLLED_BACK''\<rparr>"
  unfolding rollback_pending_def Let_def by (subst run_steps_state) auto

lemmas slot_method_states =
  mark_pending_state activate_pending_state commit_pending_state rollback_pending_state

section \<open>Slots as an A/B update\<close>

text \<open>A label is a slot with the firmware file and version staged in it.\<close>

definition stage_label :: "slot \<times> string \<times> string \<Rightarrow> slot_disk \<Rightarrow> slot_disk" where
  "stage_label l d = snd (mark_pending (fst l) (fst (snd l)) (snd (snd l)) d)"

definition boot_slot :: "slot_disk \<Rightarrow> slot_disk" where
  "boot_slot d = snd (activate_pending d)"

definition commit_slot :: "slot_disk \<Rightarrow> slot_disk" where
  "commit_slot d = snd (commit_pending d)"

definition rollback_slot :: "string \<Rightarrow> slot_disk \<Rightarrow> slot_disk" where
  "rollback_slot r d = snd (rollback_pending r d)"

definition confirmed_slot :: "slot_disk \<Rightarrow> slot" where
  "confirmed_slot d = st_confirmed_slot (load_state d)"

definition pending_slot :: "slot_disk \<Rightarrow> slot option" where
  "pending_slot d = st_pending_slot (load_state d)"

lemmas slot_op_defs =
  stage_label_def boot_slot_def commit_slot_def rollback_slot_def
  active_slot_def confirmed_slot_def pending_slot_def slot_method_states

interpretation slots: ab_update "\<lambda>_. True" "\<lambda>_. True" fst stage_label boot_slot commit_slot
    rollback_slot active_slot confirmed_slot pending_slot
  by unfold_locales (auto simp: slot_op_defs Let_def split: option.split)

section \<open>Control blocks\<close>

text \<open>
  Every slot that has a layout carries an activation control block; after a transition exactly
  the active slot is marked active, and it is bootable.
\<close>

definition control_blocks_agree :: "slot_disk \<Rightarrow> bool" where
  "control_blocks_agree d \<longleftrightarrow>
     (\<forall>s. layout_file (slot_dirs d s) \<noteq> None \<longrightarrow>
        (let c = read_control_block (slot_dirs d s) in
         c ''active'' = Some (JBool (s = active_slot d)) \<and>
         (s = active_slot d \<longrightarrow> c ''bootable'' = Some (JBool True))))"

lemma update_control_block_dir:
  assumes "layouts_ok d"
  shows "slot_dirs (snd (update_control_block slot u d)) s =
     (if s = slot
      then (case layout_file (slot_dirs d slot) of
              None \<Rightarrow> slot_dirs d slot
            | Some l \<Rightarrow> write_control_block (projr (layout_config l)) u (slot_dirs d slot))
      else slot_dirs d s)"
  by (simp add: update_control_block_def with_slot_flash_same [OF assms] with_slot_flash_other)

lemma all_slots: "(\<forall>s. P s) \<longleftrightarrow> P SLOT_A \<and> P SLOT_B"
  by (metis slot.exhaust)

lemma set_active_control_block:
  assumes "layouts_ok d" and "layout_file (slot_dirs d s) \<noteq> None"
    and "map_of (active_block_updates active c s) k = Some v"
  shows "read_control_block (slot_dirs (snd (set_active_slot_control_blocks active c d)) s) k = Some v"
  using assms
  by (cases s) (auto simp: set_active_slot_control_blocks_eq update_control_block_dir
      intro: control_block_after split: option.split)

lemma set_active_agrees:
  assumes "layouts_ok d" and "active_slot d = active"
  shows "control_blocks_agree (snd (set_active_slot_control_blocks active c d))"
  using assms
  by (auto simp: control_blocks_agree_def active_slot_def Let_def active_block_updates_def
      intro!: set_active_control_block)

lemma activate_pending_total: "layouts_ok d \<Longrightarrow> fst (activate_pending d) = None"
  by (auto simp: activate_pending_def Let_def run_steps_ok split: option.split)

lemma commit_pending_total: "layouts_ok d \<Longrightarrow> fst (commit_pending d) = None"
  by (simp add: commit_pending_def Let_def run_steps_ok)

lemma rollback_pending_total: "layouts_ok d \<Longrightarrow> fst (rollback_pending r d) = None"
  by (simp add: rollback_pending_def Let_def run_steps_ok)

lemma commit_pending_agrees: "layouts_ok d \<Longrightarrow> control_blocks_agree (snd (commit_pending d))"
  by (simp add: commit_pending_def Let_def run_steps_ok set_active_agrees active_slot_def)

lemma rollback_pending_agrees: "layouts_ok d \<Longrightarrow> control_blocks_agree (snd (rollback_pending r d))"
  by (simp add: rollback_pending_def Let_def run_steps_ok set_active_agrees active_slot_def)

lemma activate_pending_agrees:
  "layouts_ok d \<Longrightarrow> pending_slot d \<noteq> None \<Longrightarrow> control_blocks_agree (snd (activate_pending d))"
  by (auto simp: activate_pending_def pending_slot_def Let_def run_steps_ok set_active_agrees
      active_slot_def)

section \<open>Layout files stay readable\<close>

definition layout_valid :: "slot_dir \<Rightarrow> bool" where
  "layout_valid d \<longleftrightarrow> (\<forall>l. layout_file d = Some l \<longrightarrow> (\<exists>fl. layout_config l = Inr fl))"

lemma layouts_ok_iff: "layouts_ok d \<longleftrightarrow> (\<forall>s. layout_valid (slot_dirs d s))"
  by (auto simp: layouts_ok_def layout_valid_def)

lemma layout_valid_frame:
  "layout_file d' = layout_file d \<Longrightarrow> layout_valid d' = layout_valid d"
  by (simp add: layout_valid_def)

lemma layout_valid_initialize: "layout_valid (snd (flash_initialize fl d))"
  by (simp add: flash_initialize_def Let_def layout_valid_def layout_config_def layout_value_def
      hex_value_def num_value_def)

lemma layout_config_other:
  "k \<notin> {''base_address'', ''partition_size'', ''page_size'', ''sector_size''} \<Longrightarrow>
     layout_config (l(k \<mapsto> v)) = layout_config l"
  by (auto simp: layout_config_def layout_value_def)

lemma layout_valid_erase: "layout_valid (snd (erase_region fl a n d)) = layout_valid d"
  by (rule layout_valid_frame)
    (auto simp: erase_region_def Let_def split: sum.split option.split)

lemma layout_valid_program:
  assumes "layout_valid d" and "layout_file d \<noteq> None"
  shows "layout_valid (snd (flash_program fl a p d))" and "layout_file (snd (flash_program fl a p d)) \<noteq> None"
  using assms
  by (auto simp: flash_program_def Let_def layout_valid_def load_layout_def layout_config_other
      split: sum.split option.split prod.split)

lemma layout_valid_metadata:
  assumes "layout_valid d" and "layout_file d \<noteq> None"
  shows "layout_valid (record_payload_metadata fl a p d)"
  using assms
  by (auto simp: record_payload_metadata_def layout_valid_def load_layout_def layout_config_other)

section \<open>Runs\<close>

text \<open>A sequence of transitions of the slot manager: staging, activation, confirmation, rollback.\<close>

fun slot_run :: "(slot \<times> string \<times> string) ab_op list \<Rightarrow> slot_disk \<Rightarrow> slot_disk" where
  "slot_run [] d = d"
| "slot_run (Stage (s, file, version) # xs) d = slot_run xs (snd (mark_pending s file version d))"
| "slot_run (Boot # xs) d = slot_run xs (snd (activate_pending d))"
| "slot_run (Commit # xs) d = slot_run xs (snd (commit_pending d))"
| "slot_run (Rollback reason # xs) d = slot_run xs (snd (rollback_pending reason d))"

lemma slot_run_ops:
  "snd (mark_pending s file version d) = stage_label (s, file, version) d"
  "snd (activate_pending d) = boot_slot d" "snd (commit_pending d) = commit_slot d"
  "snd (rollback_pending reason d) = rollback_slot reason d"
  by (simp_all add: stage_label_def boot_slot_def commit_slot_def rollback_slot_def)

lemma slot_run_eq: "slot_run xs d = slots.ab_run xs d"
  by (induction xs d rule: slot_run.induct)
    (simp add: slots.ab_run_def,
     simp_all only: slot_run.simps slot_run_ops slots.ab_run_Cons slots.ab_step.simps)

lemma slots_accepted: "slots.accepted xs"
  by (simp add: slots.accepted_def)

definition demo_slot_dir :: slot_dir where
  "demo_slot_dir =
     \<lparr>flash_file = None,
      layout_file = Some [''base_address'' \<mapsto> JHex 0, ''partition_size'' \<mapsto> JNum 4096,
        ''page_size'' \<mapsto> JNum 256, ''sector_size'' \<mapsto> JNum 4096],
      journal_file = None, control_block_file = None, slot_files = \<lambda>_. None\<rparr>"

definition demo_disk :: slot_disk where
  "demo_disk = \<lparr>slot_state_file = None, slot_dirs = \<lambda>_. demo_slot_dir\<rparr>"

lemma demo_disk_ok: "layouts_ok demo_disk"
  by (simp add: layouts_ok_def demo_disk_def demo_slot_dir_def layout_config_def layout_value_def
      hex_value_def num_value_def)

text \<open>C12: However often firmware is staged, activated and rolled back, as long as it is not
  confirmed a rollback puts the ECU back on the slot that was confirmed at the start, which stays
  the confirmed one.\<close>

theorem rollback_returns_to_confirmed_slot:
  assumes "Commit \<notin> set xs"
  shows "active_slot (snd (rollback_pending reason (slot_run xs d))) = st_confirmed_slot (load_state d) \<and>
         st_confirmed_slot (load_state (snd (rollback_pending reason (slot_run xs d)))) =
           st_confirmed_slot (load_state d)"
  using slots.rollback_restores [OF TrueI slots_accepted assms, of reason d]
  by (simp add: slot_run_eq rollback_slot_def confirmed_slot_def)

theorem rollback_returns_to_confirmed_slot_witness:
  "active_slot (snd (rollback_pending ''x''
     (slot_run [Stage (SLOT_B, ''f'', ''2.0.0''), Boot] demo_disk))) = SLOT_A"
  using rollback_returns_to_confirmed_slot [of "[Stage (SLOT_B, ''f'', ''2.0.0''), Boot]" "''x''"
      demo_disk]
  by (simp add: demo_disk_def load_state_def default_slot_state_def)

lemma transition_layout:
  "layout_file (slot_dirs (snd (commit_pending d)) s) = layout_file (slot_dirs d s)"
  "layout_file (slot_dirs (snd (rollback_pending reason d)) s) = layout_file (slot_dirs d s)"
  unfolding commit_pending_def rollback_pending_def Let_def
  by (rule run_steps_invariant [where P = "\<lambda>e. layout_file (slot_dirs e s) = layout_file (slot_dirs d s)"];
      auto simp: save_state_def)+

text \<open>After a commit or a rollback the control blocks of both slots agree with the slot state:
  exactly the active slot is marked active, and it is bootable.\<close>

theorem control_blocks_follow_state:
  assumes "layouts_ok d" and "e \<in> {snd (commit_pending d), snd (rollback_pending reason d)}"
    and "layout_file (slot_dirs d s) \<noteq> None"
  shows "read_control_block (slot_dirs e s) ''active'' = Some (JBool (s = active_slot e)) \<and>
         (s = active_slot e \<longrightarrow> read_control_block (slot_dirs e s) ''bootable'' = Some (JBool True))"
proof -
  have "control_blocks_agree e"
    using assms(1,2) commit_pending_agrees rollback_pending_agrees by blast
  moreover have "layout_file (slot_dirs e s) \<noteq> None"
    using assms(2,3) by (auto simp: transition_layout)
  ultimately show ?thesis by (simp add: control_blocks_agree_def Let_def)
qed

theorem control_blocks_follow_state_witness:
  "read_control_block (slot_dirs (snd (commit_pending demo_disk)) SLOT_B) ''active'' =
     Some (JBool (SLOT_B = active_slot (snd (commit_pending demo_disk))))"
  using control_blocks_follow_state [OF demo_disk_ok, of _ _ SLOT_B]
  by (simp add: demo_disk_def demo_slot_dir_def)

end
