(* ===== verification/Version_Manager.thy ===== *)
theory Version_Manager
  imports Versions Slots
begin

text \<open>
  The software version of an ECU: \<open>ecus/base/version_manager.py\<close>.

  \<open>version_state\<close> is the JSON object in \<open>version.json\<close> merged with the defaults; a missing or
  unreadable file is \<open>None\<close> and loads as the defaults. Methods that take a version normalise it
  first and raise, without writing, where it is not one. The manager is an A/B update for the
  version the ECU runs.
\<close>

record version_state =
  vs_current_version :: string
  vs_confirmed_version :: string
  vs_pending_version :: string
  vs_active_slot :: slot
  vs_confirmed_slot :: slot
  vs_pending_slot :: "slot option"
  vs_pending_commit :: bool
  vs_boot_attempts :: nat
  vs_last_boot_outcome :: string
  vs_rollback_reason :: string

type_synonym version_file = "version_state option"

definition default_version_state :: version_state where
  "default_version_state =
     \<lparr>vs_current_version = ''1.0.0'', vs_confirmed_version = ''1.0.0'', vs_pending_version = [],
      vs_active_slot = SLOT_A, vs_confirmed_slot = SLOT_A, vs_pending_slot = None,
      vs_pending_commit = False, vs_boot_attempts = 0, vs_last_boot_outcome = ''CONFIRMED'',
      vs_rollback_reason = []\<rparr>"

definition load_version :: "version_file \<Rightarrow> version_state" where
  "load_version f = (case f of None \<Rightarrow> default_version_state | Some v \<Rightarrow> v)"

definition get_current_version :: "version_file \<Rightarrow> string" where
  "get_current_version f = vs_current_version (load_version f)"

definition get_confirmed_version :: "version_file \<Rightarrow> string" where
  "get_confirmed_version f = vs_confirmed_version (load_version f)"

definition has_pending_commit :: "version_file \<Rightarrow> bool" where
  "has_pending_commit f = vs_pending_commit (load_version f)"

definition update_version :: "string \<Rightarrow> version_file op" where
  "update_version new_version f =
     (case normalize_version (VersionText new_version) of
        Inl e \<Rightarrow> (Some e, f)
      | Inr normalized \<Rightarrow>
          (None, Some ((load_version f)\<lparr>vs_current_version := normalized,
             vs_confirmed_version := normalized, vs_pending_version := [],
             vs_pending_slot := None, vs_pending_commit := False, vs_boot_attempts := 0,
             vs_last_boot_outcome := ''CONFIRMED'', vs_rollback_reason := []\<rparr>)))"

definition set_pending_version :: "string \<Rightarrow> slot option \<Rightarrow> version_file op" where
  "set_pending_version version slot f =
     (case normalize_version (VersionText version) of
        Inl e \<Rightarrow> (Some e, f)
      | Inr normalized \<Rightarrow>
          let d = (load_version f)\<lparr>vs_pending_version := normalized\<rparr>;
              d = (case slot of
                     None \<Rightarrow> d
                   | Some s \<Rightarrow> d\<lparr>vs_pending_slot := Some s, vs_pending_commit := True\<rparr>)
          in (None, Some (d\<lparr>vs_boot_attempts := 0, vs_last_boot_outcome := ''PENDING_REBOOT'',
                           vs_rollback_reason := []\<rparr>)))"

definition pending_or_active_slot :: "version_state \<Rightarrow> slot" where
  "pending_or_active_slot d = (case vs_pending_slot d of None \<Rightarrow> vs_active_slot d | Some s \<Rightarrow> s)"

definition confirm_version :: "string \<Rightarrow> version_file op" where
  "confirm_version version f =
     (case normalize_version (VersionText version) of
        Inl e \<Rightarrow> (Some e, f)
      | Inr normalized \<Rightarrow>
          let d = load_version f; slot = pending_or_active_slot d in
          (None, Some (d\<lparr>vs_current_version := normalized, vs_confirmed_version := normalized,
             vs_pending_version := [], vs_active_slot := slot, vs_confirmed_slot := slot,
             vs_pending_slot := None, vs_pending_commit := False, vs_boot_attempts := 0,
             vs_last_boot_outcome := ''CONFIRMED'', vs_rollback_reason := []\<rparr>)))"

definition boot_pending_version :: "version_file \<Rightarrow> bool \<times> version_file" where
  "boot_pending_version f =
     (let d = load_version f in
      if vs_pending_version d = [] then (False, f)
      else (True, Some (d\<lparr>vs_current_version := vs_pending_version d,
              vs_active_slot := pending_or_active_slot d, vs_pending_commit := True,
              vs_boot_attempts := vs_boot_attempts d + 1,
              vs_last_boot_outcome := ''PENDING_COMMIT''\<rparr>)))"

definition rollback_pending_version :: "string \<Rightarrow> version_file \<Rightarrow> version_file" where
  "rollback_pending_version reason f =
     (let d = load_version f in
      Some (d\<lparr>vs_current_version := vs_confirmed_version d, vs_pending_version := [],
        vs_pending_slot := None, vs_active_slot := vs_confirmed_slot d, vs_pending_commit := False,
        vs_boot_attempts := 0, vs_last_boot_outcome := ''ROLLED_BACK'',
        vs_rollback_reason := reason\<rparr>))"

section \<open>Normal versions\<close>

definition normal_version :: "string \<Rightarrow> bool" where
  "normal_version s \<longleftrightarrow> normalize_version (VersionText s) = Inr s"

lemma normal_version_normalized: "normalize_version v = Inr s \<Longrightarrow> normal_version s"
  unfolding normal_version_def by (rule normalize_version_idem)

lemma normal_version_neq_Nil: "normal_version s \<Longrightarrow> s \<noteq> []"
  by (auto simp: normal_version_def normalize_version_Inr_iff SemVer_str_def)

lemma normal_version_default: "normal_version ''1.0.0''"
proof -
  have "''1.0.0'' = SemVer_str (SemVer 1 0 0)"
    by code_simp
  then show ?thesis
    by (metis normal_version_normalized normalize_version_Inr_iff parse_version_str)
qed

definition versions_ok :: "version_file \<Rightarrow> bool" where
  "versions_ok f \<longleftrightarrow>
     (let d = load_version f in
      normal_version (vs_current_version d) \<and> normal_version (vs_confirmed_version d) \<and>
      (vs_pending_version d = [] \<or> normal_version (vs_pending_version d)) \<and>
      (vs_pending_commit d \<longrightarrow> vs_pending_version d \<noteq> []))"

lemma versions_ok_missing: "versions_ok None"
  by (simp add: versions_ok_def load_version_def default_version_state_def normal_version_default)

section \<open>Versions as an A/B update\<close>

definition stage_version :: "string \<times> slot \<Rightarrow> version_file \<Rightarrow> version_file" where
  "stage_version l f = snd (set_pending_version (fst l) (Some (snd l)) f)"

definition boot_version :: "version_file \<Rightarrow> version_file" where
  "boot_version f = snd (boot_pending_version f)"

text \<open>The post-install check confirms the version the ECU reports, the one it runs.\<close>

definition commit_version :: "version_file \<Rightarrow> version_file" where
  "commit_version f = snd (confirm_version (get_current_version f) f)"

definition pending_version :: "version_file \<Rightarrow> string option" where
  "pending_version f =
     (if vs_pending_version (load_version f) = [] then None
      else Some (vs_pending_version (load_version f)))"

definition label_ok :: "string \<times> slot \<Rightarrow> bool" where
  "label_ok l \<longleftrightarrow> (\<exists>s. normalize_version (VersionText (fst l)) = Inr s)"

definition label_version :: "string \<times> slot \<Rightarrow> string" where
  "label_version l = projr (normalize_version (VersionText (fst l)))"

lemmas version_op_defs =
  stage_version_def boot_version_def commit_version_def pending_version_def
  set_pending_version_def boot_pending_version_def confirm_version_def
  rollback_pending_version_def get_current_version_def get_confirmed_version_def
  label_ok_def label_version_def

lemma load_version_Some [simp]: "load_version (Some v) = v"
  by (simp add: load_version_def)

lemma normalize_normal: "normal_version s \<Longrightarrow> normalize_version (VersionText s) = Inr s"
  by (simp add: normal_version_def)

interpretation versions: ab_update versions_ok label_ok label_version stage_version boot_version
    commit_version rollback_pending_version get_current_version get_confirmed_version pending_version
proof
  fix f :: version_file and l r
  show "versions_ok f \<Longrightarrow> label_ok l \<Longrightarrow> versions_ok (stage_version l f)"
    by (auto simp: versions_ok_def version_op_defs Let_def normal_version_normalized
        normal_version_neq_Nil)
  show "versions_ok f \<Longrightarrow> versions_ok (boot_version f)"
    by (auto simp: versions_ok_def version_op_defs Let_def)
  show "versions_ok f \<Longrightarrow> versions_ok (commit_version f)"
    by (auto simp: versions_ok_def version_op_defs Let_def normalize_normal)
  show "versions_ok f \<Longrightarrow> versions_ok (rollback_pending_version r f)"
    by (auto simp: versions_ok_def version_op_defs Let_def)
  show "label_ok l \<Longrightarrow> pending_version (stage_version l f) = Some (label_version l)"
    using normal_version_normalized normal_version_neq_Nil by (fastforce simp: version_op_defs Let_def)
  show "get_current_version (boot_version f) =
      (case pending_version f of None \<Rightarrow> get_current_version f | Some v \<Rightarrow> v)"
    by (auto simp: version_op_defs Let_def)
qed (auto simp: version_op_defs versions_ok_def Let_def normalize_normal split: option.split)

section \<open>Runs\<close>

text \<open>A sequence of transitions; \<open>Commit\<close> confirms the version the ECU reports.\<close>

fun version_run :: "(string \<times> slot) ab_op list \<Rightarrow> version_file \<Rightarrow> version_file" where
  "version_run [] f = f"
| "version_run (Stage (v, s) # xs) f = version_run xs (snd (set_pending_version v (Some s) f))"
| "version_run (Boot # xs) f = version_run xs (snd (boot_pending_version f))"
| "version_run (Commit # xs) f = version_run xs (snd (confirm_version (get_current_version f) f))"
| "version_run (Rollback reason # xs) f = version_run xs (rollback_pending_version reason f)"

lemma version_run_ops:
  "snd (set_pending_version v (Some s) f) = stage_version (v, s) f"
  "snd (boot_pending_version f) = boot_version f"
  "snd (confirm_version (get_current_version f) f) = commit_version f"
  by (simp_all add: stage_version_def boot_version_def commit_version_def)

lemma version_run_eq: "version_run xs f = versions.ab_run xs f"
  by (induction xs f rule: version_run.induct)
    (simp add: versions.ab_run_def,
     simp_all only: version_run.simps version_run_ops versions.ab_run_Cons versions.ab_step.simps)

text \<open>Starting from a fresh ECU, the version it reports and the one it falls back to are always
  the initial one or the normal form of a version that was staged, whatever sequence of staging,
  boots, confirmations and rollbacks it goes through.\<close>

theorem reported_version_was_staged:
  assumes "\<forall>v s. Stage (v, s) \<in> set xs \<longrightarrow> (\<exists>n. normalize_version (VersionText v) = Inr n)"
    and "w \<in> {get_current_version (version_run xs None), get_confirmed_version (version_run xs None)}"
  shows "w = ''1.0.0'' \<or> (\<exists>v s. Stage (v, s) \<in> set xs \<and> normalize_version (VersionText v) = Inr w)"
proof -
  have "versions.accepted xs"
    using assms(1) by (auto simp: versions.accepted_def label_ok_def)
  from versions.known_run [OF versions_ok_missing this]
  have "w \<in> versions.known None \<union> versions.staged xs"
    using assms(2) by (auto simp: version_run_eq versions.known_def)
  then show ?thesis
    using assms(1)
    by (fastforce simp: versions.known_def versions.staged_def label_version_def version_op_defs
        load_version_def default_version_state_def)
qed

theorem reported_version_was_staged_witness:
  "get_current_version (version_run [Stage (''2.1'', SLOT_B), Boot, Commit] None) = ''1.0.0'' \<or>
   (\<exists>v s. Stage (v, s) \<in> set [Stage (''2.1'', SLOT_B), Boot, Commit] \<and> normalize_version (VersionText v) =
      Inr (get_current_version (version_run [Stage (''2.1'', SLOT_B), Boot, Commit] None)))"
proof -
  have "normalize_version (VersionText ''2.1'') = Inr ''2.1.0''" by code_simp
  with reported_version_was_staged [of "[Stage (''2.1'', SLOT_B), Boot, Commit]"
      "get_current_version (version_run [Stage (''2.1'', SLOT_B), Boot, Commit] None)"]
  show ?thesis by auto
qed

end
