(* ===== verification/ECU_Boot.thy ===== *)
theory ECU_Boot
  imports Version_Manager Firmware_Image
begin

text \<open>
  Installing firmware and rebooting: \<open>ecus/base/installer.py\<close>, \<open>ecus/base/reboot_manager.py\<close> and
  \<open>ecus/base/ecu_state.py\<close>.

  The record \<open>ecu\<close> holds the files of one ECU and the \<open>ECUState\<close> object of the running
  installation. \<open>install_steps\<close> lists the file operations of \<open>FirmwareInstaller.install\<close> in the
  order of the code, one per method call, so that a power failure is the execution of a prefix
  of the list; \<open>install\<close> runs all of it. Printing and sleeping are left out.

  The main result is crash consistency: whatever prefix of an installation was executed, the
  next reboot runs the confirmed version from the confirmed slot, or the whole new image from
  the other slot after it was read back and verified.
\<close>

section \<open>State\<close>

record ecu_state =
  es_ecu_name :: string
  es_current_version :: string
  es_firmware_status :: string
  es_reboot_count :: nat
  es_last_install_result :: string
  es_pending_slot :: "slot option"

definition new_ecu_state :: "string \<Rightarrow> string \<Rightarrow> ecu_state" where
  "new_ecu_state name version =
     \<lparr>es_ecu_name = name, es_current_version = version, es_firmware_status = ''ACTIVE'',
      es_reboot_count = 0, es_last_install_result = ''NONE'', es_pending_slot = None\<rparr>"

record ecu =
  ecu_downloads :: "string \<Rightarrow> bytes option"
  ecu_installed :: "string \<Rightarrow> bytes option"
  ecu_slots :: slot_disk
  ecu_version :: version_file
  ecu_info :: ecu_state

definition on_slots :: "slot_disk op \<Rightarrow> ecu op" where
  "on_slots f e = (let (r, d) = f (ecu_slots e) in (r, e\<lparr>ecu_slots := d\<rparr>))"

definition on_version :: "version_file op \<Rightarrow> ecu op" where
  "on_version f e = (let (r, v) = f (ecu_version e) in (r, e\<lparr>ecu_version := v\<rparr>))"

definition on_slot_dir :: "slot \<Rightarrow> slot_dir op \<Rightarrow> ecu op" where
  "on_slot_dir s f =
     on_slots (\<lambda>d. let (r, sd) = f (slot_dirs d s) in (r, d\<lparr>slot_dirs := (slot_dirs d)(s := sd)\<rparr>))"

definition set_info :: "(ecu_state \<Rightarrow> ecu_state) \<Rightarrow> ecu op" where
  "set_info f e = (None, e\<lparr>ecu_info := f (ecu_info e)\<rparr>)"

section \<open>Reboot\<close>

definition rolled_back_online :: "ecu op" where
  "rolled_back_online e =
     set_info (\<lambda>i. i\<lparr>es_current_version := get_current_version (ecu_version e),
        es_firmware_status := ''ROLLED_BACK'', es_last_install_result := ''ROLLBACK'',
        es_reboot_count := es_reboot_count i + 1\<rparr>) e"

definition roll_back :: "string \<Rightarrow> ecu op" where
  "roll_back reason =
     run_steps
       [on_version (\<lambda>f. (None, rollback_pending_version reason f)),
        on_slots (rollback_pending reason),
        rolled_back_online]"

definition pending_online :: "ecu op" where
  "pending_online e =
     set_info (\<lambda>i. i\<lparr>es_current_version := get_current_version (ecu_version e),
        es_reboot_count := es_reboot_count i + 1, es_firmware_status := ''PENDING_COMMIT''\<rparr>) e"

definition reboot :: "ecu op" where
  "reboot e =
     (if pending_journal_requires_recovery (ecu_slots e)
      then roll_back ''INCOMPLETE_FLASH_JOURNAL'' e
      else if has_pending_commit (ecu_version e) \<and> should_rollback_pending (ecu_slots e)
      then roll_back ''BOOT_ATTEMPT_LIMIT_EXCEEDED'' e
      else run_steps
        [on_version (\<lambda>f. (None, if has_pending_commit f then snd (boot_pending_version f) else f)),
         on_slots activate_pending,
         pending_online] e)"

section \<open>Installation\<close>

definition install_flash_config :: "image_metadata \<Rightarrow> flash_config" where
  "install_flash_config m =
     \<lparr>base_address = img_flash_address m,
      partition_size = max SECTOR_SIZE
        ((img_payload_size m + SECTOR_SIZE - 1) div SECTOR_SIZE * SECTOR_SIZE),
      page_size = (if img_payload_size m > 1000000 then 65536 else PAGE_SIZE),
      sector_size = SECTOR_SIZE\<rparr>"

text \<open>The programming loop: one \<open>program\<close> call per page of the payload.\<close>

function program_calls :: "flash_config \<Rightarrow> nat \<Rightarrow> bytes \<Rightarrow> slot_dir op list" where
  "program_calls fl address payload =
     (if payload = [] \<or> page_size fl = 0 then []
      else flash_program fl address (take (page_size fl) payload) #
           program_calls fl (address + page_size fl) (drop (page_size fl) payload))"
  by pat_completeness auto
termination
  by (relation "measure (\<lambda>(_, _, p). length p)") auto

declare program_calls.simps [simp del]

definition program_steps :: "flash_config \<Rightarrow> slot \<Rightarrow> nat \<Rightarrow> bytes \<Rightarrow> ecu op list" where
  "program_steps fl s address payload = map (on_slot_dir s) (program_calls fl address payload)"

definition stage_step :: "string \<Rightarrow> ecu op" where
  "stage_step file e =
     (let (r, d) = stage_firmware (ecu_downloads e file) file (ecu_slots e) in
      case r of
        Inl err \<Rightarrow> (Some err, e\<lparr>ecu_slots := d\<rparr>)
      | Inr _ \<Rightarrow> (None, e\<lparr>ecu_slots := d, ecu_downloads := (ecu_downloads e)(file := None)\<rparr>))"

definition verify_step :: "flash_config \<Rightarrow> slot \<Rightarrow> image_metadata \<Rightarrow> bytes \<Rightarrow> ecu op" where
  "verify_step fl s m payload e =
     (let d = slot_dirs (ecu_slots e) s in
      case flash_verify fl (img_flash_address m) payload d of
        Inl err \<Rightarrow> (Some err, e)
      | Inr ok \<Rightarrow>
          if \<not> ok then (Some (RuntimeError ''Flash readback verification failed''), e)
          else case flash_sha256 fl (img_flash_address m) (length payload) d of
            Inl err \<Rightarrow> (Some err, e)
          | Inr digest \<Rightarrow>
              if digest \<noteq> img_payload_sha256 m
              then (Some (RuntimeError ''Flash payload SHA256 verification failed''), e)
              else (None, e))"

definition prepare_steps :: "string \<Rightarrow> string \<Rightarrow> image_metadata \<Rightarrow> slot \<Rightarrow> ecu op list" where
  "prepare_steps file version m s =
     (let fl = install_flash_config m in
      [on_slot_dir s (flash_initialize fl),
       on_slot_dir s (\<lambda>d. (None, update_journal fl ''PREPARED''
         [(''firmware_file'', JText file), (''target_version'', JText version)] d)),
       on_slot_dir s (erase_region fl (img_flash_address m) (img_payload_size m))])"

definition pending_steps :: "string \<Rightarrow> string \<Rightarrow> string \<Rightarrow> image_metadata \<Rightarrow> slot \<Rightarrow> ecu op list" where
  "pending_steps name file version m s =
     (let fl = install_flash_config m in
      [stage_step file,
       on_slot_dir s (\<lambda>d. (None, write_control_block fl
         [(''ecu_name'', JText name), (''slot'', JText (slot_name s)),
          (''firmware_file'', JText file), (''target_version'', JText version),
          (''flash_address'', JHex (img_flash_address m)),
          (''payload_size'', JNum (img_payload_size m)),
          (''payload_sha256'', JText (img_payload_sha256 m)),
          (''image_format'', JText (img_image_format m)),
          (''build_number'', JNum (img_build_number m)), (''bootable'', JBool True),
          (''confirmed'', JBool False), (''active'', JBool False),
          (''rollback_reason'', JText [])] d)),
       on_slots (mark_pending s file version),
       on_version (set_pending_version version (Some s)),
       set_info (\<lambda>i. i\<lparr>es_pending_slot := Some s, es_firmware_status := ''VERIFYING''\<rparr>)])"

definition verified_steps :: "string \<Rightarrow> image_metadata \<Rightarrow> bytes \<Rightarrow> slot \<Rightarrow> ecu op list" where
  "verified_steps version m payload s =
     (let fl = install_flash_config m in
      [verify_step fl s m payload,
       on_slot_dir s (\<lambda>d. (None, record_payload_metadata fl (img_flash_address m) payload d)),
       on_slot_dir s (\<lambda>d. (None, update_journal fl ''VERIFIED''
         [(''verify_address'', JHex (img_flash_address m)),
          (''verify_size'', JNum (img_payload_size m)),
          (''payload_sha256'', JText (img_payload_sha256 m))] d)),
       (\<lambda>e. set_info (\<lambda>i. i\<lparr>es_current_version := get_current_version (ecu_version e),
          es_firmware_status := ''PENDING_REBOOT'', es_last_install_result := ''PENDING_COMMIT''\<rparr>) e),
       on_slot_dir s (\<lambda>d. (None, update_journal fl ''PENDING_ACTIVATION''
         [(''pending_slot'', JText (slot_name s)), (''target_version'', JText version)] d))])"

definition install_steps ::
    "string \<Rightarrow> string \<Rightarrow> string \<Rightarrow> image_metadata \<Rightarrow> bytes \<Rightarrow> slot \<Rightarrow> ecu op list" where
  "install_steps name file version m payload s =
     prepare_steps file version m s @
     program_steps (install_flash_config m) s (img_flash_address m) payload @
     pending_steps name file version m s @
     verified_steps version m payload s"

text \<open>
  \<open>FirmwareInstaller.install\<close>. The pending slot is the one that is inactive when programming
  starts; staging computes it again and finds the same.
\<close>

definition begin_install :: "string \<Rightarrow> string \<Rightarrow> ecu \<Rightarrow> ecu" where
  "begin_install name file e =
     e\<lparr>ecu_info := (new_ecu_state name (get_current_version (ecu_version e)))
         \<lparr>es_firmware_status := ''PROGRAMMING''\<rparr>,
       ecu_installed := (ecu_installed e)(file := None)\<rparr>"

definition install :: "string \<Rightarrow> string \<Rightarrow> string \<Rightarrow> ecu op" where
  "install name file version e =
     (let e = begin_install name file e in
      case ecu_downloads e file of
        None \<Rightarrow> (Some (FileNotFoundError file), e)
      | Some img \<Rightarrow>
          (case extract_firmware_payload img of
             Inl err \<Rightarrow> (Some err, e)
           | Inr (m, payload) \<Rightarrow>
               run_steps
                 (install_steps name file version m payload (inactive_slot (ecu_slots e)) @ [reboot]) e))"

section \<open>The phases of an installation\<close>

text \<open>
  What the installation is about, and how far it has come: nothing marked (\<open>unstaged\<close>,
  \<open>programming\<close>), the slot pending while its journal is incomplete (\<open>interrupted\<close>, \<open>staging\<close>,
  \<open>verified\<close>), or everything verified (\<open>complete\<close>). Each is \<open>recoverable\<close>.
\<close>

record install_ctx =
  cx_old_slot :: slot
  cx_old_version :: string
  cx_slot :: slot
  cx_version :: string
  cx_flash :: flash_config
  cx_address :: nat
  cx_payload :: bytes

definition idle :: "install_ctx \<Rightarrow> ecu \<Rightarrow> bool" where
  "idle c e \<longleftrightarrow>
     (let st = load_state (ecu_slots e); v = load_version (ecu_version e) in
      st_max_boot_attempts st = 1 \<and> st_active_slot st = cx_old_slot c \<and> st_confirmed_slot st = cx_old_slot c \<and>
      vs_current_version v = cx_old_version c \<and> vs_confirmed_version v = cx_old_version c)"

definition unstaged :: "install_ctx \<Rightarrow> ecu \<Rightarrow> bool" where
  "unstaged c e \<longleftrightarrow> idle c e \<and> st_pending_slot (load_state (ecu_slots e)) = None \<and>
     \<not> has_pending_commit (ecu_version e)"

definition incomplete_journal :: "install_ctx \<Rightarrow> ecu \<Rightarrow> bool" where
  "incomplete_journal c e \<longleftrightarrow>
     (\<exists>s \<in> set INCOMPLETE_JOURNAL_STATES.
        journal_state (slot_dirs (ecu_slots e) (cx_slot c)) = Some (JText s))"

definition marked :: "install_ctx \<Rightarrow> ecu \<Rightarrow> bool" where
  "marked c e \<longleftrightarrow> idle c e \<and> st_pending_slot (load_state (ecu_slots e)) = Some (cx_slot c) \<and>
     st_boot_attempts (load_state (ecu_slots e)) = 0"

definition version_staged :: "install_ctx \<Rightarrow> ecu \<Rightarrow> bool" where
  "version_staged c e \<longleftrightarrow>
     pending_version (ecu_version e) = Some (cx_version c) \<and> has_pending_commit (ecu_version e)"

definition image_in_flash :: "install_ctx \<Rightarrow> ecu \<Rightarrow> bool" where
  "image_in_flash c e \<longleftrightarrow>
     flash_holds (cx_flash c) (slot_dirs (ecu_slots e) (cx_slot c))
       (cx_address c - base_address (cx_flash c)) (cx_payload c)"

definition ready :: "install_ctx \<Rightarrow> ecu \<Rightarrow> bool" where
  "ready c e \<longleftrightarrow> marked c e \<and> version_staged c e \<and> image_in_flash c e"

definition recoverable :: "install_ctx \<Rightarrow> ecu \<Rightarrow> bool" where
  "recoverable c e \<longleftrightarrow>
     unstaged c e \<or> (marked c e \<and> incomplete_journal c e) \<or>
     (ready c e \<and> \<not> incomplete_journal c e)"

lemma on_slot_dir_keeps [simp]:
  "load_state (ecu_slots (snd (on_slot_dir s f e))) = load_state (ecu_slots e)"
  "ecu_version (snd (on_slot_dir s f e)) = ecu_version e"
  by (simp_all add: on_slot_dir_def on_slots_def split_beta)

lemma on_slot_dir_dir [simp]:
  "slot_dirs (ecu_slots (snd (on_slot_dir s f e))) t =
     (if t = s then snd (f (slot_dirs (ecu_slots e) s)) else slot_dirs (ecu_slots e) t)"
  "fst (on_slot_dir s f e) = fst (f (slot_dirs (ecu_slots e) s))"
  by (simp_all add: on_slot_dir_def on_slots_def split_beta)

lemma set_info_keeps [simp]:
  "ecu_slots (snd (set_info f e)) = ecu_slots e"
  "ecu_version (snd (set_info f e)) = ecu_version e"
  "fst (set_info f e) = None"
  by (simp_all add: set_info_def)

lemma on_version_keeps [simp]:
  "ecu_slots (snd (on_version f e)) = ecu_slots e"
  "ecu_version (snd (on_version f e)) = snd (f (ecu_version e))"
  "fst (on_version f e) = fst (f (ecu_version e))"
  by (simp_all add: on_version_def split_beta)

lemma on_slots_keeps [simp]:
  "ecu_version (snd (on_slots f e)) = ecu_version e"
  "ecu_slots (snd (on_slots f e)) = snd (f (ecu_slots e))"
  "fst (on_slots f e) = fst (f (ecu_slots e))"
  by (simp_all add: on_slots_def split_beta)

lemma idle_slot_dir [simp]: "idle c (snd (on_slot_dir s f e)) = idle c e"
  by (simp add: idle_def Let_def)

lemma unstaged_slot_dir [simp]: "unstaged c (snd (on_slot_dir s f e)) = unstaged c e"
  by (simp add: unstaged_def)

lemma marked_slot_dir [simp]: "marked c (snd (on_slot_dir s f e)) = marked c e"
  by (simp add: marked_def)

lemma flash_journal_cases:
  "journal_state (snd (flash_program fl a p d)) \<in> {journal_state d, Some (JText ''PROGRAMMED'')}"
  "journal_state (snd (erase_region fl a n d)) \<in> {journal_state d, Some (JText ''ERASED'')}"
proof -
  show "journal_state (snd (flash_program fl a p d)) \<in> {journal_state d, Some (JText ''PROGRAMMED'')}"
    by (auto simp: flash_program_def Let_def split: sum.split option.split prod.split)
      (auto simp: journal_state_def load_journal_def)
  show "journal_state (snd (erase_region fl a n d)) \<in> {journal_state d, Some (JText ''ERASED'')}"
    by (auto simp: erase_region_def Let_def split: sum.split option.split prod.split)
qed

lemma incomplete_states: "''INITIALIZED'' \<in> set INCOMPLETE_JOURNAL_STATES"
  "''PREPARED'' \<in> set INCOMPLETE_JOURNAL_STATES" "''ERASED'' \<in> set INCOMPLETE_JOURNAL_STATES"
  "''PROGRAMMED'' \<in> set INCOMPLETE_JOURNAL_STATES" 
  "''VERIFIED'' \<notin> set INCOMPLETE_JOURNAL_STATES" "''PENDING_ACTIVATION'' \<notin> set INCOMPLETE_JOURNAL_STATES"
  by (simp_all add: INCOMPLETE_JOURNAL_STATES_def)

definition programming :: "install_ctx \<Rightarrow> ecu \<Rightarrow> bool" where
  "programming c e \<longleftrightarrow> unstaged c e \<and> incomplete_journal c e"

lemma programming_recoverable: "programming c e \<Longrightarrow> recoverable c e"
  by (simp add: programming_def recoverable_def)

lemma step_slot_dir:
  assumes "\<And>d. journal_state (snd (f d)) \<in> {journal_state d, Some (JText j)}"
    and "j \<in> set INCOMPLETE_JOURNAL_STATES"
  shows "step_to (recoverable c) (programming c) (on_slot_dir (cx_slot c) f) (programming c)"
proof (rule step_to_keep)
  fix e assume "programming c e"
  then show "programming c (snd (on_slot_dir (cx_slot c) f e))"
    using assms(1) [of "slot_dirs (ecu_slots e) (cx_slot c)"] assms(2)
    by (auto simp: programming_def incomplete_journal_def)
qed (rule programming_recoverable)

lemma program_calls_cases:
  "f \<in> set (program_calls fl a p) \<Longrightarrow> \<exists>a' q. f = flash_program fl a' q"
proof (induction fl a p rule: program_calls.induct)
  case (1 fl a p)
  then show ?case
    by (cases "p = [] \<or> page_size fl = 0") (auto simp: program_calls.simps [of fl a p])
qed

lemma program_steps_programming:
  assumes "f \<in> set (program_steps fl (cx_slot c) a p)"
  shows "step_to (recoverable c) (programming c) f (programming c)"
proof -
  obtain a' q where "f = on_slot_dir (cx_slot c) (flash_program fl a' q)"
    using assms program_calls_cases by (fastforce simp: program_steps_def)
  then show ?thesis
    by (simp only:) (rule step_slot_dir [OF flash_journal_cases(1) incomplete_states(4)])
qed

lemma stage_step_keeps [simp]:
  "load_state (ecu_slots (snd (stage_step file e))) = load_state (ecu_slots e)"
  "ecu_version (snd (stage_step file e)) = ecu_version e"
  "journal_state (slot_dirs (ecu_slots (snd (stage_step file e))) s) = journal_state (slot_dirs (ecu_slots e) s)"
  by (auto simp: stage_step_def stage_firmware_def Let_def journal_state_def load_journal_def
      split: option.split)

lemma update_control_block_journal [simp]:
  "journal_state (slot_dirs (snd (update_control_block t u d)) s) = journal_state (slot_dirs d s)"
  by (auto simp: update_control_block_def with_slot_flash_def split: option.split sum.split)

lemma mark_pending_journal [simp]:
  "journal_state (slot_dirs (snd (mark_pending t file v d)) s) = journal_state (slot_dirs d s)"
  by (simp add: mark_pending_def Let_def)

definition interrupted :: "install_ctx \<Rightarrow> ecu \<Rightarrow> bool" where
  "interrupted c e \<longleftrightarrow> marked c e \<and> incomplete_journal c e"

lemma interrupted_recoverable: "interrupted c e \<Longrightarrow> recoverable c e"
  by (simp add: interrupted_def recoverable_def)

lemma step_stage: "step_to (recoverable c) (programming c) (stage_step file) (programming c)"
  by (rule step_to_keep [OF _ programming_recoverable])
    (simp_all add: programming_def unstaged_def idle_def incomplete_journal_def)

lemma step_initialize:
  "step_to (recoverable c) (unstaged c) (on_slot_dir (cx_slot c) (flash_initialize fl)) (programming c)"
  by (auto simp: step_to_def programming_def incomplete_journal_def flash_initialize_erased
      incomplete_states recoverable_def)

lemma step_mark_pending:
  "step_to (recoverable c) (programming c) (on_slots (mark_pending (cx_slot c) file v)) (interrupted c)"
proof -
  have "interrupted c (snd (on_slots (mark_pending (cx_slot c) file v) e))" if "programming c e" for e
    using that by (simp add: programming_def interrupted_def marked_def unstaged_def idle_def
        incomplete_journal_def mark_pending_state Let_def)
  then show ?thesis
    by (simp add: step_to_def interrupted_recoverable programming_recoverable)
qed

definition staging :: "install_ctx \<Rightarrow> ecu \<Rightarrow> bool" where
  "staging c e \<longleftrightarrow> interrupted c e \<and> version_staged c e"

lemma staging_recoverable: "staging c e \<Longrightarrow> recoverable c e"
  by (simp add: staging_def interrupted_recoverable)

lemma step_set_pending:
  assumes "normalize_version (VersionText v) = Inr (cx_version c)"
  shows "step_to (recoverable c) (interrupted c)
           (on_version (set_pending_version v (Some (cx_slot c)))) (staging c)"
  unfolding step_to_def
proof (intro allI impI conjI)
  fix e assume e: "interrupted c e"
  then show "recoverable c e" by (rule interrupted_recoverable)
  have "staging c (snd (on_version (set_pending_version v (Some (cx_slot c))) e))"
    using e assms normal_version_neq_Nil [OF normal_version_normalized [OF assms]]
    by (simp add: staging_def interrupted_def marked_def idle_def incomplete_journal_def
        version_staged_def set_pending_version_def pending_version_def has_pending_commit_def Let_def)
  then show "if fst (on_version (set_pending_version v (Some (cx_slot c))) e) = None
    then staging c (snd (on_version (set_pending_version v (Some (cx_slot c))) e))
    else recoverable c (snd (on_version (set_pending_version v (Some (cx_slot c))) e))"
    by (simp add: staging_recoverable)
qed

lemma incomplete_same_slots:
  "ecu_slots e' = ecu_slots e \<Longrightarrow> incomplete_journal c e' = incomplete_journal c e"
  by (simp add: incomplete_journal_def)

lemma set_info_phases [simp]:
  "unstaged c (snd (set_info f e)) = unstaged c e"
  "marked c (snd (set_info f e)) = marked c e"
  "incomplete_journal c (snd (set_info f e)) = incomplete_journal c e"
  "version_staged c (snd (set_info f e)) = version_staged c e"
  "image_in_flash c (snd (set_info f e)) = image_in_flash c e"
  by (simp_all add: unstaged_def marked_def idle_def incomplete_journal_def version_staged_def
      image_in_flash_def)

definition verified :: "install_ctx \<Rightarrow> ecu \<Rightarrow> bool" where
  "verified c e \<longleftrightarrow> staging c e \<and> image_in_flash c e"

lemma flash_verify_holds:
  "flash_verify fl a p d = Inr True \<Longrightarrow> flash_holds fl d (a - base_address fl) p"
  by (auto simp: flash_verify_def flash_read_def flash_offset_def flash_holds_def bindE_Inr_iff
      split: if_splits option.splits)

lemma step_verify:
  assumes "cx_address c = img_flash_address m" and "cx_payload c = p"
  shows "step_to (recoverable c) (staging c) (verify_step (cx_flash c) (cx_slot c) m p) (verified c)"
  using assms
  by (auto simp: step_to_def verify_step_def Let_def staging_recoverable verified_def
      image_in_flash_def flash_verify_holds split: sum.split)

lemma verified_recoverable: "verified c e \<Longrightarrow> recoverable c e"
  by (simp add: verified_def staging_recoverable)

lemma image_in_flash_slot_dir:
  "(\<And>d. flash_file (snd (f d)) = flash_file d) \<Longrightarrow>
     image_in_flash c (snd (on_slot_dir s f e)) = image_in_flash c e"
  by (simp add: image_in_flash_def flash_holds_def)

lemma version_staged_slot_dir [simp]:
  "version_staged c (snd (on_slot_dir s f e)) = version_staged c e"
  by (simp add: version_staged_def)

lemma step_record:
  "step_to (recoverable c) (verified c)
     (on_slot_dir (cx_slot c) (\<lambda>d. (None, record_payload_metadata fl a p d))) (verified c)"
  by (rule step_to_keep [OF _ verified_recoverable])
    (auto simp: verified_def staging_def interrupted_def incomplete_journal_def image_in_flash_slot_dir)

definition complete :: "install_ctx \<Rightarrow> ecu \<Rightarrow> bool" where
  "complete c e \<longleftrightarrow> ready c e \<and> \<not> incomplete_journal c e"

lemma complete_recoverable: "complete c e \<Longrightarrow> recoverable c e"
  by (simp add: complete_def recoverable_def)

lemma journal_completes:
  assumes "\<forall>(k, v) \<in> set x. k \<noteq> ''state''" and "st \<notin> set INCOMPLETE_JOURNAL_STATES" and "ready c e"
  shows "complete c (snd (on_slot_dir (cx_slot c) (\<lambda>d. (None, update_journal fl st x d)) e))"
  using assms
  by (simp add: complete_def ready_def incomplete_journal_def image_in_flash_slot_dir)

lemma step_verified_journal:
  assumes "\<forall>(k, v) \<in> set x. k \<noteq> ''state''" and "st \<notin> set INCOMPLETE_JOURNAL_STATES"
    and "\<And>e. P e \<Longrightarrow> ready c e \<and> recoverable c e"
  shows "step_to (recoverable c) P
           (on_slot_dir (cx_slot c) (\<lambda>d. (None, update_journal fl st x d))) (complete c)"
  using assms(3) journal_completes [OF assms(1,2)] by (auto simp: step_to_def complete_recoverable)

definition context_of :: "string \<Rightarrow> image_metadata \<Rightarrow> bytes \<Rightarrow> ecu \<Rightarrow> install_ctx" where
  "context_of version m payload e =
     \<lparr>cx_old_slot = active_slot (ecu_slots e), cx_old_version = get_current_version (ecu_version e),
      cx_slot = inactive_slot (ecu_slots e),
      cx_version = projr (normalize_version (VersionText version)),
      cx_flash = install_flash_config m, cx_address = img_flash_address m, cx_payload = payload\<rparr>"

text \<open>An ECU that runs what it has confirmed and has nothing pending.\<close>

definition settled :: "ecu \<Rightarrow> bool" where
  "settled e \<longleftrightarrow>
     pending_slot (ecu_slots e) = None \<and> active_slot (ecu_slots e) = confirmed_slot (ecu_slots e) \<and>
     st_max_boot_attempts (load_state (ecu_slots e)) = 1 \<and>
     \<not> has_pending_commit (ecu_version e) \<and>
     get_current_version (ecu_version e) = get_confirmed_version (ecu_version e)"

lemma settled_unstaged: "settled e \<Longrightarrow> unstaged (context_of version m p e) e"
  by (auto simp: settled_def unstaged_def idle_def context_of_def pending_slot_def active_slot_def
      confirmed_slot_def get_current_version_def get_confirmed_version_def Let_def)

lemma install_steps_crash_safe:
  assumes "normalize_version (VersionText version) = Inr v" and "settled e"
    and c: "c = context_of version m payload e"
  shows "crash_safe (recoverable c) (complete c)
           (install_steps name file version m payload (inactive_slot (ecu_slots e))) e"
proof -
  have s: "inactive_slot (ecu_slots e) = cx_slot c" and fl: "install_flash_config m = cx_flash c"
    and a: "img_flash_address m = cx_address c" and p: "payload = cx_payload c"
    and v: "normalize_version (VersionText version) = Inr (cx_version c)"
    using assms by (simp_all add: context_of_def)
  note program = program_steps_programming [of _ "cx_flash c" c "cx_address c" "cx_payload c"]
  have info: "step_to (recoverable c) (staging c) (set_info f) (staging c)" for f
    by (rule step_to_keep [OF _ staging_recoverable]) (simp_all add: staging_def interrupted_def)
  have info': "step_to (recoverable c) (complete c) (\<lambda>e. set_info (f e) e) (complete c)" for f
    by (rule step_to_keep [OF _ complete_recoverable]) (simp_all add: complete_def ready_def)
  have control: "step_to (recoverable c) (programming c)
      (on_slot_dir (cx_slot c) (\<lambda>d. (None, write_control_block (cx_flash c) u d))) (programming c)" for u
    by (rule step_slot_dir [where j = "''ERASED''"]) (simp_all add: incomplete_states)
  have prepared: "step_to (recoverable c) (programming c)
      (on_slot_dir (cx_slot c) (\<lambda>d. (None, update_journal (cx_flash c) ''PREPARED''
        [(''firmware_file'', JText file), (''target_version'', JText version)] d))) (programming c)"
    by (rule step_slot_dir [where j = "''PREPARED''"]) (simp_all add: incomplete_states)
  have erase: "step_to (recoverable c) (programming c)
      (on_slot_dir (cx_slot c) (erase_region (cx_flash c) (cx_address c) n)) (programming c)" for n
    by (rule step_slot_dir [OF flash_journal_cases(2) incomplete_states(3)])
  have verify: "step_to (recoverable c) (staging c)
      (verify_step (cx_flash c) (cx_slot c) m (cx_payload c)) (verified c)"
    by (rule step_verify) (simp_all add: a)
  have verified: "step_to (recoverable c) (verified c) (on_slot_dir (cx_slot c)
      (\<lambda>d. (None, update_journal (cx_flash c) ''VERIFIED'' [(''verify_address'', JHex x),
        (''verify_size'', JNum y), (''payload_sha256'', JText z)] d))) (complete c)" for x y z
    by (rule step_verified_journal)
      (simp_all add: incomplete_states verified_recoverable, simp add: verified_def staging_def
        interrupted_def ready_def)
  have activation: "step_to (recoverable c) (complete c) (on_slot_dir (cx_slot c)
      (\<lambda>d. (None, update_journal (cx_flash c) ''PENDING_ACTIVATION''
        [(''pending_slot'', JText x), (''target_version'', JText y)] d))) (complete c)" for x y
    by (rule step_verified_journal)
      (simp_all add: incomplete_states complete_recoverable, simp add: complete_def)
  have tail: "crash_safe (recoverable c) (complete c) (verified_steps version m payload (cx_slot c)) e" if "staging c e" for e
    unfolding verified_steps_def Let_def fl a p
    apply (rule crash_safe_step [OF verify that])
    apply (rule crash_safe_step [OF step_record], assumption)
    apply (rule crash_safe_step [OF verified], assumption)
    apply (rule crash_safe_step [OF info'], assumption)
    apply (rule crash_safe_step [OF activation], assumption)
    apply (simp add: complete_recoverable)
    done
  have mid: "crash_safe (recoverable c) (complete c)
      (pending_steps name file version m (cx_slot c) @ verified_steps version m payload (cx_slot c)) e"
    if "programming c e" for e
    unfolding pending_steps_def Let_def fl a append.simps
    apply (rule crash_safe_step [OF step_stage that])
    apply (rule crash_safe_step [OF control], assumption)
    apply (rule crash_safe_step [OF step_mark_pending], assumption)
    apply (rule crash_safe_step [OF step_set_pending [OF v]], assumption)
    apply (rule crash_safe_step [OF info], assumption)
    by (rule tail)
  show ?thesis
    unfolding install_steps_def prepare_steps_def Let_def s fl a p append.simps
    apply (rule crash_safe_step [OF step_initialize])
    subgoal using settled_unstaged [OF assms(2), of version m payload] c by simp
    apply (rule crash_safe_step [OF prepared], assumption)
    apply (rule crash_safe_step [OF erase], assumption)
    by (rule crash_safe_keep [OF program _ mid [unfolded p]])
qed

section \<open>Rebooting\<close>

lemma recovery_iff:
  "marked c e \<Longrightarrow> pending_journal_requires_recovery (ecu_slots e) \<longleftrightarrow> incomplete_journal c e"
  by (auto simp: marked_def pending_journal_requires_recovery_def incomplete_journal_def
      split: option.splits jval.splits)

lemma boot_steps_result:
  assumes "\<And>e. ecu_slots (snd (k e)) = ecu_slots e" and "\<And>e. ecu_version (snd (k e)) = ecu_version e"
  shows "ecu_version (snd (run_steps [on_version (\<lambda>f. (None, h f)), on_slots g, k] e)) = h (ecu_version e)"
    and "ecu_slots (snd (run_steps [on_version (\<lambda>f. (None, h f)), on_slots g, k] e)) = snd (g (ecu_slots e))"
proof -
  let ?e1 = "snd (on_version (\<lambda>f. (None, h f)) e)"
  let ?e2 = "snd (on_slots g ?e1)"
  have steps: "snd (run_steps [on_version (\<lambda>f. (None, h f)), on_slots g, k] e) \<in> {?e2, snd (k ?e2)}"
    by (cases "fst (on_slots g ?e1)"; cases "fst (k ?e2)")
      (simp_all add: run_steps_ok run_steps_raises)
  then show "ecu_version (snd (run_steps [on_version (\<lambda>f. (None, h f)), on_slots g, k] e)) = h (ecu_version e)"
    and "ecu_slots (snd (run_steps [on_version (\<lambda>f. (None, h f)), on_slots g, k] e)) = snd (g (ecu_slots e))"
    using assms by auto
qed

lemma rolled_back_online_keeps [simp]:
  "ecu_slots (snd (rolled_back_online e)) = ecu_slots e"
  "ecu_version (snd (rolled_back_online e)) = ecu_version e"
  by (simp_all add: rolled_back_online_def)

lemma pending_online_keeps [simp]:
  "ecu_slots (snd (pending_online e)) = ecu_slots e"
  "ecu_version (snd (pending_online e)) = ecu_version e"
  by (simp_all add: pending_online_def)

lemma roll_back_result:
  "active_slot (ecu_slots (snd (roll_back r e))) = confirmed_slot (ecu_slots e)"
  "get_current_version (ecu_version (snd (roll_back r e))) = get_confirmed_version (ecu_version e)"
  by (simp_all add: roll_back_def boot_steps_result active_slot_def confirmed_slot_def
      rollback_pending_state get_current_version_def get_confirmed_version_def
      rollback_pending_version_def Let_def)

lemma reboot_boots:
  assumes "\<not> pending_journal_requires_recovery (ecu_slots e)"
    and "\<not> (has_pending_commit (ecu_version e) \<and> should_rollback_pending (ecu_slots e))"
  shows "active_slot (ecu_slots (snd (reboot e))) =
           (case pending_slot (ecu_slots e) of None \<Rightarrow> active_slot (ecu_slots e) | Some s \<Rightarrow> s)"
    and "get_current_version (ecu_version (snd (reboot e))) =
           (if has_pending_commit (ecu_version e)
            then case pending_version (ecu_version e) of
                   None \<Rightarrow> get_current_version (ecu_version e) | Some v \<Rightarrow> v
            else get_current_version (ecu_version e))"
  using assms slots.running_boot [of "ecu_slots e"]
  by (auto simp: reboot_def boot_steps_result boot_slot_def boot_pending_version_def Let_def
      get_current_version_def pending_version_def has_pending_commit_def)

lemma with_slot_flash_keeps_flash:
  "flash_file (slot_dirs (snd (activate_pending d)) s) = flash_file (slot_dirs d s)"
proof (cases "st_pending_slot (load_state d)")
  case None
  then show ?thesis by (simp add: activate_pending_def)
next
  case (Some p)
  then show ?thesis
    unfolding activate_pending_def Let_def Some option.case
    by (intro run_steps_invariant [where P = "\<lambda>d'. flash_file (slot_dirs d' s) = flash_file (slot_dirs d s)"])
      auto
qed

text \<open>Where the ECU ends up, for every recoverable state.\<close>

definition old_software :: "install_ctx \<Rightarrow> ecu \<Rightarrow> bool" where
  "old_software c e \<longleftrightarrow>
     active_slot (ecu_slots e) = cx_old_slot c \<and> get_current_version (ecu_version e) = cx_old_version c"

definition new_software :: "install_ctx \<Rightarrow> ecu \<Rightarrow> bool" where
  "new_software c e \<longleftrightarrow>
     active_slot (ecu_slots e) = cx_slot c \<and> get_current_version (ecu_version e) = cx_version c \<and>
     image_in_flash c e"

lemma reboot_interrupted:
  assumes "marked c e" and "incomplete_journal c e"
  shows "old_software c (snd (reboot e))"
  using assms recovery_iff [OF assms(1)]
  by (simp add: reboot_def old_software_def roll_back_result marked_def idle_def confirmed_slot_def
      get_confirmed_version_def Let_def)

lemma reboot_complete:
  assumes "complete c e"
  shows "new_software c (snd (reboot e))"
proof -
  have m: "marked c e" and v: "version_staged c e" and i: "image_in_flash c e"
    and j: "\<not> pending_journal_requires_recovery (ecu_slots e)"
    using assms recovery_iff [of c e] by (auto simp: complete_def ready_def)
  have r: "\<not> should_rollback_pending (ecu_slots e)"
    using m by (simp add: should_rollback_pending_def marked_def idle_def Let_def)
  have "slot_dirs (ecu_slots (snd (reboot e))) =
        slot_dirs (snd (activate_pending (ecu_slots e)))"
    using j r by (simp add: reboot_def boot_steps_result)
  then have "image_in_flash c (snd (reboot e))"
    using i by (simp add: image_in_flash_def flash_holds_def with_slot_flash_keeps_flash)
  then show ?thesis
    using reboot_boots [OF j] r m v
    by (simp add: new_software_def marked_def version_staged_def pending_slot_def)
qed

lemma reboot_unstaged:
  assumes "unstaged c e"
  shows "old_software c (snd (reboot e))"
proof -
  have "\<not> pending_journal_requires_recovery (ecu_slots e)"
    using assms by (simp add: unstaged_def pending_journal_requires_recovery_def)
  then show ?thesis
    using reboot_boots [of e] assms
    by (simp add: old_software_def unstaged_def idle_def pending_slot_def active_slot_def
        get_current_version_def Let_def)
qed

lemma reboot_recovers:
  assumes "recoverable c e"
  shows "old_software c (snd (reboot e)) \<or> new_software c (snd (reboot e))"
  using assms reboot_unstaged reboot_interrupted reboot_complete [of c e]
  by (auto simp: recoverable_def complete_def)

section \<open>A successful installation\<close>

lemma run_on_slot_dir:
  "run_steps (map (on_slot_dir s) fs) e =
     on_slot_dir s (run_steps fs) e"
proof (induction fs arbitrary: e)
  case Nil
  then show ?case by (simp add: on_slot_dir_def on_slots_def)
next
  case (Cons f fs)
  obtain r d where f: "f (slot_dirs (ecu_slots e) s) = (r, d)" by fastforce
  then show ?case
    using Cons.IH
    by (cases r) (simp_all add: run_steps_ok run_steps_raises on_slot_dir_def on_slots_def split_beta)
qed

lemma program_calls_succeed:
  assumes "flash_file d = Some f" and "base_address fl \<le> a" and "0 < page_size fl"
    and "a - base_address fl + length p \<le> partition_size fl"
    and "erased (a - base_address fl) (length p) f"
  shows "\<exists>d'. run_steps (program_calls fl a p) d = (None, d') \<and>
     flash_file d' = Some (take (a - base_address fl) f @ p @ drop (a - base_address fl + length p) f)"
  using assms
proof (induction "length p" arbitrary: a p d f rule: less_induct)
  case less
  let ?off = "a - base_address fl"
  show ?case
  proof (cases "p = []")
    case True
    with less.prems(1) show ?thesis by (simp add: program_calls.simps)
  next
    case False
    let ?n = "min (page_size fl) (length p)"
    let ?c = "take (page_size fl) p"
    have c: "?c = take ?n p" and rest: "drop (page_size fl) p = drop ?n p"
      by (simp_all add: min_def)
    have n: "?n \<le> length p" and "0 < ?n" using False less.prems(3) by simp_all
    let ?g = "take ?off f @ take ?n p @ drop (?off + ?n) f"
    have "erased ?off (length ?c) f"
      using less.prems(5) by (rule erased_prefix) simp
    then obtain d1 where d1: "flash_program fl a ?c d = (None, d1)" "flash_file d1 = Some ?g"
      using flash_program_erased [OF less.prems(1,2,3) refl, of ?c] less.prems(4) unfolding c
      by (metis (no_types, lifting) add_le_cancel_left le_trans length_take min.absorb2 n)
    have len: "?off + length p \<le> length f" using less.prems(5) by (simp add: erased_def)
    note glue = prefix_then_suffix [OF len n refl]
    show ?thesis
    proof (cases "page_size fl < length p")
      case True
      then have nn: "?n = page_size fl" by simp
      have off': "a + page_size fl - base_address fl = ?off + ?n"
        using nn less.prems(2) by simp
      have "\<exists>d'. run_steps (program_calls fl (a + page_size fl) (drop ?n p)) d1 = (None, d') \<and>
        flash_file d' = Some (take (?off + ?n) ?g @ drop ?n p @ drop (?off + ?n + length (drop ?n p)) ?g)"
        using less.hyps [of "drop ?n p" d1 ?g "a + page_size fl"] d1(2) less.prems n \<open>0 < ?n\<close>
          erased_after_prefix [OF less.prems(5) n]
        unfolding off' by simp
      then show ?thesis
        using False less.prems(3) d1(1) unfolding glue
        by (simp add: program_calls.simps [of fl a p] run_steps_ok rest)
    next
      case short: False
      then have "?n = length p" and "drop (page_size fl) p = []" by simp_all
      then show ?thesis
        using False less.prems(3) d1
        by (simp add: program_calls.simps [of fl a p] run_steps_ok program_calls.simps [of fl _ "[]"])
    qed
  qed
qed

lemma install_partition:
  "img_payload_size m \<le> partition_size (install_flash_config m)"
  "base_address (install_flash_config m) = img_flash_address m"
  "0 < page_size (install_flash_config m)" "0 < sector_size (install_flash_config m)"
proof -
  have "n \<le> (n + 4096 - 1) div 4096 * 4096" for n :: nat
    by (rule round_up) simp
  then show "img_payload_size m \<le> partition_size (install_flash_config m)"
    by (simp add: install_flash_config_def le_max_iff_disj)
qed (simp_all add: install_flash_config_def)

lemma prepare_succeeds:
  "\<exists>d' g. run_steps
     [flash_initialize fl, \<lambda>d. (None, update_journal fl st x d),
      erase_region fl a n] d = (None, d') \<and> flash_file d' = Some g \<and>
     length g = partition_size fl \<and> erased 0 n g"
  if "a = base_address fl" "n \<le> partition_size fl" "0 < sector_size fl"
proof -
  let ?d = "update_journal fl st x (snd (flash_initialize fl d))"
  have erased_file: "flash_file ?d = Some (replicate (partition_size fl) ERASED_BYTE)"
    by (simp add: flash_initialize_erased)
  have sector: "0 < sector_size fl" by (rule that(3))
  have "base_address fl \<le> a" and "a - base_address fl + n \<le> partition_size fl"
    using that by simp_all
  then obtain d' g
    where "erase_region fl a n ?d = (None, d')" "flash_file d' = Some g"
      "length g = partition_size fl" "erased (a - base_address fl) n g"
    by (rule erase_region_erases [OF erased_file length_replicate sector])
  then show ?thesis using that(1) by (simp add: run_steps_ok flash_initialize_erased)
qed

text \<open>The flash operations of an installation succeed and leave the payload in the slot.\<close>

lemma flash_steps_succeed:
  assumes "length p = img_payload_size m" and fl: "fl = install_flash_config m"
  shows "\<exists>d'. run_steps
     ([flash_initialize fl, \<lambda>d. (None, update_journal fl st x d),
      erase_region fl (img_flash_address m) (img_payload_size m)] @
      program_calls fl (img_flash_address m) p) d = (None, d') \<and>
     flash_holds fl d' 0 p"
proof -
  note part = install_partition [of m, folded fl]
  obtain d1 g where d1: "run_steps
     [flash_initialize fl, \<lambda>d. (None, update_journal fl st x d),
      erase_region fl (img_flash_address m) (img_payload_size m)] d = (None, d1)"
    and g: "flash_file d1 = Some g" "length g = partition_size fl" "erased 0 (img_payload_size m) g"
    using prepare_succeeds [of "img_flash_address m" fl "img_payload_size m"] part by metis
  obtain d2 where "run_steps (program_calls fl (img_flash_address m) p) d1 = (None, d2)"
    and "flash_file d2 = Some (p @ drop (length p) g)"
    using program_calls_succeed [OF g(1), of fl "img_flash_address m" p] part g(3) assms(1) by auto
  then show ?thesis
    by (simp only: run_steps_append d1) (simp add: flash_holds_def)
qed

text \<open>The rest of the installation cannot fail once the payload is in the flash.\<close>

lemma run_steps_cons_None: "fst (f s) = None \<Longrightarrow> fst (run_steps (f # fs) s) = fst (run_steps fs (snd (f s)))"
  by (simp add: run_steps_ok)

lemma stage_step_more [simp]:
  "layout_file (slot_dirs (ecu_slots (snd (stage_step file e))) s) = layout_file (slot_dirs (ecu_slots e) s)"
  "flash_file (slot_dirs (ecu_slots (snd (stage_step file e))) s) = flash_file (slot_dirs (ecu_slots e) s)"
  by (auto simp: stage_step_def stage_firmware_def Let_def split: option.split)

lemma on_slot_dir_downloads [simp]: "ecu_downloads (snd (on_slot_dir s f e)) = ecu_downloads e"
  by (simp add: on_slot_dir_def on_slots_def split_beta)

lemma stage_step_total: "ecu_downloads e file \<noteq> None \<Longrightarrow> fst (stage_step file e) = None"
  by (auto simp: stage_step_def stage_firmware_def Let_def)

lemma mark_pending_layout [simp]:
  "layout_file (slot_dirs (snd (mark_pending t file v d)) s) = layout_file (slot_dirs d s)"
  "flash_file (slot_dirs (snd (mark_pending t file v d)) s) = flash_file (slot_dirs d s)"
  by (simp_all add: mark_pending_def Let_def)

lemma mark_pending_total: "layouts_ok d \<Longrightarrow> fst (mark_pending t file v d) = None"
  by (simp add: mark_pending_def Let_def)

lemma reboot_total: "layouts_ok (ecu_slots e) \<Longrightarrow> fst (reboot e) = None"
  by (simp add: reboot_def roll_back_def run_steps_ok rolled_back_online_def pending_online_def
      activate_pending_total rollback_pending_total)

lemma verify_step_total:
  assumes "flash_holds fl (slot_dirs (ecu_slots e) s) 0 p" and "base_address fl = img_flash_address m"
    and "length p \<le> partition_size fl" and "img_payload_sha256 m = hexdigest p"
  shows "verify_step fl s m p e = (None, e)"
proof -
  have "flash_read fl (img_flash_address m) (length p) (slot_dirs (ecu_slots e) s) = Inr p"
    using assms by (intro flash_read_holds) simp_all
  then show ?thesis
    using assms(4) by (simp add: verify_step_def flash_verify_def flash_sha256_def Let_def)
qed

lemma layouts_ok_same:
  "(\<And>s. layout_file (slot_dirs d' s) = layout_file (slot_dirs d s)) \<Longrightarrow> layouts_ok d' = layouts_ok d"
  by (simp add: layouts_ok_def)

lemma layouts_ok_slot_dir:
  "layouts_ok (ecu_slots e) \<Longrightarrow> layout_valid (snd (f (slot_dirs (ecu_slots e) s))) \<Longrightarrow>
     layouts_ok (ecu_slots (snd (on_slot_dir s f e)))"
  by (simp add: layouts_ok_iff)

definition programmed :: "image_metadata \<Rightarrow> bytes \<Rightarrow> slot \<Rightarrow> ecu \<Rightarrow> bool" where
  "programmed m p s e \<longleftrightarrow>
     layouts_ok (ecu_slots e) \<and> layout_file (slot_dirs (ecu_slots e) s) \<noteq> None \<and>
     flash_holds (install_flash_config m) (slot_dirs (ecu_slots e) s) 0 p"

lemma programmed_same:
  assumes "\<And>t. layout_file (slot_dirs (ecu_slots e') t) = layout_file (slot_dirs (ecu_slots e) t)"
    and "flash_file (slot_dirs (ecu_slots e') s) = flash_file (slot_dirs (ecu_slots e) s)"
  shows "programmed m p s e' = programmed m p s e"
  using assms by (simp add: programmed_def layouts_ok_def flash_holds_def)

lemma programmed_keeps:
  "programmed m p s e \<Longrightarrow> programmed m p s (snd (stage_step file e))"
  "programmed m p s e \<Longrightarrow> programmed m p s (snd (on_slots (mark_pending s file v) e))"
  "programmed m p s e \<Longrightarrow> programmed m p s (snd (on_version g e))"
  "programmed m p s e \<Longrightarrow> programmed m p s (snd (set_info h e))"
  "programmed m p s e \<Longrightarrow>
     programmed m p s (snd (on_slot_dir s (\<lambda>d. (None, write_control_block fl u d)) e))"
  "programmed m p s e \<Longrightarrow>
     programmed m p s (snd (on_slot_dir s (\<lambda>d. (None, update_journal fl st u d)) e))"
  by (simp_all only: programmed_same [OF stage_step_more])
    (rule programmed_same [THEN iffD2], simp_all)+

lemma programmed_metadata:
  assumes "programmed m p s e"
  shows "programmed m p s (snd (on_slot_dir s (\<lambda>d. (None, record_payload_metadata fl a p d)) e))"
proof -
  have "layout_valid (record_payload_metadata fl a p (slot_dirs (ecu_slots e) s))"
    using assms by (intro layout_valid_metadata) (auto simp: programmed_def layouts_ok_iff)
  then show ?thesis
    using assms layouts_ok_slot_dir [of e "\<lambda>d. (None, record_payload_metadata fl a p d)" s]
    by (simp add: programmed_def flash_holds_def record_payload_metadata_def)
qed

lemma flash_steps_layout:
  assumes "layouts_ok (ecu_slots e)"
  shows "layout_valid (snd (run_steps (flash_initialize fl # (\<lambda>d. (None, update_journal fl st x d)) #
           erase_region fl a n # program_calls fl a p) d))"
    and "layout_file (snd (run_steps (flash_initialize fl # (\<lambda>d. (None, update_journal fl st x d)) #
           erase_region fl a n # program_calls fl a p) d)) \<noteq> None"
proof -
  let ?P = "\<lambda>d. layout_valid d \<and> layout_file d \<noteq> None"
  have "?P (snd (flash_initialize fl d))"
    by (simp only: layout_valid_initialize) (simp add: flash_initialize_def Let_def)
  moreover have "?P (snd (g d))"
    if "g \<in> set ((\<lambda>d. (None, update_journal fl st x d)) # erase_region fl a n # program_calls fl a p)"
      and "?P d" for g d
  proof -
    from that(1) consider "g = (\<lambda>d. (None, update_journal fl st x d))" | "g = erase_region fl a n"
      | a' q where "g = flash_program fl a' q"
      using program_calls_cases by fastforce
    then show ?thesis
    proof cases
      case 1
      with that(2) show ?thesis by (simp add: layout_valid_def)
    next
      case 2
      have "layout_file (snd (erase_region fl a n d)) = layout_file d"
        by (auto simp: erase_region_def Let_def split: sum.split option.split)
      with 2 that(2) show ?thesis by (simp add: layout_valid_erase)
    next
      case 3
      with that(2) show ?thesis by (simp add: layout_valid_program)
    qed
  qed
  ultimately have "?P (snd (run_steps ((\<lambda>d. (None, update_journal fl st x d)) #
      erase_region fl a n # program_calls fl a p) (snd (flash_initialize fl d))))"
    by (rule run_steps_invariant) blast
  then show "layout_valid (snd (run_steps (flash_initialize fl # (\<lambda>d. (None, update_journal fl st x d)) #
           erase_region fl a n # program_calls fl a p) d))"
    and "layout_file (snd (run_steps (flash_initialize fl # (\<lambda>d. (None, update_journal fl st x d)) #
           erase_region fl a n # program_calls fl a p) d)) \<noteq> None"
    by (simp_all add: run_steps_ok flash_initialize_erased)
qed

lemma programming_succeeds:
  assumes "length p = img_payload_size m" and "layouts_ok (ecu_slots e)"
  shows "\<exists>e'. run_steps (prepare_steps file version m s @
           program_steps (install_flash_config m) s (img_flash_address m) p) e = (None, e') \<and>
         programmed m p s e' \<and> ecu_downloads e' = ecu_downloads e"
proof -
  let ?fl = "install_flash_config m"
  let ?x = "[(''firmware_file'', JText file), (''target_version'', JText version)]"
  let ?fs = "flash_initialize ?fl # (\<lambda>d. (None, update_journal ?fl ''PREPARED'' ?x d)) #
      erase_region ?fl (img_flash_address m) (img_payload_size m) #
      program_calls ?fl (img_flash_address m) p"
  let ?d = "slot_dirs (ecu_slots e) s"
  have steps: "prepare_steps file version m s @ program_steps ?fl s (img_flash_address m) p =
      map (on_slot_dir s) ?fs"
    by (simp add: prepare_steps_def program_steps_def Let_def)
  have run: "fst (run_steps ?fs ?d) = None" "flash_holds ?fl (snd (run_steps ?fs ?d)) 0 p"
    using flash_steps_succeed [OF assms(1) refl, of "''PREPARED''" ?x ?d] by auto
  note layout = flash_steps_layout [OF assms(2), of ?fl "''PREPARED''" ?x "img_flash_address m"
      "img_payload_size m" p ?d]
  let ?e' = "snd (on_slot_dir s (run_steps ?fs) e)"
  have "programmed m p s ?e'"
    using run layout assms(2) by (simp add: programmed_def layouts_ok_slot_dir)
  moreover have "run_steps (map (on_slot_dir s) ?fs) e = (None, ?e')"
    using run(1) by (simp only: run_on_slot_dir) (simp add: prod_eq_iff)
  ultimately show ?thesis unfolding steps by auto
qed

lemma pending_and_verified_succeed:
  assumes "programmed m p s e" and "ecu_downloads e file \<noteq> None"
    and "normalize_version (VersionText version) = Inr v"
    and "length p = img_payload_size m" and "img_payload_sha256 m = hexdigest p"
  shows "fst (run_steps (pending_steps name file version m s @ verified_steps version m p s) e) = None"
    and "programmed m p s (snd (run_steps (pending_steps name file version m s @ verified_steps version m p s) e))"
proof -
  have verify: "verify_step (install_flash_config m) s m p e = (None, e)" if "programmed m p s e" for e
    using that assms(4,5) install_partition(1,2) [of m]
    by (intro verify_step_total) (simp_all add: programmed_def)
  have mark: "fst (on_slots (mark_pending s file version) e) = None" if "programmed m p s e" for e
    using that by (simp add: mark_pending_total programmed_def)
  have version: "fst (on_version (set_pending_version version (Some s)) e) = None" for e
    using assms(3) by (simp add: set_pending_version_def Let_def)
  note keep = programmed_keeps programmed_metadata
  note run = run_steps_ok [OF stage_step_total] run_steps_ok [OF mark] run_steps_ok [OF version]
    run_steps_ok
  have "fst (run_steps (pending_steps name file version m s @ verified_steps version m p s) e) = None \<and>
     programmed m p s (snd (run_steps (pending_steps name file version m s @ verified_steps version m p s) e))"
    unfolding pending_steps_def verified_steps_def Let_def append.simps
    using assms(1,2)
    by (simp only: run keep verify on_slot_dir_dir set_info_keeps fst_conv snd_conv run_steps.simps(1) simp_thms)
  then show "fst (run_steps (pending_steps name file version m s @ verified_steps version m p s) e) = None"
    and "programmed m p s (snd (run_steps (pending_steps name file version m s @ verified_steps version m p s) e))"
    by blast+
qed

lemma install_steps_succeed:
  assumes "layouts_ok (ecu_slots e)" and "ecu_downloads e file \<noteq> None"
    and "normalize_version (VersionText version) = Inr v"
    and "length p = img_payload_size m" and "img_payload_sha256 m = hexdigest p"
  shows "fst (run_steps (install_steps name file version m p s) e) = None"
    and "layouts_ok (ecu_slots (snd (run_steps (install_steps name file version m p s) e)))"
proof -
  obtain e' where e': "run_steps (prepare_steps file version m s @
      program_steps (install_flash_config m) s (img_flash_address m) p) e = (None, e')"
    "programmed m p s e'" "ecu_downloads e' file \<noteq> None"
    using programming_succeeds [OF assms(4,1)] assms(2) by metis
  have run: "run_steps (install_steps name file version m p s) e =
      run_steps (pending_steps name file version m s @ verified_steps version m p s) e'"
    using run_steps_append [of "prepare_steps file version m s @
      program_steps (install_flash_config m) s (img_flash_address m) p"
      "pending_steps name file version m s @ verified_steps version m p s" e]
    by (simp add: install_steps_def e'(1))
  show "fst (run_steps (install_steps name file version m p s) e) = None"
    and "layouts_ok (ecu_slots (snd (run_steps (install_steps name file version m p s) e)))"
    using pending_and_verified_succeed [OF e'(2,3) assms(3,4,5), of name]
    unfolding run by (simp_all add: programmed_def)
qed

section \<open>Properties\<close>

lemma begin_install_keeps [simp]:
  "ecu_slots (begin_install name file e) = ecu_slots e"
  "ecu_version (begin_install name file e) = ecu_version e"
  "ecu_downloads (begin_install name file e) = ecu_downloads e"
  by (simp_all add: begin_install_def)

lemma begin_install_settled: "settled e \<Longrightarrow> settled (begin_install name file e)"
  by (simp add: settled_def)

lemma context_begin [simp]:
  "context_of version m p (begin_install name file e) = context_of version m p e"
  by (simp add: context_of_def)

lemmas begin_crash_safe =
  install_steps_crash_safe [OF _ begin_install_settled refl, simplified]


text \<open>
  C6: On an ECU with nothing pending, installing an image that parses succeeds and ends with the
  ECU running the new version from the slot that was inactive, which holds the payload.
\<close>

theorem install_succeeds:
  assumes "settled e" and "layouts_ok (ecu_slots e)" and "ecu_downloads e file = Some img"
    and "extract_firmware_payload img = Inr (m, p)"
    and "normalize_version (VersionText version) = Inr v"
    and "install name file version e = (r, e')" and "s = inactive_slot (ecu_slots e)"
  shows "r = None \<and> active_slot (ecu_slots e') = s \<and> get_current_version (ecu_version e') = v \<and>
         flash_holds (install_flash_config m) (slot_dirs (ecu_slots e') s) 0 p"
proof -
  let ?c = "context_of version m p e" and ?b = "begin_install name file e"
  let ?steps = "install_steps name file version m p s"
  have run: "fst (run_steps ?steps ?b) = None" "layouts_ok (ecu_slots (snd (run_steps ?steps ?b)))"
    using install_steps_succeed [OF _ _ assms(5), of ?b] assms(2,3)
      extract_payload_facts [OF assms(4)] by simp_all
  have finished: "complete ?c (snd (run_steps ?steps ?b))"
    using crash_safe_final [OF begin_crash_safe [OF assms(5,1)]] run(1) assms(7) by simp
  have "install name file version e = run_steps (?steps @ [reboot]) ?b"
    using assms(3,4,7) by (simp add: install_def Let_def)
  also have "\<dots> = reboot (snd (run_steps ?steps ?b))"
    using run by (simp add: run_steps_append run_steps_ok reboot_total split_beta prod_eq_iff split: option.split)
  finally have re: "reboot (snd (run_steps ?steps ?b)) = (r, e')"
    using assms(6) by simp
  then have "r = None" using reboot_total [OF run(2)] by simp
  then show ?thesis
    using reboot_complete [OF finished] re assms(5,7)
    by (simp add: new_software_def context_of_def image_in_flash_def install_partition)
qed

lemma reboot_at_limit:
  assumes "has_pending_commit (ecu_version e)" and "should_rollback_pending (ecu_slots e)"
  shows "active_slot (ecu_slots (snd (reboot e))) = confirmed_slot (ecu_slots e)"
    and "get_current_version (ecu_version (snd (reboot e))) = get_confirmed_version (ecu_version e)"
  using assms by (simp_all add: reboot_def roll_back_result)

lemma reboot_complete_state:
  assumes "complete c e"
  shows "ecu_version (snd (reboot e)) = snd (boot_pending_version (ecu_version e))"
    and "ecu_slots (snd (reboot e)) = snd (activate_pending (ecu_slots e))"
proof -
  have m: "marked c e" and v: "version_staged c e" and j: "\<not> pending_journal_requires_recovery (ecu_slots e)"
    using assms recovery_iff [of c e] by (auto simp: complete_def ready_def)
  have "\<not> should_rollback_pending (ecu_slots e)"
    using m by (simp add: should_rollback_pending_def marked_def idle_def Let_def)
  with j v show "ecu_version (snd (reboot e)) = snd (boot_pending_version (ecu_version e))"
    and "ecu_slots (snd (reboot e)) = snd (activate_pending (ecu_slots e))"
    by (simp_all add: reboot_def boot_steps_result version_staged_def)
qed

text \<open>
  C13: Software on trial that is not confirmed does not survive a second boot: the ECU returns to the confirmed version and slot.
\<close>

theorem trial_boot_falls_back:
  assumes "complete c e" and "e' = snd (reboot (snd (reboot e)))"
  shows "active_slot (ecu_slots e') = cx_old_slot c \<and>
         get_current_version (ecu_version e') = cx_old_version c"
proof -
  let ?b = "snd (reboot e)"
  have m: "marked c e" and v: "version_staged c e"
    using assms(1) by (auto simp: complete_def ready_def)
  note state = reboot_complete_state [OF assms(1)]
  have "has_pending_commit (ecu_version ?b)"
    using v by (simp add: state boot_pending_version_def has_pending_commit_def version_staged_def
        pending_version_def Let_def split: if_splits)
  moreover have "should_rollback_pending (ecu_slots ?b)"
    using m
    by (simp add: state should_rollback_pending_def activate_pending_state marked_def idle_def Let_def)
  moreover have "confirmed_slot (ecu_slots ?b) = cx_old_slot c"
    using m slots.confirmed_boot [of "ecu_slots e"]
    by (simp add: state boot_slot_def marked_def idle_def confirmed_slot_def Let_def)
  moreover have "get_confirmed_version (ecu_version ?b) = cx_old_version c"
    using m by (simp add: state boot_pending_version_def marked_def idle_def Let_def
        get_confirmed_version_def)
  ultimately show ?thesis
    using reboot_at_limit [of ?b] assms(2) by simp
qed

lemma inactive_slot_other: "inactive_slot d = other_slot (active_slot d)"
  by (cases "active_slot d") (simp_all add: inactive_slot_def)

text \<open>
  While software is on trial, the slot the next installation erases and programs is the
  confirmed one, the slot a rollback would return to.
\<close>

lemma reinstall_targets_fallback:
  assumes "complete c e" and "cx_slot c = other_slot (cx_old_slot c)"
  shows "inactive_slot (ecu_slots (snd (reboot e))) = confirmed_slot (ecu_slots (snd (reboot e)))"
proof -
  have m: "marked c e" using assms(1) by (simp add: complete_def ready_def)
  have "other_slot (other_slot s) = s" for s by (cases s) auto
  then show ?thesis
    using m assms(2)
    by (simp add: reboot_complete_state [OF assms(1)] inactive_slot_other active_slot_def
        confirmed_slot_def activate_pending_state marked_def idle_def Let_def)
qed

lemma update_slot_journal_dir:
  assumes "layouts_ok d"
  shows "slot_dirs (snd (update_slot_journal slot st u d)) s =
     (if s = slot
      then (case layout_file (slot_dirs d slot) of
              None \<Rightarrow> slot_dirs d slot
            | Some l \<Rightarrow> update_journal (projr (layout_config l)) st u (slot_dirs d slot))
      else slot_dirs d s)"
  by (simp add: update_slot_journal_def with_slot_flash_same [OF assms] with_slot_flash_other)

text \<open>
  C39: When the boot loader recovers from an interrupted installation, the slot it marks as rolled
  back is the running slot, whose journal then reads \<open>ROLLED_BACK\<close>; the journal of the half
  programmed slot keeps its incomplete state.
\<close>

theorem recovery_marks_running_slot:
  assumes "marked c e" and "incomplete_journal c e" and "layouts_ok (ecu_slots e)"
    and "layout_file (slot_dirs (ecu_slots e) (cx_old_slot c)) \<noteq> None"
    and "cx_slot c \<noteq> cx_old_slot c"
  shows "journal_state (slot_dirs (ecu_slots (snd (reboot e))) (cx_old_slot c)) = Some (JText ''ROLLED_BACK'') \<and>
         incomplete_journal c (snd (reboot e))"
proof -
  let ?d = "save_state ((load_state (ecu_slots e))
      \<lparr>st_previous_slot := cx_old_slot c, st_active_slot := cx_old_slot c, st_pending_slot := None,
       st_pending_file := [], st_pending_version := [], st_boot_attempts := 0,
       st_rollback_reason := ''INCOMPLETE_FLASH_JOURNAL'', st_last_transition := ''ROLLED_BACK''\<rparr>)
    (ecu_slots e)"
  have act: "st_active_slot (load_state (ecu_slots e)) = cx_old_slot c"
    and conf: "st_confirmed_slot (load_state (ecu_slots e)) = cx_old_slot c"
    using assms(1) by (simp_all add: marked_def idle_def Let_def)
  have slots: "ecu_slots (snd (reboot e)) =
      snd (rollback_pending ''INCOMPLETE_FLASH_JOURNAL'' (ecu_slots e))"
    using assms(2) recovery_iff [OF assms(1)]
    by (simp add: reboot_def roll_back_def boot_steps_result)
  have frame: "journal_state (slot_dirs (snd (set_active_slot_control_blocks a b d)) s) =
      journal_state (slot_dirs d s)" if "layouts_ok d" for a b d s
    using that by (simp add: set_active_slot_control_blocks_eq)
  have "journal_state (slot_dirs (ecu_slots (snd (reboot e))) s) =
      journal_state (slot_dirs (snd (update_slot_journal (cx_old_slot c) ''ROLLED_BACK''
        [(''rollback_reason'', JText ''INCOMPLETE_FLASH_JOURNAL''),
         (''confirmed_slot'', JText (slot_name (cx_old_slot c)))] ?d)) s)" for s
    using assms(3) act conf
    by (simp add: slots rollback_pending_def Let_def run_steps_ok frame)
  then show ?thesis
    using assms(2-5)
    by (auto simp: update_slot_journal_dir incomplete_journal_def)
qed

section \<open>A concrete ECU\<close>

definition demo_ecu :: ecu where
  "demo_ecu =
     \<lparr>ecu_downloads = [''fw.bin'' \<mapsto> demo_image], ecu_installed = Map.empty,
      ecu_slots = \<lparr>slot_state_file = None,
        slot_dirs = (\<lambda>_. \<lparr>flash_file = None, layout_file = None, journal_file = None,
                           control_block_file = None, slot_files = Map.empty\<rparr>)\<rparr>,
      ecu_version = None, ecu_info = new_ecu_state ''BCM'' ''1.0.0''\<rparr>"

abbreviation demo_metadata :: image_metadata where
  "demo_metadata \<equiv> spec_metadata demo_spec [1, 2, 3]"

lemma demo_ecu_settled: "settled demo_ecu"
  by (simp add: settled_def demo_ecu_def pending_slot_def active_slot_def confirmed_slot_def
      load_state_def default_slot_state_def has_pending_commit_def get_current_version_def
      get_confirmed_version_def load_version_def default_version_state_def)

lemma demo_ecu_layouts: "layouts_ok (ecu_slots demo_ecu)"
  by (simp add: layouts_ok_def demo_ecu_def)

lemma demo_ecu_download: "ecu_downloads demo_ecu ''fw.bin'' = Some demo_image"
  by (simp add: demo_ecu_def)

lemma demo_version: "normalize_version (VersionText ''2.0'') = Inr ''2.0.0''"
  by code_simp

lemma demo_inactive: "inactive_slot (ecu_slots demo_ecu) = SLOT_B"
  by (simp add: inactive_slot_def active_slot_def demo_ecu_def load_state_def default_slot_state_def)

definition demo_installed :: ecu where
  "demo_installed =
     snd (run_steps (install_steps ''BCM'' ''fw.bin'' ''2.0'' demo_metadata [1, 2, 3] SLOT_B)
       (begin_install ''BCM'' ''fw.bin'' demo_ecu))"

abbreviation demo_context :: install_ctx where
  "demo_context \<equiv> context_of ''2.0'' demo_metadata [1, 2, 3] demo_ecu"

lemma demo_complete: "complete demo_context demo_installed"
proof -
  let ?b = "begin_install ''BCM'' ''fw.bin'' demo_ecu"
  have "fst (run_steps (install_steps ''BCM'' ''fw.bin'' ''2.0'' demo_metadata [1, 2, 3] SLOT_B) ?b) = None"
    using install_steps_succeed(1) [OF _ _ demo_version, of ?b "''fw.bin''" "[1, 2, 3]" demo_metadata
        "''BCM''" SLOT_B] extract_payload_facts [OF demo_extract]
    by (simp add: demo_ecu_layouts demo_ecu_download)
  from crash_safe_final [OF begin_crash_safe [OF demo_version demo_ecu_settled,
        where m = demo_metadata and payload = "[1, 2, 3]", unfolded demo_inactive] this]
  show ?thesis by (simp add: demo_installed_def)
qed


lemma install_succeeds_witness:
  "let (r, e') = install ''BCM'' ''fw.bin'' ''2.0'' demo_ecu
   in r = None \<and> active_slot (ecu_slots e') = SLOT_B \<and>
      get_current_version (ecu_version e') = ''2.0.0'' \<and>
      flash_holds (install_flash_config demo_metadata) (slot_dirs (ecu_slots e') SLOT_B) 0 [1, 2, 3]"
  using install_succeeds [OF demo_ecu_settled demo_ecu_layouts demo_ecu_download demo_extract
      demo_version prod.collapse [symmetric] demo_inactive [symmetric]]
  by (simp add: split_beta)

lemma trial_boot_falls_back_witness:
  "active_slot (ecu_slots (snd (reboot (snd (reboot demo_installed))))) = SLOT_A \<and>
   get_current_version (ecu_version (snd (reboot (snd (reboot demo_installed))))) = ''1.0.0''"
  using trial_boot_falls_back [OF demo_complete refl]
  by (simp add: context_of_def demo_ecu_def active_slot_def load_state_def default_slot_state_def
      get_current_version_def load_version_def default_version_state_def)

lemma reinstall_targets_fallback_witness:
  "inactive_slot (ecu_slots (snd (reboot demo_installed))) =
     confirmed_slot (ecu_slots (snd (reboot demo_installed)))"
  by (rule reinstall_targets_fallback [OF demo_complete])
    (simp add: context_of_def inactive_slot_other)

text \<open>An ECU whose slot B was being programmed when the power failed.\<close>

definition demo_layout :: jdict where
  "demo_layout = [''base_address'' \<mapsto> JHex 0x08000000, ''partition_size'' \<mapsto> JNum 4096,
     ''page_size'' \<mapsto> JNum 256, ''sector_size'' \<mapsto> JNum 4096]"

definition demo_interrupted :: ecu where
  "demo_interrupted = demo_ecu
     \<lparr>ecu_slots := \<lparr>slot_state_file = Some (default_slot_state\<lparr>st_pending_slot := Some SLOT_B\<rparr>),
        slot_dirs = (\<lambda>_. \<lparr>flash_file = Some (replicate 4096 0xFF), layout_file = Some demo_layout,
          journal_file = Some [''state'' \<mapsto> JText ''PROGRAMMED''], control_block_file = None,
          slot_files = Map.empty\<rparr>)\<rparr>\<rparr>"

lemma demo_interrupted_files [simp]:
  "load_state (ecu_slots demo_interrupted) = default_slot_state\<lparr>st_pending_slot := Some SLOT_B\<rparr>"
  "load_version (ecu_version demo_interrupted) = default_version_state"
  "layout_file (slot_dirs (ecu_slots demo_interrupted) s) = Some demo_layout"
  "journal_state (slot_dirs (ecu_slots demo_interrupted) s) = Some (JText ''PROGRAMMED'')"
  by (simp_all add: demo_interrupted_def demo_ecu_def load_state_def load_version_def
      journal_state_def load_journal_def)

lemma recovery_marks_running_slot_witness:
  "journal_state (slot_dirs (ecu_slots (snd (reboot demo_interrupted))) SLOT_A) =
     Some (JText ''ROLLED_BACK'')"
proof -
  have c: "cx_old_slot demo_context = SLOT_A" "cx_slot demo_context = SLOT_B"
    "cx_old_version demo_context = ''1.0.0''"
    by (simp_all add: context_of_def inactive_slot_def active_slot_def demo_ecu_def load_state_def
        default_slot_state_def get_current_version_def load_version_def default_version_state_def)
  have "marked demo_context demo_interrupted"
    by (simp add: marked_def idle_def c default_slot_state_def default_version_state_def)
  moreover have "incomplete_journal demo_context demo_interrupted"
    by (simp add: incomplete_journal_def INCOMPLETE_JOURNAL_STATES_def)
  moreover have "layouts_ok (ecu_slots demo_interrupted)"
    by (simp add: layouts_ok_def layout_config_def demo_layout_def layout_value_def
        hex_value_def num_value_def)
  ultimately show ?thesis
    using recovery_marks_running_slot [of demo_context demo_interrupted] by (simp add: c)
qed

end
