(* ===== verification/Firmware_Receiver.thy ===== *)
theory Firmware_Receiver
  imports Digests
begin

text \<open>
  The download buffer of an ECU: \<open>firmware_receiver.py\<close> of the BCM, the cluster and the gateway,
  which are the same text. \<open>saved_file\<close> is the file in the download directory that the installer
  later opens; the original image is given by its content.
\<close>

record receiver =
  rcv_buffer :: bytes
  rcv_chunk_count :: nat
  rcv_expected_size :: "nat option"
  saved_file :: "bytes option"

definition new_receiver :: "bytes option \<Rightarrow> receiver" where
  "new_receiver on_disk =
     \<lparr>rcv_buffer = [], rcv_chunk_count = 0, rcv_expected_size = None, saved_file = on_disk\<rparr>"

definition receiver_clear :: "receiver \<Rightarrow> receiver" where
  "receiver_clear r = r\<lparr>rcv_buffer := [], rcv_chunk_count := 0, rcv_expected_size := None\<rparr>"

definition set_expected_size :: "nat \<Rightarrow> receiver \<Rightarrow> receiver" where
  "set_expected_size n r = r\<lparr>rcv_expected_size := Some n\<rparr>"

text \<open>\<open>append_chunk\<close> reads the sequence number before it stores the rest, so an empty frame raises.\<close>

definition append_chunk :: "bytes \<Rightarrow> receiver \<Rightarrow> (byte \<times> bytes) result \<times> receiver" where
  "append_chunk frame r =
     (if length frame < 2 then (Inl IndexError, r)
      else (Inr (frame ! 1, drop 2 frame),
            r\<lparr>rcv_buffer := rcv_buffer r @ drop 2 frame, rcv_chunk_count := rcv_chunk_count r + 1\<rparr>))"

definition firmware_data :: "receiver \<Rightarrow> bytes" where
  "firmware_data r =
     (case rcv_expected_size r of None \<Rightarrow> rcv_buffer r | Some n \<Rightarrow> take n (rcv_buffer r))"

definition receiver_save :: "receiver \<Rightarrow> receiver" where
  "receiver_save r = r\<lparr>saved_file := Some (firmware_data r)\<rparr>"

definition downloaded_size :: "receiver \<Rightarrow> nat" where
  "downloaded_size r = length (firmware_data r)"

definition receiver_sha256 :: "receiver \<Rightarrow> string" where
  "receiver_sha256 r = hexdigest (firmware_data r)"

text \<open>The tuple \<open>(passed, expected_sha, actual_sha, expected_size, actual_size)\<close>.\<close>

definition receiver_verify ::
    "bytes option \<Rightarrow> receiver \<Rightarrow> (bool \<times> string \<times> string \<times> nat \<times> nat) result" where
  "receiver_verify original r =
     (case original of
        None \<Rightarrow> Inl (FileNotFoundError ''original firmware'')
      | Some data \<Rightarrow>
          Inr (hexdigest data = receiver_sha256 r, hexdigest data, receiver_sha256 r,
               length data, downloaded_size r))"

lemma receiver_verify_passed:
  "receiver_verify original r = Inr (True, rest) \<Longrightarrow>
     \<exists>data. original = Some data \<and> sha256 (firmware_data r) = sha256 data"
  by (auto simp: receiver_verify_def receiver_sha256_def hexdigest_def split: option.splits)

lemma firmware_data_saved [simp]: "firmware_data (r\<lparr>saved_file := x\<rparr>) = firmware_data r"
  by (simp add: firmware_data_def split: option.split)

lemma firmware_data_clear [simp]: "firmware_data (receiver_clear r) = []"
  by (simp add: firmware_data_def receiver_clear_def)

end
