(* ===== verification/UDS_Server.thy ===== *)
theory UDS_Server
  imports UDS_Codec
begin

text \<open>
  The contract of a UDS programming server, as the testers use it: a state machine that answers
  one request at a time. The programmer behind the CAN bus and the server behind DoIP interpret
  it. What one request does is a list of events in the order they happen.
\<close>

datatype uds_event = Respond bytes | StartInstall | Raised py_error

text \<open>\<open>_send_response_pending\<close> of both servers; what a server's events say.\<close>

definition response_pending :: "byte \<Rightarrow> uds_event" where
  "response_pending service_id = Respond [0x7F, service_id, NRC_RESPONSE_PENDING]"

definition responses_ok :: "bytes \<Rightarrow> uds_event list \<Rightarrow> bool" where
  "responses_ok request evs \<longleftrightarrow>
     (\<forall>r. Respond r \<in> set evs \<longrightarrow> is_response_for_request r (Some (request ! 0)))"

lemma responses_ok_simps [simp]:
  "responses_ok request []"
  "responses_ok request (StartInstall # evs) = responses_ok request evs"
  "responses_ok request (Raised e # evs) = responses_ok request evs"
  "responses_ok request (response_pending (request ! 0) # evs) = responses_ok request evs"
  "responses_ok request (Respond (positive_response_sid (request ! 0) # r) # evs) = responses_ok request evs"
  "responses_ok request (Respond [0x7F, request ! 0, c] # evs) = responses_ok request evs"
  by (auto simp: responses_ok_def response_pending_def positive_response_for_request
      negative_response_for_request)

definition no_install :: "uds_event list \<Rightarrow> bool" where
  "no_install evs \<longleftrightarrow> StartInstall \<notin> set evs"

lemma no_install_simps [simp]:
  "no_install []" "no_install (Respond r # evs) = no_install evs"
  "no_install (Raised e # evs) = no_install evs" "no_install (response_pending sid # evs) = no_install evs"
  by (simp_all add: no_install_def response_pending_def)

text \<open>
  \<open>handle env request\<close> is one request under the conditions \<open>env\<close>; \<open>admissible\<close> restricts
  successive conditions (the clock does not go back), \<open>inv\<close> is the server's invariant as of the
  last conditions, \<open>verified\<close> that its stored image has passed verification.
\<close>

locale uds_server =
  fixes handle :: "'env \<Rightarrow> bytes \<Rightarrow> 'p \<Rightarrow> 'p \<times> uds_event list"
    and admissible :: "'env \<Rightarrow> 'env \<Rightarrow> bool"
    and inv :: "'env \<Rightarrow> 'p \<Rightarrow> bool"
    and verified :: "'env \<Rightarrow> 'p \<Rightarrow> bool"
  assumes inv_later: "inv env p \<Longrightarrow> admissible env env' \<Longrightarrow> inv env' p"
    and inv_handle: "inv env p \<Longrightarrow> inv env (fst (handle env request p))"
    and responses: "Respond r \<in> set (snd (handle env request p)) \<Longrightarrow>
          request \<noteq> [] \<and> is_response_for_request r (Some (request ! 0))"
    and install_verified: "inv env p \<Longrightarrow> StartInstall \<in> set (snd (handle env request p)) \<Longrightarrow>
          verified env (fst (handle env request p))"
begin

fun serve :: "('env \<times> bytes) list \<Rightarrow> 'p \<Rightarrow> 'p \<times> uds_event list" where
  "serve [] p = (p, [])"
| "serve ((env, request) # rs) p =
     (let (p', evs) = handle env request p; (p'', evs') = serve rs p' in (p'', evs @ evs'))"

fun schedule_from :: "'env \<Rightarrow> ('env \<times> bytes) list \<Rightarrow> bool" where
  "schedule_from env [] \<longleftrightarrow> True"
| "schedule_from env ((env', request) # rs) \<longleftrightarrow> admissible env env' \<and> schedule_from env' rs"

definition last_env :: "'env \<Rightarrow> ('env \<times> bytes) list \<Rightarrow> 'env" where
  "last_env env rs = (if rs = [] then env else fst (last rs))"

lemma inv_serve: "inv env p \<Longrightarrow> schedule_from env rs \<Longrightarrow> inv (last_env env rs) (fst (serve rs p))"
proof (induction rs arbitrary: env p)
  case Nil
  then show ?case by (simp add: last_env_def)
next
  case (Cons x rs)
  obtain env' request where x: "x = (env', request)" by fastforce
  have "inv env' p" using Cons.prems inv_later by (simp add: x)
  then have "inv env' (fst (handle env' request p))" by (rule inv_handle)
  then have "inv (last_env env' rs) (fst (serve rs (fst (handle env' request p))))"
    using Cons by (simp add: x)
  moreover have "last_env env (x # rs) = last_env env' rs"
    by (simp add: last_env_def x)
  ultimately show ?case by (simp add: x split_beta)
qed

text \<open>Whatever is requested, an installation starts only from an image that passed verification.\<close>

lemma install_after_serve:
  assumes "inv env p" and "schedule_from env rs" and "admissible (last_env env rs) env'"
    and "StartInstall \<in> set (snd (handle env' request (fst (serve rs p))))"
  shows "verified env' (fst (handle env' request (fst (serve rs p))))"
  using inv_later [OF inv_serve [OF assms(1,2)] assms(3)] assms(4) by (rule install_verified)

lemma serve_responses:
  "Respond r \<in> set (snd (serve rs p)) \<Longrightarrow>
     \<exists>(env, request) \<in> set rs. request \<noteq> [] \<and> is_response_for_request r (Some (request ! 0))"
proof (induction rs arbitrary: p)
  case Nil
  then show ?case by simp
next
  case (Cons x rs)
  obtain env request where x: "x = (env, request)" by fastforce
  from Cons.prems consider "Respond r \<in> set (snd (handle env request p))"
    | "Respond r \<in> set (snd (serve rs (fst (handle env request p))))"
    by (auto simp: x split_beta)
  then show ?case
  proof cases
    case 1
    from responses [OF this] show ?thesis by (auto simp: x)
  next
    case 2
    from Cons.IH [OF this] show ?thesis by auto
  qed
qed

end

end
