(* ===== verification/UDS_Programmer.thy ===== *)
theory UDS_Programmer
  imports UDS_Server IsoTp Firmware_Receiver
begin

text \<open>
  The UDS programming server of an ECU: \<open>ecus/base/uds_can_programmer.py\<close> (\<open>UDSCanProgrammer\<close>).

  \<open>programmer\<close> holds its fields and \<open>handle_uds\<close> is \<open>_handle_uds\<close>, one definition per service. A
  call returns the new state and what it did, in order: the responses sent, the installer
  started, or the exception that ended it. One request reads the clock once here; the code
  reads it several times within the handler, so a theorem about a point in time is about that
  reading. Pauses are left out. What the handler reads from outside is \<open>uds_env\<close>.
\<close>

section \<open>State\<close>

abbreviation SESSION_TIMEOUT_SECONDS :: clock where "SESSION_TIMEOUT_SECONDS \<equiv> 120"
abbreviation SECURITY_ATTEMPT_LIMIT :: nat where "SECURITY_ATTEMPT_LIMIT \<equiv> 3"
abbreviation SECURITY_LOCKOUT_SECONDS :: clock where "SECURITY_LOCKOUT_SECONDS \<equiv> 30"

record programmer =
  pg_ecu_id :: nat
  pg_receiver :: receiver
  pg_reassembler :: reassembler
  pg_expected_size :: nat
  pg_received_size :: nat
  pg_install_pending :: bool
  pg_install_started :: bool
  pg_download_requested :: bool
  pg_security_unlocked :: bool
  pg_pending_seed :: bytes
  pg_seed_counter :: nat
  pg_erase_completed :: bool
  pg_activation_marked :: bool
  pg_current_session :: byte
  pg_session_started_at :: clock
  pg_security_failures :: nat
  pg_security_locked_until :: clock
  pg_expected_transfer_sequence :: nat

text \<open>
  The constructor; the block size and the separation time of the reassembler come from the
  environment variables \<open>OTA_ISOTP_BLOCK_SIZE\<close> and \<open>OTA_ISOTP_STMIN\<close>.
\<close>

definition new_programmer :: "nat \<Rightarrow> receiver \<Rightarrow> nat \<Rightarrow> nat \<Rightarrow> programmer" where
  "new_programmer ecu_id rcv block_size stmin =
     \<lparr>pg_ecu_id = ecu_id, pg_receiver = rcv, pg_reassembler = new_reassembler block_size stmin,
      pg_expected_size = 0, pg_received_size = 0, pg_install_pending = False,
      pg_install_started = False, pg_download_requested = False, pg_security_unlocked = False,
      pg_pending_seed = [], pg_seed_counter = 0, pg_erase_completed = False,
      pg_activation_marked = False, pg_current_session = 0x00, pg_session_started_at = 0,
      pg_security_failures = 0, pg_security_locked_until = 0, pg_expected_transfer_sequence = 1\<rparr>"

record uds_env =
  env_now :: clock
  env_diagnostics_enabled :: bool
  env_programming_enabled :: bool
  env_current_version :: string
  env_security :: security_env
  env_original :: "bytes option"

type_synonym uds_step = "programmer \<times> uds_event list"

section \<open>Sessions\<close>

definition reply :: "bytes \<Rightarrow> programmer \<Rightarrow> uds_step" where
  "reply payload p = (p, [Respond payload])"

definition negative :: "byte \<Rightarrow> byte \<Rightarrow> programmer \<Rightarrow> uds_step" where
  "negative service_id code = reply [0x7F, service_id, code]"

definition reset_programming_state :: "programmer \<Rightarrow> programmer" where
  "reset_programming_state p =
     p\<lparr>pg_security_unlocked := False, pg_pending_seed := [], pg_erase_completed := False,
       pg_activation_marked := False, pg_install_pending := False, pg_install_started := False,
       pg_download_requested := False, pg_expected_size := 0, pg_received_size := 0,
       pg_expected_transfer_sequence := 1\<rparr>"

definition touch_session :: "uds_env \<Rightarrow> programmer \<Rightarrow> programmer" where
  "touch_session env p = p\<lparr>pg_session_started_at := env_now env\<rparr>"

definition expire_session_if_needed :: "uds_env \<Rightarrow> programmer \<Rightarrow> programmer" where
  "expire_session_if_needed env p =
     (if pg_current_session p \<noteq> DEFAULT_SESSION_PROGRAMMING then p
      else if pg_session_started_at p = 0 then p
      else if env_now env - pg_session_started_at p \<le> SESSION_TIMEOUT_SECONDS then p
      else reset_programming_state (p\<lparr>pg_current_session := 0x00\<rparr>))"

text \<open>\<open>if not self._require_programming_session(service_id): return\<close>, followed by the service.\<close>

definition require_programming_session ::
    "uds_env \<Rightarrow> byte \<Rightarrow> (programmer \<Rightarrow> uds_step) \<Rightarrow> programmer \<Rightarrow> uds_step" where
  "require_programming_session env service_id service p =
     (let p = expire_session_if_needed env p in
      if pg_current_session p \<noteq> DEFAULT_SESSION_PROGRAMMING
      then negative service_id NRC_SERVICE_NOT_SUPPORTED_IN_ACTIVE_SESSION p
      else service (touch_session env p))"

definition security_delay_active :: "uds_env \<Rightarrow> programmer \<Rightarrow> bool" where
  "security_delay_active env p \<longleftrightarrow> env_now env < pg_security_locked_until p"

definition generate_seed :: "programmer \<Rightarrow> programmer \<times> bytes" where
  "generate_seed p =
     (let p = p\<lparr>pg_seed_counter := (pg_seed_counter p + 1) AND 0xFFFFFFFF\<rparr>
      in (p, be_bytes 4 (push_bit 16 (pg_ecu_id p AND 0xFFFF) OR pg_seed_counter p)))"

section \<open>Services\<close>

definition handle_session_control :: "uds_env \<Rightarrow> bytes \<Rightarrow> programmer \<Rightarrow> uds_step" where
  "handle_session_control env payload p =
     (let session = (if length payload > 1 then payload ! 1 else 0x00);
          p = touch_session env (reset_programming_state (p\<lparr>pg_current_session := session\<rparr>))
      in reply [positive_response_sid (payload ! 0), session] p)"

definition handle_tester_present :: "uds_env \<Rightarrow> bytes \<Rightarrow> programmer \<Rightarrow> uds_step" where
  "handle_tester_present env payload p =
     (let subfunction = (if length payload > 1 then payload ! 1 else 0x00);
          p = expire_session_if_needed env p;
          p = (if pg_current_session p = DEFAULT_SESSION_PROGRAMMING then touch_session env p else p)
      in reply [positive_response_sid (payload ! 0), subfunction] p)"

definition handle_read_data :: "uds_env \<Rightarrow> bytes \<Rightarrow> programmer \<Rightarrow> uds_step" where
  "handle_read_data env payload p =
     (if length payload < 3 then negative (payload ! 0) 0x13 p
      else if from_be (take 2 (drop 1 payload)) \<noteq> DID_SOFTWARE_VERSION
      then negative (payload ! 0) 0x31 p
      else reply ([positive_response_sid (payload ! 0)] @ take 2 (drop 1 payload) @
                  bytes_of (env_current_version env)) p)"

definition handle_request_seed :: "uds_env \<Rightarrow> bytes \<Rightarrow> programmer \<Rightarrow> uds_step" where
  "handle_request_seed env payload p =
     (if security_delay_active env p then negative (payload ! 0) 0x37 p
      else let (p, seed) = generate_seed p;
               p = p\<lparr>pg_pending_seed := seed, pg_security_unlocked := False\<rparr>
           in reply ([positive_response_sid (payload ! 0), payload ! 1] @ seed) p)"

definition handle_send_key :: "uds_env \<Rightarrow> bytes \<Rightarrow> programmer \<Rightarrow> uds_step" where
  "handle_send_key env payload p =
     (if pg_pending_seed p = [] then negative (payload ! 0) NRC_REQUEST_SEQUENCE_ERROR p
      else case derive_security_key (env_security env) (pg_pending_seed p) of
        Inl e \<Rightarrow> (p, [Raised e])
      | Inr expected_key \<Rightarrow>
          if drop 2 payload \<noteq> expected_key then
            let p = p\<lparr>pg_security_unlocked := False,
                     pg_security_failures := pg_security_failures p + 1, pg_pending_seed := []\<rparr>
            in if pg_security_failures p \<ge> SECURITY_ATTEMPT_LIMIT
               then negative (payload ! 0) NRC_EXCEED_NUMBER_OF_ATTEMPTS
                      (p\<lparr>pg_security_locked_until := env_now env + SECURITY_LOCKOUT_SECONDS\<rparr>)
               else negative (payload ! 0) NRC_INVALID_KEY p
          else reply [positive_response_sid (payload ! 0), payload ! 1]
                 (p\<lparr>pg_security_unlocked := True, pg_security_failures := 0, pg_pending_seed := []\<rparr>))"

definition handle_security_access :: "uds_env \<Rightarrow> bytes \<Rightarrow> programmer \<Rightarrow> uds_step" where
  "handle_security_access env payload =
     require_programming_session env (payload ! 0) (\<lambda>p.
       if length payload < 2 then negative (payload ! 0) NRC_INCORRECT_LENGTH_OR_FORMAT p
       else if payload ! 1 = SECURITY_ACCESS_REQUEST_SEED then handle_request_seed env payload p
       else if payload ! 1 = SECURITY_ACCESS_SEND_KEY then handle_send_key env payload p
       else negative (payload ! 0) 0x12 p)"

definition routine_reply :: "bytes \<Rightarrow> programmer \<Rightarrow> uds_step" where
  "routine_reply payload p =
     (p, [response_pending (payload ! 0),
          Respond ([positive_response_sid (payload ! 0), payload ! 1] @ take 2 (drop 2 payload))])"

definition erase_memory :: "bytes \<Rightarrow> programmer \<Rightarrow> programmer" where
  "erase_memory routine_data p =
     (let total = (if length routine_data \<ge> 4 then from_be (take 4 routine_data) else 0)
      in p\<lparr>pg_expected_size := total, pg_received_size := 0, pg_install_pending := False,
           pg_erase_completed := True, pg_activation_marked := False,
           pg_expected_transfer_sequence := 1,
           pg_receiver := set_expected_size total (receiver_clear (pg_receiver p))\<rparr>)"

definition handle_routine_control :: "uds_env \<Rightarrow> bytes \<Rightarrow> programmer \<Rightarrow> uds_step" where
  "handle_routine_control env payload =
     require_programming_session env (payload ! 0) (\<lambda>p.
       if length payload < 4 then negative (payload ! 0) NRC_INCORRECT_LENGTH_OR_FORMAT p
       else if \<not> pg_security_unlocked p then negative (payload ! 0) NRC_SECURITY_ACCESS_DENIED p
       else let routine_id = from_be (take 2 (drop 2 payload)) in
         if payload ! 1 \<noteq> ROUTINE_CONTROL_START then negative (payload ! 0) 0x12 p
         else if routine_id = ROUTINE_ERASE_MEMORY
         then routine_reply payload (erase_memory (drop 4 payload) p)
         else if routine_id = ROUTINE_VERIFY_IMAGE then
           (if \<not> pg_install_pending p then negative (payload ! 0) 0x72 p
            else routine_reply payload p)
         else if routine_id = ROUTINE_ACTIVATE_IMAGE then
           (if \<not> pg_install_pending p then negative (payload ! 0) 0x72 p
            else routine_reply payload (p\<lparr>pg_activation_marked := True\<rparr>))
         else negative (payload ! 0) 0x31 p)"

definition handle_request_download :: "uds_env \<Rightarrow> bytes \<Rightarrow> programmer \<Rightarrow> uds_step" where
  "handle_request_download env payload =
     require_programming_session env (payload ! 0) (\<lambda>p.
       if \<not> pg_security_unlocked p \<or> \<not> pg_erase_completed p
       then negative (payload ! 0) NRC_CONDITIONS_NOT_CORRECT p
       else if length payload < 11 then negative (payload ! 0) NRC_INCORRECT_LENGTH_OR_FORMAT p
       else if payload ! 1 \<noteq> 0x00 \<or> payload ! 2 \<noteq> 0x44
       then negative (payload ! 0) NRC_REQUEST_OUT_OF_RANGE p
       else
         let total = from_be (drop (length payload - 4) payload) in
         reply [positive_response_sid (payload ! 0), 0x00, 0x44, 0x00, 0x40]
           (p\<lparr>pg_expected_size := total, pg_received_size := 0, pg_install_pending := False,
              pg_install_started := False, pg_download_requested := True,
              pg_expected_transfer_sequence := 1,
              pg_receiver := set_expected_size total (receiver_clear (pg_receiver p))\<rparr>))"

definition handle_transfer_data :: "uds_env \<Rightarrow> bytes \<Rightarrow> programmer \<Rightarrow> uds_step" where
  "handle_transfer_data env payload =
     require_programming_session env (payload ! 0) (\<lambda>p.
       if length payload < 2 then negative (payload ! 0) NRC_INCORRECT_LENGTH_OR_FORMAT p
       else if \<not> pg_security_unlocked p then negative (payload ! 0) NRC_SECURITY_ACCESS_DENIED p
       else if \<not> pg_download_requested p then negative (payload ! 0) NRC_REQUEST_SEQUENCE_ERROR p
       else if unat (payload ! 1) \<noteq> pg_expected_transfer_sequence p mod 256
       then negative (payload ! 0) NRC_WRONG_BLOCK_SEQUENCE_COUNTER p
       else
         let chunk = take (pg_expected_size p - pg_received_size p) (drop 2 payload) in
         if chunk = [] \<and> pg_expected_size p \<noteq> 0
         then negative (payload ! 0) NRC_REQUEST_OUT_OF_RANGE p
         else
           let rcv = pg_receiver p in
           reply [positive_response_sid (payload ! 0), payload ! 1]
             (p\<lparr>pg_receiver := rcv\<lparr>rcv_buffer := rcv_buffer rcv @ chunk,
                                  rcv_chunk_count := rcv_chunk_count rcv + 1\<rparr>,
                pg_received_size := pg_received_size p + length chunk,
                pg_expected_transfer_sequence := (pg_expected_transfer_sequence p + 1) mod 256\<rparr>))"

definition handle_transfer_exit :: "uds_env \<Rightarrow> bytes \<Rightarrow> programmer \<Rightarrow> uds_step" where
  "handle_transfer_exit env payload =
     require_programming_session env (payload ! 0) (\<lambda>p.
       if \<not> pg_security_unlocked p then negative (payload ! 0) NRC_SECURITY_ACCESS_DENIED p
       else if \<not> pg_download_requested p then negative (payload ! 0) NRC_REQUEST_SEQUENCE_ERROR p
       else if pg_expected_size p \<noteq> 0 \<and> pg_received_size p \<noteq> pg_expected_size p
       then negative (payload ! 0) NRC_INCORRECT_LENGTH_OR_FORMAT p
       else
         let p = p\<lparr>pg_receiver := receiver_save (pg_receiver p)\<rparr> in
         case receiver_verify (env_original env) (pg_receiver p) of
           Inl e \<Rightarrow> (p, [response_pending (payload ! 0), Raised e])
         | Inr (passed, _) \<Rightarrow>
             let p = p\<lparr>pg_install_pending := passed\<rparr> in
             if passed
             then (p\<lparr>pg_download_requested := False\<rparr>,
                   [response_pending (payload ! 0), Respond [positive_response_sid (payload ! 0)]])
             else (p, [response_pending (payload ! 0), Respond [0x7F, payload ! 0, 0x72]]))"

definition handle_ecu_reset :: "uds_env \<Rightarrow> bytes \<Rightarrow> programmer \<Rightarrow> uds_step" where
  "handle_ecu_reset env payload =
     require_programming_session env (payload ! 0) (\<lambda>p.
       let reset_type = (if length payload > 1 then payload ! 1 else 0x01);
           start = (pg_install_pending p \<and> pg_activation_marked p \<and> \<not> pg_install_started p);
           p = (if start then p\<lparr>pg_install_started := True\<rparr> else p)
       in (reset_programming_state (p\<lparr>pg_current_session := 0x00\<rparr>),
           Respond [positive_response_sid (payload ! 0), reset_type] #
           (if start then [StartInstall] else [])))"

definition programming_services :: "byte list" where
  "programming_services =
     [SID_SECURITY_ACCESS, SID_ROUTINE_CONTROL, SID_REQUEST_DOWNLOAD, SID_TRANSFER_DATA,
      SID_REQUEST_TRANSFER_EXIT, SID_ECU_RESET]"

definition handle_uds :: "uds_env \<Rightarrow> bytes \<Rightarrow> programmer \<Rightarrow> uds_step" where
  "handle_uds env payload p =
     (if payload = [] then (p, [])
      else let service_id = payload ! 0 in
        if \<not> env_diagnostics_enabled env then negative service_id NRC_CONDITIONS_NOT_CORRECT p
        else if service_id \<in> set programming_services \<and> \<not> env_programming_enabled env
        then negative service_id NRC_CONDITIONS_NOT_CORRECT p
        else if service_id = SID_DIAGNOSTIC_SESSION_CONTROL then handle_session_control env payload p
        else if service_id = SID_TESTER_PRESENT then handle_tester_present env payload p
        else if service_id = SID_READ_DATA_BY_IDENTIFIER then handle_read_data env payload p
        else if service_id = SID_SECURITY_ACCESS then handle_security_access env payload p
        else if service_id = SID_ROUTINE_CONTROL then handle_routine_control env payload p
        else if service_id = SID_REQUEST_DOWNLOAD then handle_request_download env payload p
        else if service_id = SID_TRANSFER_DATA then handle_transfer_data env payload p
        else if service_id = SID_REQUEST_TRANSFER_EXIT then handle_transfer_exit env payload p
        else if service_id = SID_ECU_RESET then handle_ecu_reset env payload p
        else negative service_id 0x11 p)"

section \<open>Frames\<close>

definition is_isotp_candidate :: "bytes \<Rightarrow> bool" where
  "is_isotp_candidate frame \<longleftrightarrow>
     (if frame = [] then False
      else let frame_type = drop_bit 4 (frame ! 0); len = unat (frame ! 0 AND 0x0F) in
        if frame_type = 0x0
        then (if len = 0 then 2 \<le> length frame \<and> 2 + unat (frame ! 1) \<le> length frame
              else 1 + len \<le> length frame)
        else frame_type = 0x1 \<or> frame_type = 0x2)"

text \<open>
  \<open>feed\<close>: whether the frame was ISO-TP, the flow control frame it answers with, and what the
  service did. A flow control frame that did not fit a CAN FD frame would raise; it has three
  bytes.
\<close>

definition programmer_feed ::
    "uds_env \<Rightarrow> bytes \<Rightarrow> programmer \<Rightarrow> bool \<times> bytes option \<times> uds_step" where
  "programmer_feed env frame p =
     (if \<not> is_isotp_candidate frame then (False, None, (p, []))
      else
        let (r, payload) = reassembler_feed frame (pg_reassembler p);
            (r, flow_control) = pop_flow_control_frame r;
            p = p\<lparr>pg_reassembler := r\<rparr>
        in (True, flow_control,
            case payload of None \<Rightarrow> (p, []) | Some payload \<Rightarrow> handle_uds env payload p))"

section \<open>The invariant\<close>

text \<open>
  \<open>p\<close> as of the conditions \<open>env\<close>: every right is bound to the programming session; an erased
  memory has exactly the bytes received so far, within the announced size; an installation that
  is pending has the received image on disk, and it is the original's; during a lockout there is
  no seed to answer and the server is locked.
\<close>

definition programmer_inv :: "uds_env \<Rightarrow> programmer \<Rightarrow> bool" where
  "programmer_inv env p \<longleftrightarrow>
     (pg_security_unlocked p \<or> pg_erase_completed p \<or> pg_download_requested p \<or>
      pg_install_pending p \<or> pg_activation_marked p
        \<longrightarrow> pg_current_session p = DEFAULT_SESSION_PROGRAMMING) \<and>
     (pg_download_requested p \<longrightarrow> pg_erase_completed p \<and> \<not> pg_install_pending p) \<and>
     (pg_erase_completed p \<longrightarrow>
        length (rcv_buffer (pg_receiver p)) = pg_received_size p \<and>
        pg_received_size p \<le> pg_expected_size p \<and>
        rcv_expected_size (pg_receiver p) = Some (pg_expected_size p)) \<and>
     (pg_install_pending p \<longrightarrow>
        (\<exists>saved original. saved_file (pg_receiver p) = Some saved \<and>
           env_original env = Some original \<and> sha256 saved = sha256 original)) \<and>
     length (pg_pending_seed p) \<in> {0, 4} \<and>
     pg_expected_transfer_sequence p < 256 \<and>
     (security_delay_active env p \<longrightarrow> pg_pending_seed p = [] \<and> \<not> pg_security_unlocked p)"

definition later_env :: "uds_env \<Rightarrow> uds_env \<Rightarrow> bool" where
  "later_env env env' \<longleftrightarrow> env_now env \<le> env_now env' \<and> env_original env' = env_original env"

lemma programmer_inv_later: "programmer_inv env p \<Longrightarrow> later_env env env' \<Longrightarrow> programmer_inv env' p"
  by (auto simp: programmer_inv_def later_env_def security_delay_active_def)

lemma programmer_inv_new: "0 \<le> env_now env \<Longrightarrow> programmer_inv env (new_programmer i r b s)"
  by (simp add: programmer_inv_def new_programmer_def security_delay_active_def)

lemma programmer_inv_reset:
  "programmer_inv env p \<Longrightarrow> programmer_inv env (reset_programming_state (p\<lparr>pg_current_session := s\<rparr>))"
  by (auto simp: programmer_inv_def reset_programming_state_def security_delay_active_def)

lemma programmer_inv_touch [simp]: "programmer_inv env (touch_session env' p) = programmer_inv env p"
  by (simp add: programmer_inv_def touch_session_def security_delay_active_def)

lemma programmer_inv_expire: "programmer_inv env p \<Longrightarrow> programmer_inv env (expire_session_if_needed env' p)"
  by (simp add: expire_session_if_needed_def programmer_inv_reset)

lemma touch_session_current [simp]: "pg_current_session (touch_session env p) = pg_current_session p"
  by (simp add: touch_session_def)

lemma negative_simps [simp]:
  "fst (negative sid code p) = p" "snd (negative sid code p) = [Respond [0x7F, sid, code]]"
  by (simp_all add: negative_def reply_def)

lemma reply_simps [simp]: "fst (reply r p) = p" "snd (reply r p) = [Respond r]"
  by (simp_all add: reply_def)

lemma routine_reply_simps [simp]: "fst (routine_reply payload p) = p"
  by (simp add: routine_reply_def)

text \<open>Services behind the session check see a touched state in the programming session.\<close>

lemma require_session_inv:
  assumes "programmer_inv env p"
    and "\<And>q. programmer_inv env q \<Longrightarrow> pg_current_session q = DEFAULT_SESSION_PROGRAMMING \<Longrightarrow>
            programmer_inv env (fst (service q))"
  shows "programmer_inv env (fst (require_programming_session env sid service p))"
  using assms programmer_inv_expire [OF assms(1), of env]
  by (simp add: require_programming_session_def Let_def)

lemma inv_request_seed:
  assumes "programmer_inv env p"
  shows "programmer_inv env (fst (handle_request_seed env payload p))"
  using assms
  by (auto simp: handle_request_seed_def programmer_inv_def generate_seed_def security_delay_active_def
      Let_def)

lemma inv_send_key:
  assumes "programmer_inv env p" and "pg_current_session p = DEFAULT_SESSION_PROGRAMMING"
  shows "programmer_inv env (fst (handle_send_key env payload p))"
  using assms
  by (auto simp: handle_send_key_def programmer_inv_def security_delay_active_def Let_def
      split: sum.split)

lemma inv_security_access:
  "programmer_inv env p \<Longrightarrow> programmer_inv env (fst (handle_security_access env payload p))"
  unfolding handle_security_access_def
  by (erule require_session_inv) (simp add: inv_request_seed inv_send_key)

lemma inv_erase:
  assumes "programmer_inv env p" and "pg_current_session p = DEFAULT_SESSION_PROGRAMMING"
  shows "programmer_inv env (erase_memory d p)"
  using assms
  by (auto simp: erase_memory_def programmer_inv_def receiver_clear_def set_expected_size_def
      security_delay_active_def Let_def)

lemma inv_activate:
  "programmer_inv env p \<Longrightarrow> pg_current_session p = DEFAULT_SESSION_PROGRAMMING \<Longrightarrow>
     programmer_inv env (p\<lparr>pg_activation_marked := True\<rparr>)"
  by (auto simp: programmer_inv_def security_delay_active_def)

lemma inv_routine_control:
  "programmer_inv env p \<Longrightarrow> programmer_inv env (fst (handle_routine_control env payload p))"
  unfolding handle_routine_control_def
  by (erule require_session_inv) (simp add: inv_erase inv_activate Let_def)

lemma inv_request_download:
  "programmer_inv env p \<Longrightarrow> programmer_inv env (fst (handle_request_download env payload p))"
  unfolding handle_request_download_def
  by (erule require_session_inv)
    (auto simp: programmer_inv_def receiver_clear_def set_expected_size_def
      security_delay_active_def Let_def)

lemma inv_transfer_data:
  "programmer_inv env p \<Longrightarrow> programmer_inv env (fst (handle_transfer_data env payload p))"
  unfolding handle_transfer_data_def
  by (erule require_session_inv)
    (auto simp: programmer_inv_def security_delay_active_def Let_def)

lemma saved_receiver [simp]:
  "rcv_buffer (receiver_save r) = rcv_buffer r" "rcv_expected_size (receiver_save r) = rcv_expected_size r"
  "firmware_data (receiver_save r) = firmware_data r" "saved_file (receiver_save r) = Some (firmware_data r)"
  by (simp_all add: receiver_save_def)

lemma inv_transfer_exit:
  "programmer_inv env p \<Longrightarrow> programmer_inv env (fst (handle_transfer_exit env payload p))"
  unfolding handle_transfer_exit_def
proof (erule require_session_inv, goal_cases)
  case (1 q)
  let ?q = "q\<lparr>pg_receiver := receiver_save (pg_receiver q)\<rparr>"
  have passed: "\<exists>original. env_original env = Some original \<and>
      sha256 (firmware_data (pg_receiver q)) = sha256 original"
    if "receiver_verify (env_original env) (pg_receiver ?q) = Inr (True, rest)" for rest
    using receiver_verify_passed [OF that] by simp
  show ?case
  proof (cases "receiver_verify (env_original env) (pg_receiver ?q)")
    case (Inl e)
    then show ?thesis using 1
      by (auto simp: programmer_inv_def security_delay_active_def Let_def)
  next
    case (Inr v)
    obtain ok rest where "v = (ok, rest)" by (cases v)
    then show ?thesis using 1 Inr passed [of rest]
      by (cases ok) (auto simp: programmer_inv_def security_delay_active_def Let_def)
  qed
qed

lemma inv_ecu_reset:
  "programmer_inv env p \<Longrightarrow> programmer_inv env (fst (handle_ecu_reset env payload p))"
  unfolding handle_ecu_reset_def
proof (erule require_session_inv, goal_cases)
  case (1 q)
  have "programmer_inv env (q\<lparr>pg_install_started := b\<rparr>)" for b
    using 1 by (auto simp: programmer_inv_def security_delay_active_def)
  then show ?case using 1 by (simp add: programmer_inv_reset Let_def)
qed

lemma inv_handle_uds: "programmer_inv env p \<Longrightarrow> programmer_inv env (fst (handle_uds env payload p))"
  by (simp add: handle_uds_def handle_session_control_def handle_tester_present_def
      handle_read_data_def programmer_inv_reset programmer_inv_expire inv_security_access
      inv_routine_control inv_request_download inv_transfer_data inv_transfer_exit inv_ecu_reset Let_def)

section \<open>Responses and installations\<close>

lemma require_session_responses:
  assumes "\<And>q. responses_ok request (snd (service q))"
  shows "responses_ok request (snd (require_programming_session env (request ! 0) service p))"
  using assms by (simp add: require_programming_session_def Let_def)

lemma session_service_responses:
  "responses_ok request (snd (handle_session_control env request p))"
  "responses_ok request (snd (handle_tester_present env request p))"
  "responses_ok request (snd (handle_read_data env request p))"
  "responses_ok request (snd (handle_request_seed env request p))"
  "responses_ok request (snd (routine_reply request p))"
  by (simp_all add: handle_session_control_def handle_tester_present_def handle_read_data_def
      handle_request_seed_def routine_reply_def Let_def split_beta)

lemma send_key_responses: "responses_ok request (snd (handle_send_key env request p))"
  by (simp add: handle_send_key_def Let_def split: sum.split)

lemma programming_service_responses:
  "responses_ok request (snd (handle_security_access env request p))"
  "responses_ok request (snd (handle_routine_control env request p))"
  "responses_ok request (snd (handle_request_download env request p))"
  "responses_ok request (snd (handle_transfer_data env request p))"
  "responses_ok request (snd (handle_transfer_exit env request p))"
  "responses_ok request (snd (handle_ecu_reset env request p))"
  unfolding handle_security_access_def handle_routine_control_def handle_request_download_def
    handle_transfer_data_def handle_transfer_exit_def handle_ecu_reset_def
  by (rule require_session_responses;
      simp add: session_service_responses send_key_responses Let_def split: sum.split)+

lemma handle_uds_responses: "responses_ok request (snd (handle_uds env request p))"
  by (simp add: handle_uds_def session_service_responses programming_service_responses Let_def)

definition image_verified :: "uds_env \<Rightarrow> programmer \<Rightarrow> bool" where
  "image_verified env p \<longleftrightarrow>
     (\<exists>saved original. saved_file (pg_receiver p) = Some saved \<and>
        env_original env = Some original \<and> sha256 saved = sha256 original)"

lemma require_session_no_install:
  assumes "\<And>q. no_install (snd (service q))"
  shows "no_install (snd (require_programming_session env sid service p))"
  using assms by (simp add: require_programming_session_def Let_def)

lemma session_service_no_install:
  "no_install (snd (handle_session_control env request p))"
  "no_install (snd (handle_tester_present env request p))"
  "no_install (snd (handle_read_data env request p))"
  "no_install (snd (handle_request_seed env request p))"
  "no_install (snd (routine_reply request p))"
  "no_install (snd (handle_send_key env request p))"
  by (simp_all add: handle_session_control_def handle_tester_present_def handle_read_data_def
      handle_request_seed_def routine_reply_def handle_send_key_def Let_def split_beta split: sum.split)

lemma programming_service_no_install:
  "no_install (snd (handle_security_access env request p))"
  "no_install (snd (handle_routine_control env request p))"
  "no_install (snd (handle_request_download env request p))"
  "no_install (snd (handle_transfer_data env request p))"
  "no_install (snd (handle_transfer_exit env request p))"
  unfolding handle_security_access_def handle_routine_control_def handle_request_download_def
    handle_transfer_data_def handle_transfer_exit_def
  by (rule require_session_no_install;
      simp add: session_service_no_install Let_def split: sum.split)+

lemma only_reset_installs:
  assumes "request ! 0 \<noteq> SID_ECU_RESET"
  shows "no_install (snd (handle_uds env request p))"
  using assms
  by (simp add: handle_uds_def session_service_no_install programming_service_no_install Let_def)

lemma reset_installs:
  assumes "StartInstall \<in> set (snd (handle_ecu_reset env request p))"
  shows "let q = touch_session env (expire_session_if_needed env p) in
         pg_install_pending q \<and> pg_activation_marked q \<and> \<not> pg_install_started q \<and>
         pg_current_session q = DEFAULT_SESSION_PROGRAMMING \<and>
         pg_receiver (fst (handle_ecu_reset env request p)) = pg_receiver q"
  using assms
  by (auto simp: handle_ecu_reset_def require_programming_session_def reset_programming_state_def
      Let_def split: if_splits)

lemma programmer_install_verified:
  assumes "programmer_inv env p" and "StartInstall \<in> set (snd (handle_uds env request p))"
  shows "image_verified env (fst (handle_uds env request p))"
proof -
  have sid: "request ! 0 = SID_ECU_RESET"
    using only_reset_installs [of request env p] assms(2) by (auto simp: no_install_def)
  have "request \<noteq> []" using assms(2) by (auto simp: handle_uds_def)
  then have h: "handle_uds env request p = handle_ecu_reset env request p"
    using assms(2) sid by (auto simp: handle_uds_def programming_services_def Let_def split: if_splits)
  let ?q = "touch_session env (expire_session_if_needed env p)"
  have "programmer_inv env ?q" by (simp add: programmer_inv_expire assms(1))
  moreover have "pg_install_pending ?q" and
    r: "pg_receiver (fst (handle_uds env request p)) = pg_receiver ?q"
    using reset_installs [of env request p] assms(2) by (simp_all add: h Let_def)
  ultimately show ?thesis
    by (simp add: image_verified_def r programmer_inv_def)
qed

interpretation can_programmer: uds_server handle_uds later_env programmer_inv image_verified
proof
  fix env env' :: uds_env and p request r
  show "programmer_inv env p \<Longrightarrow> later_env env env' \<Longrightarrow> programmer_inv env' p"
    by (rule programmer_inv_later)
  show "programmer_inv env p \<Longrightarrow> programmer_inv env (fst (handle_uds env request p))"
    by (rule inv_handle_uds)
  show "programmer_inv env p \<Longrightarrow> StartInstall \<in> set (snd (handle_uds env request p)) \<Longrightarrow>
      image_verified env (fst (handle_uds env request p))"
    by (rule programmer_install_verified)
  show "request \<noteq> [] \<and> is_response_for_request r (Some (request ! 0))"
    if "Respond r \<in> set (snd (handle_uds env request p))"
    using that handle_uds_responses [of request env p]
    by (cases "request = []") (auto simp: responses_ok_def handle_uds_def)
qed

section \<open>Runs\<close>

text \<open>A sequence of requests, each under its own conditions.\<close>

fun programmer_run :: "(uds_env \<times> bytes) list \<Rightarrow> programmer \<Rightarrow> uds_step" where
  "programmer_run [] p = (p, [])"
| "programmer_run ((env, request) # rs) p =
     (let (p', evs) = handle_uds env request p; (p'', evs') = programmer_run rs p'
      in (p'', evs @ evs'))"

fun later_schedule :: "uds_env \<Rightarrow> (uds_env \<times> bytes) list \<Rightarrow> bool" where
  "later_schedule env [] \<longleftrightarrow> True"
| "later_schedule env ((env', request) # rs) \<longleftrightarrow> later_env env env' \<and> later_schedule env' rs"

lemma programmer_run_serve: "programmer_run rs p = can_programmer.serve rs p"
  by (induction rs arbitrary: p) (auto split: prod.split)

lemma later_schedule_from: "later_schedule env rs = can_programmer.schedule_from env rs"
  by (induction rs arbitrary: env) auto

text \<open>
  C5: Whatever requests a programmer receives after it was set up, it starts an installation only
  when the image it saved for the installer has the SHA-256 of the original.
\<close>

theorem programmer_installs_verified_image:
  assumes "0 \<le> env_now env" and "later_schedule env (rs @ [(env', request)])"
    and "p = fst (programmer_run rs (new_programmer ecu_id rcv block_size stmin))"
    and "handle_uds env' request p = (p', evs)" and "StartInstall \<in> set evs"
  shows "\<exists>saved original. saved_file (pg_receiver p') = Some saved \<and>
           env_original env' = Some original \<and> sha256 saved = sha256 original"
proof -
  let ?p = "new_programmer ecu_id rcv block_size stmin"
  have split: "can_programmer.schedule_from e (xs @ [(env', request)]) \<longleftrightarrow>
      can_programmer.schedule_from e xs \<and> later_env (can_programmer.last_env e xs) env'" for e xs
    by (induction xs arbitrary: e) (auto simp: can_programmer.last_env_def)
  have "can_programmer.schedule_from env rs" and "later_env (can_programmer.last_env env rs) env'"
    using assms(2) split by (simp_all add: later_schedule_from)
  from can_programmer.install_after_serve [OF
      programmer_inv_new [OF assms(1), of ecu_id rcv block_size stmin] this, of request]
  show ?thesis using assms(3-5) by (simp add: programmer_run_serve image_verified_def)
qed

text \<open>
  Every message a programmer sends is an answer, positive, negative or pending, to one of the
  requests it received.
\<close>

theorem programmer_answers_requests:
  assumes "Respond r \<in> set (snd (programmer_run rs p))"
  shows "\<exists>(env, request) \<in> set rs. request \<noteq> [] \<and> is_response_for_request r (Some (request ! 0))"
  using assms by (simp add: programmer_run_serve can_programmer.serve_responses)

section \<open>The lockout\<close>

lemma locked_until_session [simp]:
  "pg_security_locked_until (touch_session env p) = pg_security_locked_until p"
  "pg_security_locked_until (reset_programming_state p) = pg_security_locked_until p"
  "pg_security_locked_until (expire_session_if_needed env p) = pg_security_locked_until p"
  by (simp_all add: touch_session_def reset_programming_state_def expire_session_if_needed_def)

lemma require_session_locked:
  assumes "\<And>q. programmer_inv env q \<Longrightarrow> pg_security_locked_until q = L \<Longrightarrow>
              pg_security_locked_until (fst (service q)) = L"
    and "programmer_inv env p" and "pg_security_locked_until p = L"
  shows "pg_security_locked_until (fst (require_programming_session env sid service p)) = L"
  using assms programmer_inv_expire [OF assms(2), of env]
  by (simp add: require_programming_session_def Let_def)

lemma locked_request_seed [simp]:
  "pg_security_locked_until (fst (handle_request_seed env payload p)) = pg_security_locked_until p"
  by (simp add: handle_request_seed_def generate_seed_def Let_def)

lemma locked_send_key:
  "programmer_inv env p \<Longrightarrow> security_delay_active env p \<Longrightarrow> fst (handle_send_key env payload p) = p"
  by (simp add: handle_send_key_def programmer_inv_def)

lemma locked_erase [simp]:
  "pg_security_locked_until (erase_memory d p) = pg_security_locked_until p"
  by (simp add: erase_memory_def Let_def)

lemma handle_uds_locked:
  assumes inv: "programmer_inv env p" and L: "pg_security_locked_until p = L" and "env_now env < L"
  shows "pg_security_locked_until (fst (handle_uds env request p)) = L"
proof -
  note require = require_session_locked [OF _ inv L]
  have "security_delay_active env q" if "pg_security_locked_until q = L" for q
    using that assms(3) by (simp add: security_delay_active_def)
  then have "pg_security_locked_until (fst (handle_security_access env request p)) = L"
    unfolding handle_security_access_def by (intro require) (simp add: locked_send_key)
  moreover have "pg_security_locked_until (fst (handle_routine_control env request p)) = L"
    unfolding handle_routine_control_def by (rule require) (simp add: Let_def)
  moreover have "pg_security_locked_until (fst (handle_request_download env request p)) = L"
    unfolding handle_request_download_def by (rule require) (simp add: Let_def)
  moreover have "pg_security_locked_until (fst (handle_transfer_data env request p)) = L"
    unfolding handle_transfer_data_def by (rule require) (simp add: Let_def)
  moreover have "pg_security_locked_until (fst (handle_transfer_exit env request p)) = L"
    unfolding handle_transfer_exit_def by (rule require) (auto simp: Let_def split: sum.split)
  moreover have "pg_security_locked_until (fst (handle_ecu_reset env request p)) = L"
    unfolding handle_ecu_reset_def by (rule require) (simp add: Let_def)
  ultimately show ?thesis using L
    by (simp add: handle_uds_def handle_session_control_def handle_tester_present_def
        handle_read_data_def Let_def)
qed

lemma lockout_run:
  assumes "programmer_inv env p" and "pg_security_locked_until p = L" and "env_now env < L"
    and "later_schedule env rs" and "\<forall>(e, request) \<in> set rs. env_now e < L"
  shows "\<not> pg_security_unlocked (fst (programmer_run rs p))"
  using assms
proof (induction rs arbitrary: env p)
  case Nil
  then show ?case by (simp add: programmer_inv_def security_delay_active_def)
next
  case (Cons x rs)
  obtain e request where x: "x = (e, request)" by fastforce
  have "programmer_inv e p" using Cons.prems programmer_inv_later by (simp add: x)
  moreover from this have "programmer_inv e (fst (handle_uds e request p))" by (rule inv_handle_uds)
  moreover have "pg_security_locked_until (fst (handle_uds e request p)) = L"
    using handle_uds_locked [OF \<open>programmer_inv e p\<close> Cons.prems(2)] Cons.prems(5) by (simp add: x)
  ultimately show ?case
    using Cons.IH [of e "fst (handle_uds e request p)"] Cons.prems by (simp add: x split_beta)
qed

text \<open>\<open>live env p\<close>: requests are accepted and the programming session has not timed out.\<close>

definition live :: "uds_env \<Rightarrow> programmer \<Rightarrow> bool" where
  "live env p \<longleftrightarrow>
     env_diagnostics_enabled env \<and> env_programming_enabled env \<and>
     pg_current_session p = DEFAULT_SESSION_PROGRAMMING \<and>
     env_now env - pg_session_started_at p \<le> SESSION_TIMEOUT_SECONDS"

lemma live_require:
  "live env p \<Longrightarrow> require_programming_session env sid service p = service (touch_session env p)"
  by (simp add: require_programming_session_def expire_session_if_needed_def live_def Let_def)

lemma handle_wrong_key:
  assumes "live env p" and "pg_pending_seed p \<noteq> []" and "2 \<le> pg_security_failures p"
    and "derive_security_key (env_security env) (pg_pending_seed p) = Inr key" and "k \<noteq> key"
  shows "pg_security_locked_until (fst (handle_uds env ([0x27, 0x02] @ k) p)) =
           env_now env + SECURITY_LOCKOUT_SECONDS"
  using assms live_require [OF assms(1)]
  by (simp add: handle_uds_def handle_security_access_def handle_send_key_def live_def
      programming_services_def touch_session_def Let_def)

text \<open>
  C36: Once the third wrong key in a row has been sent, no sequence of requests unlocks the
  programmer during the next 30 seconds.
\<close>

theorem third_wrong_key_locks_out:
  assumes "programmer_inv env p" and "live env p" and "pg_pending_seed p \<noteq> []"
    and "2 \<le> pg_security_failures p"
    and "derive_security_key (env_security env) (pg_pending_seed p) = Inr key" and "k \<noteq> key"
    and "later_schedule env rs"
    and "\<forall>(e, request) \<in> set rs. env_now e < env_now env + SECURITY_LOCKOUT_SECONDS"
  shows "\<not> pg_security_unlocked (fst (programmer_run ((env, [0x27, 0x02] @ k) # rs) p))"
proof -
  let ?p = "fst (handle_uds env ([0x27, 0x02] @ k) p)"
  have "\<not> pg_security_unlocked (fst (programmer_run rs ?p))"
    by (rule lockout_run [OF inv_handle_uds [OF assms(1)] handle_wrong_key [OF assms(2-6)] _ assms(7,8)])
      simp
  then show ?thesis by (simp add: split_beta)
qed

end
