(* ===== verification/UDS_Client.thy ===== *)
theory UDS_Client
  imports UDS_Codec
begin

text \<open>
  The flashing client: \<open>transport/uds/flash_manager.py\<close>, \<open>transport/uds/client.py\<close> and the UDS
  exchange of \<open>transport/can/can_sender.py\<close>.

  A transport is the record of the methods the client calls on it; \<open>flash_firmware\<close> is
  \<open>UDSClient.flash_firmware\<close> over any transport. The locale \<open>flash_target\<close> states what the client
  relies on: each call takes the target from one phase to the next. Under it the client is
  proved once to return and to leave the whole image installing; the CAN transport over the
  ECU's programmer interprets it.
\<close>

section \<open>Transports\<close>

record 's flash_transport =
  tp_session_control :: "('s, bool) action"
  tp_tester_present :: "('s, bool) action"
  tp_request_seed :: "('s, bytes) action"
  tp_send_key :: "bytes \<Rightarrow> ('s, bool) action"
  tp_erase_memory :: "nat \<Rightarrow> ('s, bool) action"
  tp_request_download :: "nat \<Rightarrow> ('s, bool) action"
  tp_transfer_data :: "nat \<Rightarrow> bytes \<Rightarrow> ('s, bool) action"
  tp_transfer_exit :: "('s, bool) action"
  tp_verify_programming :: "('s, bool) action"
  tp_activate_image :: "('s, bool) action"
  tp_ecu_reset :: "('s, bool) action"
  tp_max_transfer_payload :: "'s \<Rightarrow> nat option"
  tp_wait_for_boot :: "('s, bool) action option"
  tp_read_software_version :: "('s, string option) action option"
  tp_target_version :: "string option"

abbreviation CHUNK_SIZE :: nat where "CHUNK_SIZE \<equiv> 62"

text \<open>\<open>if not ok: raise RuntimeError(message)\<close>.\<close>

definition require :: "string \<Rightarrow> ('s, bool) action \<Rightarrow> ('s, bool) action" where
  "require message m =
     bindS m (\<lambda>ok. if ok then returnS True else raiseS (RuntimeError message))"

section \<open>FlashManager\<close>

definition enter_programming :: "'s flash_transport \<Rightarrow> ('s, bool) action" where
  "enter_programming T =
     bindS (require ''Failed to enter programming session'' (tp_session_control T)) (\<lambda>_.
     bindS (tp_tester_present T) (\<lambda>_.
     bindS (tp_request_seed T) (\<lambda>seed.
       if seed = [] then raiseS (RuntimeError ''SecurityAccess seed request failed'')
       else bindS (require ''SecurityAccess key exchange failed'' (tp_send_key T seed)) (\<lambda>_.
         returnS True))))"

text \<open>The transfer loop; the number of chunks is computed first, which raises for a size of zero.\<close>

function transfer_chunks :: "'s flash_transport \<Rightarrow> nat \<Rightarrow> nat \<Rightarrow> bytes \<Rightarrow> ('s, bool) action" where
  "transfer_chunks T chunk_size seq firmware =
     (if chunk_size = 0 then raiseS ZeroDivisionError
      else if firmware = [] then returnS True
      else bindS (tp_transfer_data T seq (take chunk_size firmware)) (\<lambda>_.
        transfer_chunks T chunk_size ((seq + 1) mod 256) (drop chunk_size firmware)))"
  by pat_completeness auto
termination
  by (relation "measure (\<lambda>(_, _, _, f). length f)") auto

declare transfer_chunks.simps [simp del]

text \<open>The block length is an attribute of the transport when the transfer starts.\<close>

definition chunk_size :: "'s flash_transport \<Rightarrow> 's \<Rightarrow> nat" where
  "chunk_size T s = (case tp_max_transfer_payload T s of None \<Rightarrow> CHUNK_SIZE | Some n \<Rightarrow> n)"

definition flash_transfer_data :: "'s flash_transport \<Rightarrow> bytes \<Rightarrow> ('s, bool) action" where
  "flash_transfer_data T firmware s = transfer_chunks T (chunk_size T s) 1 firmware s"

definition flash_transfer_exit :: "'s flash_transport \<Rightarrow> ('s, bool) action" where
  "flash_transfer_exit T =
     bindS (tp_transfer_exit T) (\<lambda>exited.
       if \<not> exited then returnS False
       else bindS (tp_verify_programming T) (\<lambda>verified.
         if \<not> verified then returnS False else tp_activate_image T))"

section \<open>UDSClient\<close>

definition confirm_boot :: "'s flash_transport \<Rightarrow> ('s, bool) action" where
  "confirm_boot T =
     (case tp_wait_for_boot T of
        None \<Rightarrow> returnS True
      | Some wait \<Rightarrow> require ''Post-reset boot confirmation failed'' wait)"

definition confirm_readback :: "'s flash_transport \<Rightarrow> ('s, bool) action" where
  "confirm_readback T =
     (case (tp_read_software_version T, tp_target_version T) of
        (Some read, Some target_version) \<Rightarrow>
          bindS read (\<lambda>actual.
            if actual \<noteq> Some target_version
            then raiseS (RuntimeError ''Post-reset version readback mismatch'')
            else returnS True)
      | _ \<Rightarrow> returnS True)"

definition program_and_reset :: "'s flash_transport \<Rightarrow> bytes \<Rightarrow> ('s, bool) action" where
  "program_and_reset T firmware =
     bindS (enter_programming T) (\<lambda>_.
     bindS (require ''Erase routine failed'' (tp_erase_memory T (length firmware))) (\<lambda>_.
     bindS (require ''Request download rejected'' (tp_request_download T (length firmware))) (\<lambda>_.
     bindS (require ''Transfer data failed'' (flash_transfer_data T firmware)) (\<lambda>_.
     bindS (require ''Request transfer exit failed'' (flash_transfer_exit T)) (\<lambda>_.
       require ''ECU reset failed'' (tp_ecu_reset T))))))"

definition flash_firmware :: "'s flash_transport \<Rightarrow> bytes \<Rightarrow> ('s, bool) action" where
  "flash_firmware T firmware =
     bindS (program_and_reset T firmware) (\<lambda>_. bindS (confirm_boot T) (\<lambda>_. confirm_readback T))"

section \<open>What the client relies on\<close>

text \<open>
  The phases of a target: \<open>idle\<close>, the session open, a seed given, unlocked, erased, \<open>loading n q d\<close>
  (a download of \<open>n\<close> bytes that has received \<open>d\<close> and expects block \<open>q\<close>), the image \<open>received\<close>,
  \<open>activated\<close> and, after the reset, \<open>installing\<close>. \<open>acceptable s d\<close>: the target will find the
  image \<open>d\<close> to be the right one.
\<close>

locale flash_target =
  fixes T :: "'s flash_transport"
    and block :: nat
    and acceptable :: "'s \<Rightarrow> bytes \<Rightarrow> bool"
    and idle :: "'s \<Rightarrow> bool"
    and opened :: "'s \<Rightarrow> bool"
    and seeded :: "bytes \<Rightarrow> 's \<Rightarrow> bool"
    and unlocked :: "'s \<Rightarrow> bool"
    and erased :: "'s \<Rightarrow> bool"
    and loading :: "nat \<Rightarrow> nat \<Rightarrow> bytes \<Rightarrow> 's \<Rightarrow> bool"
    and received :: "bytes \<Rightarrow> 's \<Rightarrow> bool"
    and activated :: "bytes \<Rightarrow> 's \<Rightarrow> bool"
    and installing :: "bytes \<Rightarrow> 's \<Rightarrow> bool"
  assumes open_session: "idle s \<Longrightarrow> \<exists>s'. tp_session_control T s = (Inr True, s') \<and> opened s' \<and>
          acceptable s' = acceptable s"
    and keep_session: "opened s \<Longrightarrow> \<exists>s' b. tp_tester_present T s = (Inr b, s') \<and> opened s' \<and>
          acceptable s' = acceptable s"
    and give_seed: "opened s \<Longrightarrow> \<exists>s' seed. tp_request_seed T s = (Inr seed, s') \<and> seed \<noteq> [] \<and>
          seeded seed s' \<and> acceptable s' = acceptable s"
    and accept_key: "seeded seed s \<Longrightarrow> \<exists>s'. tp_send_key T seed s = (Inr True, s') \<and> unlocked s' \<and>
          acceptable s' = acceptable s"
    and erase: "unlocked s \<Longrightarrow> n < 256 ^ 4 \<Longrightarrow> \<exists>s'. tp_erase_memory T n s = (Inr True, s') \<and> erased s' \<and>
          acceptable s' = acceptable s"
    and download: "erased s \<Longrightarrow> n < 256 ^ 4 \<Longrightarrow>
          \<exists>s'. tp_request_download T n s = (Inr True, s') \<and> loading n 1 [] s' \<and>
          acceptable s' = acceptable s"
    and block_size: "loading n q d s \<Longrightarrow> chunk_size T s = block"
    and transfer: "loading n q d s \<Longrightarrow> c \<noteq> [] \<Longrightarrow> length c \<le> block \<Longrightarrow>
          length d + length c \<le> n \<Longrightarrow>
          \<exists>s' b. tp_transfer_data T q c s = (Inr b, s') \<and> loading n ((q + 1) mod 256) (d @ c) s' \<and>
          acceptable s' = acceptable s"
    and finish: "loading n q d s \<Longrightarrow> length d = n \<Longrightarrow> acceptable s d \<Longrightarrow>
          \<exists>s'. tp_transfer_exit T s = (Inr True, s') \<and> received d s'"
    and verify: "received d s \<Longrightarrow> \<exists>s'. tp_verify_programming T s = (Inr True, s') \<and> received d s'"
    and activate: "received d s \<Longrightarrow> \<exists>s'. tp_activate_image T s = (Inr True, s') \<and> activated d s'"
    and reset: "activated d s \<Longrightarrow> \<exists>s'. tp_ecu_reset T s = (Inr True, s') \<and> installing d s'"
begin

lemma require_ok [simp]: "m s = (Inr True, s') \<Longrightarrow> require msg m s = (Inr True, s')"
  by (simp add: require_def)

lemma enter_programming_ok:
  assumes "idle s"
  shows "\<exists>s'. enter_programming T s = (Inr True, s') \<and> unlocked s' \<and> acceptable s' = acceptable s"
proof -
  obtain s1 where s1: "tp_session_control T s = (Inr True, s1)" "opened s1" "acceptable s1 = acceptable s"
    using open_session [OF assms] by blast
  obtain s2 b where s2: "tp_tester_present T s1 = (Inr b, s2)" "opened s2" "acceptable s2 = acceptable s1"
    using keep_session [OF s1(2)] by blast
  obtain s3 seed where s3: "tp_request_seed T s2 = (Inr seed, s3)" "seed \<noteq> []" "seeded seed s3"
      "acceptable s3 = acceptable s2"
    using give_seed [OF s2(2)] by blast
  obtain s4 where s4: "tp_send_key T seed s3 = (Inr True, s4)" "unlocked s4" "acceptable s4 = acceptable s3"
    using accept_key [OF s3(3)] by blast
  have "enter_programming T s = (Inr True, s4)"
    by (simp add: enter_programming_def s1(1) s2(1) s3(1,2) s4(1))
  then show ?thesis using s1(3) s2(3) s3(4) s4(2,3) by simp
qed

lemma transfer_chunks_ok:
  "0 < k \<Longrightarrow> k \<le> block \<Longrightarrow> loading n q d s \<Longrightarrow> length d + length fw \<le> n \<Longrightarrow>
     \<exists>s' q'. transfer_chunks T k q fw s = (Inr True, s') \<and> loading n q' (d @ fw) s' \<and>
       acceptable s' = acceptable s"
proof (induction "length fw" arbitrary: fw q d s rule: less_induct)
  case less
  show ?case
  proof (cases "fw = []")
    case True
    then have "transfer_chunks T k q fw s = (Inr True, s)"
      using less.prems(1) by (simp add: transfer_chunks.simps)
    then show ?thesis using less.prems(3) True by (intro exI [of _ s] exI [of _ q]) simp
  next
    case False
    let ?c = "take k fw"
    have c: "?c \<noteq> []" "length ?c \<le> block" "length d + length ?c \<le> n"
      using False less.prems by auto
    obtain s1 b where s1: "tp_transfer_data T q ?c s = (Inr b, s1)"
        "loading n ((q + 1) mod 256) (d @ ?c) s1" "acceptable s1 = acceptable s"
      using transfer [OF less.prems(3) c] by blast
    have "length (d @ ?c) + length (drop k fw) \<le> n"
      using less.prems(4) by simp
    moreover have "length (drop k fw) < length fw"
      using False less.prems(1) by simp
    ultimately obtain s' q' where "transfer_chunks T k ((q + 1) mod 256) (drop k fw) s1 = (Inr True, s')"
        "loading n q' ((d @ ?c) @ drop k fw) s'" "acceptable s' = acceptable s1"
      using less.hyps [OF _ less.prems(1,2) s1(2)] by blast
    then show ?thesis
      using False less.prems(1) s1
      by (intro exI [of _ s'] exI [of _ q']) (simp add: transfer_chunks.simps [of T k q fw])
  qed
qed

text \<open>The client returns and the whole image is being installed.\<close>

lemma program_and_reset_ok:
  assumes "idle s" and "length fw < 256 ^ 4" and "0 < block" and "acceptable s fw"
  shows "\<exists>s'. program_and_reset T fw s = (Inr True, s') \<and> installing fw s'"
proof -
  obtain s1 where s1: "enter_programming T s = (Inr True, s1)" "unlocked s1" "acceptable s1 = acceptable s"
    using enter_programming_ok [OF assms(1)] by blast
  obtain s2 where s2: "tp_erase_memory T (length fw) s1 = (Inr True, s2)" "erased s2"
      "acceptable s2 = acceptable s1"
    using erase [OF s1(2) assms(2)] by blast
  obtain s3 where s3: "tp_request_download T (length fw) s2 = (Inr True, s3)"
      "loading (length fw) 1 [] s3" "acceptable s3 = acceptable s2"
    using download [OF s2(2) assms(2)] by blast
  obtain s4 q where s4: "transfer_chunks T block 1 fw s3 = (Inr True, s4)"
      "loading (length fw) q fw s4" "acceptable s4 = acceptable s3"
    using transfer_chunks_ok [OF assms(3) order_refl s3(2), of fw] by auto
  have "acceptable s4 fw" using assms(4) s1(3) s2(3) s3(3) s4(3) by simp
  then obtain s5 where s5: "tp_transfer_exit T s4 = (Inr True, s5)" "received fw s5"
    using finish [OF s4(2) refl] by blast
  obtain s6 where s6: "tp_verify_programming T s5 = (Inr True, s6)" "received fw s6"
    using verify [OF s5(2)] by blast
  obtain s7 where s7: "tp_activate_image T s6 = (Inr True, s7)" "activated fw s7"
    using activate [OF s6(2)] by blast
  obtain s8 where s8: "tp_ecu_reset T s7 = (Inr True, s8)" "installing fw s8"
    using reset [OF s7(2)] by blast
  have "flash_transfer_exit T s4 = (Inr True, s7)"
    by (simp add: flash_transfer_exit_def s5(1) s6(1) s7(1))
  moreover have "flash_transfer_data T fw s3 = (Inr True, s4)"
    using s4(1) block_size [OF s3(2)] by (simp add: flash_transfer_data_def)
  ultimately have "program_and_reset T fw s = (Inr True, s8)"
    by (simp add: program_and_reset_def s1(1) s2(1) s3(1) s8(1))
  then show ?thesis using s8(2) by blast
qed

end

end
