(* ===== verification/CAN_Sender.thy ===== *)
theory CAN_Sender
  imports UDS_Client UDS_Programmer
begin

text \<open>
  The tester behind the CAN bus: the UDS exchange of \<open>transport/can/can_sender.py\<close> (\<open>CANSender\<close>)
  with the ECU's programmer at the other end.

  A request is segmented into ISO-TP frames, which the programmer's \<open>feed\<close> reassembles; the
  payloads it answers with arrive at the tester. The tester never sends a flow control frame,
  so only answers that fit a single frame arrive. \<open>_receive_uds_response\<close> and
  \<open>_expect_positive_response\<close> go through what arrives before the deadline, a list here.
\<close>

section \<open>The exchange\<close>

record can_link =
  cl_online :: bool
  cl_library :: "udsoncan option"
  cl_tester_security :: security_env
  cl_envs :: "nat \<Rightarrow> uds_env"
  cl_clock :: nat
  cl_programmer :: programmer
  cl_installs :: "bytes option list"

text \<open>The programmer fed with the frames of one request.\<close>

fun feed_frames :: "uds_env \<Rightarrow> bytes list \<Rightarrow> programmer \<Rightarrow> uds_step" where
  "feed_frames env [] p = (p, [])"
| "feed_frames env (f # fs) p =
     (let (_, _, (p', evs)) = programmer_feed env f p; (p'', evs') = feed_frames env fs p'
      in (p'', evs @ evs'))"

definition delivered :: "uds_event list \<Rightarrow> bytes list" where
  "delivered evs =
     concat (map (\<lambda>e. case e of
        Respond r \<Rightarrow> if r \<noteq> [] \<and> length r \<le> SF_MAX_PAYLOAD then [r] else []
      | _ \<Rightarrow> []) evs)"

definition started_installs :: "uds_event list \<Rightarrow> programmer \<Rightarrow> bytes option list" where
  "started_installs evs p =
     concat (map (\<lambda>e. case e of StartInstall \<Rightarrow> [saved_file (pg_receiver p)] | _ \<Rightarrow> []) evs)"

text \<open>\<open>_send_uds_request\<close>: refused while the ECU's zone is offline.\<close>

definition send_uds_request :: "bytes result \<Rightarrow> (can_link, bytes list) action" where
  "send_uds_request request s =
     (case request of
        Inl e \<Rightarrow> (Inl e, s)
      | Inr payload \<Rightarrow>
          if \<not> cl_online s then (Inl (RuntimeError ''zone is offline''), s)
          else case segment payload of
            Inl e \<Rightarrow> (Inl e, s)
          | Inr frames \<Rightarrow>
              let env = cl_envs s (cl_clock s);
                  (p, evs) = feed_frames env frames (cl_programmer s)
              in (Inr (delivered evs),
                  s\<lparr>cl_clock := cl_clock s + 1, cl_programmer := p,
                    cl_installs := cl_installs s @ started_installs evs p\<rparr>))"

text \<open>
  \<open>_expect_positive_response\<close>: passes over traffic that is not for the request and over
  response-pending messages, raises on a negative answer.
\<close>

fun expect_positive_response :: "byte \<Rightarrow> bytes list \<Rightarrow> bytes result" where
  "expect_positive_response sid [] =
     Inl (TimeoutError ''Timed out waiting for final UDS response'')"
| "expect_positive_response sid (response # inbox) =
     (if \<not> is_response_for_request response (Some sid) then expect_positive_response sid inbox
      else if is_response_pending response (Some sid) then expect_positive_response sid inbox
      else if is_negative_response response then Inl (RuntimeError ''UDS request rejected'')
      else if response = [] \<or> response ! 0 \<noteq> positive_response_sid sid
      then Inl (RuntimeError ''Unexpected UDS response'')
      else Inr response)"

definition uds_exchange :: "byte \<Rightarrow> bytes result \<Rightarrow> (can_link, bytes) action" where
  "uds_exchange sid request =
     bindS (send_uds_request request) (\<lambda>inbox s. (expect_positive_response sid inbox, s))"

section \<open>The methods\<close>

definition can_diagnostic_session_control :: "(can_link, bool) action" where
  "can_diagnostic_session_control s =
     bindS (uds_exchange SID_DIAGNOSTIC_SESSION_CONTROL
       (build_diagnostic_session_control (cl_library s) 0x02)) (\<lambda>_. returnS True) s"

definition can_tester_present :: "(can_link, bool) action" where
  "can_tester_present s =
     bindS (uds_exchange SID_TESTER_PRESENT (build_tester_present (cl_library s) False))
       (\<lambda>_. returnS True) s"

definition can_request_download :: "nat \<Rightarrow> (can_link, bool) action" where
  "can_request_download n s =
     bindS (uds_exchange SID_REQUEST_DOWNLOAD (build_request_download (cl_library s) n 0))
       (\<lambda>_. returnS True) s"

definition can_request_seed :: "(can_link, bytes) action" where
  "can_request_seed s =
     bindS (uds_exchange SID_SECURITY_ACCESS (build_security_access_request_seed (cl_library s) 0x01))
       (\<lambda>response. returnS (drop 2 response)) s"

definition can_send_key :: "bytes \<Rightarrow> (can_link, bool) action" where
  "can_send_key seed s =
     bindS (uds_exchange SID_SECURITY_ACCESS
       (bindE (derive_security_key (cl_tester_security s) seed)
         (build_security_access_send_key (cl_library s) 0x02))) (\<lambda>_. returnS True) s"

definition can_erase_memory :: "nat \<Rightarrow> (can_link, bool) action" where
  "can_erase_memory n s =
     bindS (uds_exchange SID_ROUTINE_CONTROL
       (bindE (to_bytes 4 n) (build_routine_control_start (cl_library s) ROUTINE_ERASE_MEMORY)))
       (\<lambda>_. returnS True) s"

definition can_transfer_data :: "nat \<Rightarrow> bytes \<Rightarrow> (can_link, bool) action" where
  "can_transfer_data seq data s =
     bindS (uds_exchange SID_TRANSFER_DATA (build_transfer_data (cl_library s) seq data))
       (\<lambda>_. returnS True) s"

definition can_request_transfer_exit :: "(can_link, bool) action" where
  "can_request_transfer_exit s =
     bindS (uds_exchange SID_REQUEST_TRANSFER_EXIT (build_request_transfer_exit (cl_library s)))
       (\<lambda>_. returnS True) s"

definition can_verify_programming :: "(can_link, bool) action" where
  "can_verify_programming s =
     bindS (uds_exchange SID_ROUTINE_CONTROL
       (build_routine_control_start (cl_library s) ROUTINE_VERIFY_IMAGE [])) (\<lambda>_. returnS True) s"

definition can_activate_image :: "(can_link, bool) action" where
  "can_activate_image s =
     bindS (uds_exchange SID_ROUTINE_CONTROL
       (build_routine_control_start (cl_library s) ROUTINE_ACTIVATE_IMAGE [])) (\<lambda>_. returnS True) s"

definition can_ecu_reset :: "(can_link, bool) action" where
  "can_ecu_reset s =
     bindS (uds_exchange SID_ECU_RESET (build_ecu_reset (cl_library s) 0x01)) (\<lambda>_. returnS True) s"

definition can_read_software_version :: "(can_link, string option) action" where
  "can_read_software_version s =
     bindS (uds_exchange SID_READ_DATA_BY_IDENTIFIER
       (build_read_data_by_identifier (cl_library s) DID_SOFTWARE_VERSION))
       (\<lambda>response. returnS (parse_software_version response)) s"

text \<open>
  The transport \<open>UDSClient\<close> gets, with the payload size of \<open>OTA_VCAN_TRANSFER_PAYLOAD\<close> and the
  boot confirmation, which waits for the rebooted ECU, as arguments.
\<close>

definition can_transport ::
    "nat \<Rightarrow> (can_link, bool) action option \<Rightarrow> string option \<Rightarrow> can_link flash_transport" where
  "can_transport payload_size wait_for_boot target_version =
     \<lparr>tp_session_control = can_diagnostic_session_control, tp_tester_present = can_tester_present,
      tp_request_seed = can_request_seed, tp_send_key = can_send_key,
      tp_erase_memory = can_erase_memory, tp_request_download = can_request_download,
      tp_transfer_data = can_transfer_data, tp_transfer_exit = can_request_transfer_exit,
      tp_verify_programming = can_verify_programming, tp_activate_image = can_activate_image,
      tp_ecu_reset = can_ecu_reset, tp_max_transfer_payload = (\<lambda>_. Some payload_size),
      tp_wait_for_boot = wait_for_boot, tp_read_software_version = Some can_read_software_version,
      tp_target_version = target_version\<rparr>"

section \<open>Requests reach the programmer whole\<close>

section \<open>Requests reach the programmer whole\<close>

lemma feed_frames_more:
  assumes "is_isotp_candidate f" and "reassembler_feed f (pg_reassembler p) = (r, None)"
  shows "feed_frames env (f # fs) p =
           feed_frames env fs (p\<lparr>pg_reassembler := r\<lparr>pending_flow_control := None\<rparr>\<rparr>)"
  using assms by (simp add: programmer_feed_def pop_flow_control_frame_def split_beta)

lemma feed_frames_last:
  assumes "is_isotp_candidate f" and "reassembler_feed f (pg_reassembler p) = (reassembler_reset r, Some x)"
  shows "feed_frames env [f] p = handle_uds env x (p\<lparr>pg_reassembler := reassembler_reset r\<rparr>)"
  using assms
  by (simp add: programmer_feed_def pop_flow_control_frame_def reassembler_reset_def split_beta)

lemma candidate_consecutive: "is_isotp_candidate (consecutive_frame s c)"
  by (simp add: is_isotp_candidate_def consecutive_frame_def pci_simps Let_def)

lemma candidate_first: "first_frame n c = Inr f \<Longrightarrow> is_isotp_candidate f"
  by (auto simp: first_frame_Inr_iff is_isotp_candidate_def pci_simps Let_def)

lemma candidate_single: "single_frame c = Inr f \<Longrightarrow> c \<noteq> [] \<Longrightarrow> is_isotp_candidate f"
proof (cases "length c \<le> 15")
  case True
  assume "single_frame c = Inr f" and "c \<noteq> []"
  with True have f: "f = word_of_nat (length c) # c" and "length c < 16" and "0 < length c"
    by (auto simp: single_frame_Inr_iff)
  then show ?thesis
    by (simp add: is_isotp_candidate_def pci_simps Let_def)
next
  case False
  assume "single_frame c = Inr f"
  with False have "f = [0x00, word_of_nat (length c)] @ c" and "length c \<le> 62"
    by (auto simp: single_frame_Inr_iff)
  then show ?thesis
    by (simp add: is_isotp_candidate_def pci_simps Let_def)
qed

lemma reset_popped [simp]:
  "reassembler_reset (r\<lparr>pending_flow_control := x\<rparr>) = reassembler_reset r"
  by (simp add: reassembler_reset_def)

lemma feed_consecutive_to_programmer:
  assumes "q \<noteq> []" and "expected_length (pg_reassembler p) = Some n"
    and "next_sequence (pg_reassembler p) = s" and "s < 16"
    and "length (rx_data (pg_reassembler p) @ q) = n"
  shows "feed_frames env (consecutive_frames s q) p =
           handle_uds env (rx_data (pg_reassembler p) @ q)
             (p\<lparr>pg_reassembler := reassembler_reset (pg_reassembler p)\<rparr>)"
  using assms
proof (induction s q arbitrary: p rule: consecutive_frames.induct)
  case (1 s q)
  let ?c = "take 63 q" and ?r = "pg_reassembler p"
  have c: "?c \<noteq> []" using "1.prems"(1) by simp
  note split = consecutive_frames_step [OF "1.prems"(1), of s]
  show ?case
  proof (cases "drop 63 q = []")
    case True
    then have q: "?c = q" by simp
    have "reassembler_feed (consecutive_frame s q) ?r = (reassembler_reset ?r, Some (rx_data ?r @ q))"
      using feed_last [OF "1.prems"(2,3,4,1)] "1.prems"(5) by simp
    from feed_frames_last [OF candidate_consecutive this] show ?thesis
      by (simp add: split q True)
  next
    case False
    then have "length (rx_data ?r @ ?c) < n" using "1.prems"(5) by auto
    with feed_more [OF "1.prems"(2,3,4) c] obtain r' where
      r': "reassembler_feed (consecutive_frame s ?c) ?r = (r', None)"
        "expected_length r' = Some n" "rx_data r' = rx_data ?r @ ?c"
        "next_sequence r' = (s + 1) mod 16" "reassembler_reset r' = reassembler_reset ?r"
      by metis
    let ?p = "p\<lparr>pg_reassembler := r'\<lparr>pending_flow_control := None\<rparr>\<rparr>"
    have "feed_frames env (consecutive_frames ((s + 1) mod 16) (drop 63 q)) ?p =
        handle_uds env (rx_data (pg_reassembler ?p) @ drop 63 q)
          (?p\<lparr>pg_reassembler := reassembler_reset (pg_reassembler ?p)\<rparr>)"
      using "1.prems"(5) r' False
      by (intro "1.IH" [OF "1.prems"(1)]) auto
    then show ?thesis
      using feed_frames_more [OF candidate_consecutive r'(1)] by (simp add: split r')
  qed
qed

lemma feed_segment_to_programmer:
  assumes "segment x = Inr fs" and "x \<noteq> []"
  shows "feed_frames env fs p =
           handle_uds env x (p\<lparr>pg_reassembler := reassembler_reset (pg_reassembler p)\<rparr>)"
proof (cases "length x \<le> 62")
  case True
  with assms obtain f where f: "single_frame x = Inr f" and fs: "fs = [f]"
    by (auto simp: segment_Inr_iff)
  from feed_frames_last [OF candidate_single [OF f assms(2)] feed_single [OF f assms(2)]] show ?thesis
    by (simp add: fs)
next
  case False
  with assms obtain f where f: "first_frame (length x) (take 62 x) = Inr f"
    and fs: "fs = f # consecutive_frames 1 (drop 62 x)"
    by (auto simp: segment_Inr_iff)
  have "62 < length x" and "length x \<le> 0xFFF"
    using False f by (auto simp: first_frame_Inr_iff)
  then obtain r' where r': "reassembler_feed f (pg_reassembler p) = (r', None)"
      "expected_length r' = Some (length x)" "next_sequence r' = 1" "rx_data r' = take 62 x"
      "reassembler_reset r' = reassembler_reset (pg_reassembler p)"
    using f by (rule feed_first_of_many)
  let ?p = "p\<lparr>pg_reassembler := r'\<lparr>pending_flow_control := None\<rparr>\<rparr>"
  have "feed_frames env (consecutive_frames 1 (drop 62 x)) ?p =
      handle_uds env (rx_data (pg_reassembler ?p) @ drop 62 x)
        (?p\<lparr>pg_reassembler := reassembler_reset (pg_reassembler ?p)\<rparr>)"
    using False r' by (intro feed_consecutive_to_programmer) auto
  then show ?thesis
    using feed_frames_more [OF candidate_first [OF f] r'(1)] by (simp add: fs r')
qed

text \<open>One exchange, when the request can be built and the ECU is reachable.\<close>

lemma uds_exchange_eq:
  assumes "request = Inr x" and "cl_online s" and "x \<noteq> []" and "length x \<le> 0xFFF"
    and "handle_uds (cl_envs s (cl_clock s)) x
           ((cl_programmer s)\<lparr>pg_reassembler := reassembler_reset (pg_reassembler (cl_programmer s))\<rparr>) = (p, evs)"
  shows "uds_exchange sid request s =
           (expect_positive_response sid (delivered evs),
            s\<lparr>cl_clock := cl_clock s + 1, cl_programmer := p,
              cl_installs := cl_installs s @ started_installs evs p\<rparr>)"
proof -
  obtain fs where fs: "segment x = Inr fs"
    using segment_defined assms(4) by blast
  have "send_uds_request request s = (Inr (delivered evs),
      s\<lparr>cl_clock := cl_clock s + 1, cl_programmer := p,
        cl_installs := cl_installs s @ started_installs evs p\<rparr>)"
    using assms feed_segment_to_programmer [OF fs assms(3)]
    by (simp add: send_uds_request_def fs Let_def)
  then show ?thesis by (simp add: uds_exchange_def)
qed

lemma expect_positive:
  assumes "sid \<noteq> 0x3F"
  shows "expect_positive_response sid ((positive_response_sid sid # r) # inbox) =
           Inr (positive_response_sid sid # r)"
  using assms positive_response_sid_neq_negative [of sid]
  by (simp add: positive_response_for_request is_response_pending_def is_negative_response_def)

lemma expect_pending [simp]:
  "expect_positive_response sid ([0x7F, sid, 0x78] # inbox) = expect_positive_response sid inbox"
  by (simp add: negative_response_for_request is_response_pending_def is_negative_response_def)

lemma delivered_simps [simp]:
  "delivered [] = []"
  "delivered (Respond r # evs) = (if r \<noteq> [] \<and> length r \<le> 62 then r # delivered evs else delivered evs)"
  "delivered (StartInstall # evs) = delivered evs"
  "delivered (Raised e # evs) = delivered evs"
  "delivered (response_pending sid # evs) = [0x7F, sid, 0x78] # delivered evs"
  by (simp_all add: delivered_def response_pending_def)

lemma started_installs_simps [simp]:
  "started_installs [] p = []"
  "started_installs (Respond r # evs) p = started_installs evs p"
  "started_installs (response_pending sid # evs) p = started_installs evs p"
  "started_installs (StartInstall # evs) p = saved_file (pg_receiver p) # started_installs evs p"
  by (simp_all add: started_installs_def response_pending_def)

section \<open>The programmer during a flashing session\<close>

lemma handle_open:
  assumes "env_diagnostics_enabled env"
  shows "handle_uds env [0x10, 0x02] p =
     (touch_session env (reset_programming_state (p\<lparr>pg_current_session := 0x02\<rparr>)),
      [Respond [positive_response_sid 0x10, 0x02]])"
  using assms
  by (simp add: handle_uds_def handle_session_control_def programming_services_def reply_def Let_def)

lemma handle_keep:
  assumes "live env p"
  shows "handle_uds env [0x3E, 0x00] p = (touch_session env p, [Respond [positive_response_sid 0x3E, 0x00]])"
  using assms
  by (simp add: handle_uds_def handle_tester_present_def programming_services_def reply_def live_def
      expire_session_if_needed_def Let_def)

lemma handle_seed:
  assumes "live env p" and "\<not> security_delay_active env p"
  shows "handle_uds env [0x27, 0x01] p =
     (let (q, seed) = generate_seed (touch_session env p)
      in (q\<lparr>pg_pending_seed := seed, pg_security_unlocked := False\<rparr>,
          [Respond ([positive_response_sid 0x27, 0x01] @ seed)]))"
  using assms live_require [OF assms(1)]
  by (simp add: handle_uds_def handle_security_access_def handle_request_seed_def live_def
      programming_services_def security_delay_active_def touch_session_def reply_def Let_def split_beta)

lemma handle_key:
  assumes "live env p" and "pg_pending_seed p \<noteq> []"
    and "derive_security_key (env_security env) (pg_pending_seed p) = Inr key"
  shows "handle_uds env ([0x27, 0x02] @ key) p =
     ((touch_session env p)\<lparr>pg_security_unlocked := True, pg_security_failures := 0, pg_pending_seed := []\<rparr>,
      [Respond [positive_response_sid 0x27, 0x02]])"
  using assms live_require [OF assms(1)]
  by (simp add: handle_uds_def handle_security_access_def handle_send_key_def live_def
      programming_services_def touch_session_def reply_def Let_def)

lemma from_be_routine:
  "from_be (be_bytes 2 n) = n mod 65536"
  by (simp add: from_be_be_bytes_mod)

lemma length_2: "length xs = 2 \<Longrightarrow> xs = [xs ! 0, xs ! 1]"
  by (auto simp: numeral_2_eq_2 length_Suc_conv)

lemma routine_payload:
  "length (be_bytes 2 n) = 2" "take 2 (be_bytes 2 n @ d) = be_bytes 2 n" "drop 2 (be_bytes 2 n @ d) = d"
  by simp_all

lemma handle_routine:
  assumes "live env p" and "pg_security_unlocked p"
  shows "handle_uds env ([0x31, 0x01] @ be_bytes 2 n @ d) p =
     (let q = touch_session env p; routine_id = n mod 65536;
          request = [0x31, 0x01] @ be_bytes 2 n @ d in
      if routine_id = ROUTINE_ERASE_MEMORY then routine_reply request (erase_memory d q)
      else if routine_id = ROUTINE_VERIFY_IMAGE then
        (if \<not> pg_install_pending q then negative 0x31 0x72 q else routine_reply request q)
      else if routine_id = ROUTINE_ACTIVATE_IMAGE then
        (if \<not> pg_install_pending q then negative 0x31 0x72 q
         else routine_reply request (q\<lparr>pg_activation_marked := True\<rparr>))
      else negative 0x31 0x31 q)"
  using assms live_require [OF assms(1)]
  by (simp add: handle_uds_def handle_routine_control_def live_def from_be_routine
      programming_services_def touch_session_def Let_def)

lemma routine_reply_events:
  "snd (routine_reply ([0x31, 0x01] @ be_bytes 2 n @ d) p) =
     [response_pending 0x31, Respond ([positive_response_sid 0x31, 0x01] @ be_bytes 2 n)]"
  by (simp add: routine_reply_def)

lemma handle_download:
  assumes "live env p" and "pg_security_unlocked p" and "pg_erase_completed p" and "n < 256 ^ 4"
  shows "handle_uds env ([0x34, 0x00, 0x44] @ be_bytes 4 a @ be_bytes 4 n) p =
     ((touch_session env p)\<lparr>pg_expected_size := n, pg_received_size := 0, pg_install_pending := False,
              pg_install_started := False, pg_download_requested := True,
              pg_expected_transfer_sequence := 1,
              pg_receiver := set_expected_size n (receiver_clear (pg_receiver p))\<rparr>,
      [Respond [positive_response_sid 0x34, 0x00, 0x44, 0x00, 0x40]])"
  using assms live_require [OF assms(1)]
  by (simp add: handle_uds_def handle_request_download_def live_def from_be_be_bytes
      programming_services_def touch_session_def reply_def Let_def)

lemma handle_transfer:
  assumes "live env p" and "pg_security_unlocked p" and "pg_download_requested p"
    and "pg_expected_transfer_sequence p = q" and "q < 256" and "c \<noteq> []"
    and "pg_received_size p + length c \<le> pg_expected_size p"
  shows "handle_uds env ([0x36, word_of_nat q] @ c) p =
     ((touch_session env p)
        \<lparr>pg_receiver := (pg_receiver p)\<lparr>rcv_buffer := rcv_buffer (pg_receiver p) @ c,
           rcv_chunk_count := rcv_chunk_count (pg_receiver p) + 1\<rparr>,
         pg_received_size := pg_received_size p + length c,
         pg_expected_transfer_sequence := (q + 1) mod 256\<rparr>,
      [Respond [positive_response_sid 0x36, word_of_nat q]])"
  using assms live_require [OF assms(1)]
  by (simp add: handle_uds_def handle_transfer_data_def live_def
      programming_services_def touch_session_def reply_def Let_def)

lemma handle_exit:
  assumes "live env p" and "pg_security_unlocked p" and "pg_download_requested p"
    and "pg_received_size p = pg_expected_size p"
    and "env_original env = Some (firmware_data (pg_receiver p))"
  shows "handle_uds env [0x37] p =
     ((touch_session env p)\<lparr>pg_receiver := receiver_save (pg_receiver p), pg_install_pending := True,
         pg_download_requested := False\<rparr>,
      [response_pending 0x37, Respond [positive_response_sid 0x37]])"
  using assms live_require [OF assms(1)]
  by (simp add: handle_uds_def handle_transfer_exit_def live_def receiver_verify_def
      receiver_sha256_def programming_services_def touch_session_def Let_def)

lemma handle_reset:
  assumes "live env p" and "pg_install_pending p" and "pg_activation_marked p"
    and "\<not> pg_install_started p"
  shows "handle_uds env [0x11, 0x01] p =
     (reset_programming_state ((touch_session env p)\<lparr>pg_install_started := True, pg_current_session := 0x00\<rparr>),
      [Respond [positive_response_sid 0x11, 0x01], StartInstall])"
  using assms live_require [OF assms(1)]
  by (simp add: handle_uds_def handle_ecu_reset_def live_def
      programming_services_def touch_session_def Let_def)

section \<open>The CAN transport as a flash target\<close>

definition ready_programmer :: "can_link \<Rightarrow> programmer" where
  "ready_programmer s =
     (cl_programmer s)\<lparr>pg_reassembler := reassembler_reset (pg_reassembler (cl_programmer s))\<rparr>"

definition next_link :: "can_link \<Rightarrow> programmer \<Rightarrow> uds_event list \<Rightarrow> can_link" where
  "next_link s p evs =
     s\<lparr>cl_clock := cl_clock s + 1, cl_programmer := p, cl_installs := cl_installs s @ started_installs evs p\<rparr>"

definition env_of :: "can_link \<Rightarrow> uds_env" where
  "env_of s = cl_envs s (cl_clock s)"

lemma next_link_simps [simp]:
  "cl_online (next_link s p evs) = cl_online s" "cl_library (next_link s p evs) = cl_library s"
  "cl_tester_security (next_link s p evs) = cl_tester_security s"
  "cl_envs (next_link s p evs) = cl_envs s" "cl_clock (next_link s p evs) = cl_clock s + 1"
  "cl_programmer (next_link s p evs) = p"
  "cl_installs (next_link s p evs) = cl_installs s @ started_installs evs p"
  by (simp_all add: next_link_def)

lemma uds_exchange_positive:
  assumes "request = Inr x" and "cl_online s" and "x \<noteq> []" and "length x \<le> 0xFFF"
    and "handle_uds (env_of s) x (ready_programmer s) = (p, evs)"
    and "delivered evs = (positive_response_sid sid # r) # rest \<or>
         delivered evs = [0x7F, sid, 0x78] # (positive_response_sid sid # r) # rest"
    and "sid \<noteq> 0x3F"
  shows "uds_exchange sid request s = (Inr (positive_response_sid sid # r), next_link s p evs)"
proof -
  have "expect_positive_response sid (delivered evs) = Inr (positive_response_sid sid # r)"
    using assms(6) expect_positive [OF assms(7)] by (elim disjE) (simp_all only: expect_pending)
  with uds_exchange_eq [OF assms(1-4), of p evs sid] assms(5) show ?thesis
    by (simp add: env_of_def ready_programmer_def next_link_def)
qed

text \<open>
  The conditions of a flashing session: the zone is online, both sides derive the same keys, the
  ECU accepts diagnostics and programming, successive requests are at most the session timeout
  apart, and a transfer block fits an ISO-TP message.
\<close>

definition bench :: "nat \<Rightarrow> can_link \<Rightarrow> bool" where
  "bench n s \<longleftrightarrow>
     n + 2 \<le> 0xFFF \<and> cl_online s \<and> uds_library_conforms (cl_library s) \<and>
     (\<forall>seed. \<exists>key. derive_security_key (cl_tester_security s) seed = Inr key) \<and>
     (\<forall>k. let env = cl_envs s k in
        env_diagnostics_enabled env \<and> env_programming_enabled env \<and>
        env_security env = cl_tester_security s \<and>
        env_now (cl_envs s (Suc k)) - env_now env \<le> SESSION_TIMEOUT_SECONDS \<and>
        pg_security_locked_until (cl_programmer s) \<le> env_now env)"

definition can_acceptable :: "can_link \<Rightarrow> bytes \<Rightarrow> bool" where
  "can_acceptable s d \<longleftrightarrow> (\<forall>k. env_original (cl_envs s k) = Some d)"

definition can_opened :: "nat \<Rightarrow> can_link \<Rightarrow> bool" where
  "can_opened n s \<longleftrightarrow> bench n s \<and> live (env_of s) (cl_programmer s)"

definition can_seeded :: "nat \<Rightarrow> bytes \<Rightarrow> can_link \<Rightarrow> bool" where
  "can_seeded n seed s \<longleftrightarrow>
     can_opened n s \<and> pg_pending_seed (cl_programmer s) = seed \<and> length seed = 4"

definition can_unlocked :: "nat \<Rightarrow> can_link \<Rightarrow> bool" where
  "can_unlocked n s \<longleftrightarrow> can_opened n s \<and> pg_security_unlocked (cl_programmer s)"

definition can_erased :: "nat \<Rightarrow> can_link \<Rightarrow> bool" where
  "can_erased n s \<longleftrightarrow> can_unlocked n s \<and> pg_erase_completed (cl_programmer s)"

definition can_loading :: "nat \<Rightarrow> nat \<Rightarrow> nat \<Rightarrow> bytes \<Rightarrow> can_link \<Rightarrow> bool" where
  "can_loading n amount q d s \<longleftrightarrow>
     (let p = cl_programmer s in
      can_unlocked n s \<and> pg_download_requested p \<and> \<not> pg_install_started p \<and>
      pg_expected_size p = amount \<and> pg_received_size p = length d \<and>
      rcv_buffer (pg_receiver p) = d \<and> rcv_expected_size (pg_receiver p) = Some amount \<and>
      pg_expected_transfer_sequence p = q \<and> q < 256)"

definition can_received :: "nat \<Rightarrow> bytes \<Rightarrow> can_link \<Rightarrow> bool" where
  "can_received n d s \<longleftrightarrow>
     (let p = cl_programmer s in
      can_unlocked n s \<and> pg_install_pending p \<and> \<not> pg_install_started p \<and>
      saved_file (pg_receiver p) = Some d)"

definition can_activated :: "nat \<Rightarrow> bytes \<Rightarrow> can_link \<Rightarrow> bool" where
  "can_activated n d s \<longleftrightarrow> can_received n d s \<and> pg_activation_marked (cl_programmer s)"

definition can_installing :: "bytes \<Rightarrow> can_link \<Rightarrow> bool" where
  "can_installing d s \<longleftrightarrow> cl_installs s \<noteq> [] \<and> last (cl_installs s) = Some d"

lemma ready_programmer_simps [simp]:
  "live env (ready_programmer s) = live env (cl_programmer s)"
  "pg_current_session (ready_programmer s) = pg_current_session (cl_programmer s)"
  "pg_pending_seed (ready_programmer s) = pg_pending_seed (cl_programmer s)"
  "pg_security_unlocked (ready_programmer s) = pg_security_unlocked (cl_programmer s)"
  "pg_erase_completed (ready_programmer s) = pg_erase_completed (cl_programmer s)"
  "pg_download_requested (ready_programmer s) = pg_download_requested (cl_programmer s)"
  "pg_install_pending (ready_programmer s) = pg_install_pending (cl_programmer s)"
  "pg_install_started (ready_programmer s) = pg_install_started (cl_programmer s)"
  "pg_activation_marked (ready_programmer s) = pg_activation_marked (cl_programmer s)"
  "pg_expected_size (ready_programmer s) = pg_expected_size (cl_programmer s)"
  "pg_received_size (ready_programmer s) = pg_received_size (cl_programmer s)"
  "pg_receiver (ready_programmer s) = pg_receiver (cl_programmer s)"
  "pg_expected_transfer_sequence (ready_programmer s) = pg_expected_transfer_sequence (cl_programmer s)"
  "pg_security_locked_until (ready_programmer s) = pg_security_locked_until (cl_programmer s)"
  by (simp_all add: ready_programmer_def live_def)

lemma bench_next:
  assumes "bench n s" and "pg_security_locked_until p = pg_security_locked_until (cl_programmer s)"
  shows "bench n (next_link s p evs)"
  using assms by (simp add: bench_def)

lemma bench_live_next:
  assumes "bench n s" and "pg_current_session p = DEFAULT_SESSION_PROGRAMMING"
    and "pg_session_started_at p = env_now (env_of s)"
  shows "live (env_of (next_link s p evs)) p"
  using assms by (simp add: bench_def live_def env_of_def Let_def)

lemma opened_next:
  assumes "bench n s" and "pg_current_session p = DEFAULT_SESSION_PROGRAMMING"
    and "pg_session_started_at p = env_now (env_of s)"
    and "pg_security_locked_until p = pg_security_locked_until (cl_programmer s)"
  shows "can_opened n (next_link s p evs)"
  using bench_next [OF assms(1,4)] bench_live_next [OF assms(1-3)] by (simp add: can_opened_def)

lemma benchD:
  assumes "bench n s"
  shows "cl_online s" and "uds_library_conforms (cl_library s)" and "n + 2 \<le> 0xFFF"
    and "env_diagnostics_enabled (env_of s)" and "env_programming_enabled (env_of s)"
    and "env_security (env_of s) = cl_tester_security s"
    and "\<not> security_delay_active (env_of s) (ready_programmer s)"
  using assms by (auto simp: bench_def env_of_def security_delay_active_def Let_def not_less)

lemma acceptable_next [simp]: "can_acceptable (next_link s p evs) = can_acceptable s"
  by (simp add: can_acceptable_def fun_eq_iff)

lemma derive_length:
  assumes "derive_security_key env seed = Inr key"
  shows "length key = length seed"
  using assms
  by (auto simp: derive_security_key_def Let_def bindE_Inr_iff split: if_splits)

lemma can_open_step:
  assumes "bench n s"
  shows "\<exists>s'. can_diagnostic_session_control s = (Inr True, s') \<and> can_opened n s' \<and>
    can_acceptable s' = can_acceptable s"
proof -
  note b = benchD [OF assms]
  let ?p = "touch_session (env_of s) (reset_programming_state ((ready_programmer s)\<lparr>pg_current_session := 0x02\<rparr>))"
  have "uds_exchange SID_DIAGNOSTIC_SESSION_CONTROL (build_diagnostic_session_control (cl_library s) 0x02) s =
      (Inr [positive_response_sid 0x10, 0x02], next_link s ?p [Respond [positive_response_sid 0x10, 0x02]])"
    by (rule uds_exchange_positive [OF build_requests(1) [OF b(2)] b(1) _ _ handle_open [OF b(4)]]) simp_all
  moreover have "can_opened n (next_link s ?p evs)" for evs
    using assms by (intro opened_next) (simp_all add: touch_session_def reset_programming_state_def)
  ultimately show ?thesis
    by (simp add: can_diagnostic_session_control_def)
qed

lemma can_keep_step:
  assumes "can_opened n s"
  shows "\<exists>s' b. can_tester_present s = (Inr b, s') \<and> can_opened n s' \<and>
    can_acceptable s' = can_acceptable s"
proof -
  have bench: "bench n s" and live: "live (env_of s) (ready_programmer s)"
    using assms by (simp_all add: can_opened_def)
  note b = benchD [OF bench]
  let ?p = "touch_session (env_of s) (ready_programmer s)"
  have "uds_exchange SID_TESTER_PRESENT (build_tester_present (cl_library s) False) s =
      (Inr [positive_response_sid 0x3E, 0x00], next_link s ?p [Respond [positive_response_sid 0x3E, 0x00]])"
    by (rule uds_exchange_positive [OF _ b(1) _ _ handle_keep [OF live]])
      (simp_all add: build_requests(2) [OF b(2)])
  moreover have "can_opened n (next_link s ?p evs)" for evs
    using bench live by (intro opened_next) (simp_all add: touch_session_def live_def)
  ultimately have "can_tester_present s = (Inr True, next_link s ?p [Respond [positive_response_sid 0x3E, 0x00]])"
    and "can_opened n (next_link s ?p [Respond [positive_response_sid 0x3E, 0x00]])"
    by (simp_all add: can_tester_present_def)
  then show ?thesis by auto
qed

lemma generate_seed_facts:
  assumes "generate_seed p = (q, seed)"
  shows "length seed = 4" and "pg_current_session q = pg_current_session p"
    and "pg_session_started_at q = pg_session_started_at p"
    and "pg_security_locked_until q = pg_security_locked_until p"
  using assms by (auto simp: generate_seed_def Let_def)

lemma can_seed_step:
  assumes "can_opened n s"
  shows "\<exists>s' seed. can_request_seed s = (Inr seed, s') \<and> seed \<noteq> [] \<and> can_seeded n seed s' \<and>
    can_acceptable s' = can_acceptable s"
proof -
  have bench: "bench n s" and live: "live (env_of s) (ready_programmer s)"
    using assms by (simp_all add: can_opened_def)
  note b = benchD [OF bench]
  obtain q seed where g: "generate_seed (touch_session (env_of s) (ready_programmer s)) = (q, seed)"
    by fastforce
  note facts = generate_seed_facts [OF g]
  let ?p = "q\<lparr>pg_pending_seed := seed, pg_security_unlocked := False\<rparr>"
  let ?r = "[positive_response_sid 0x27, 0x01] @ seed"
  have h: "handle_uds (env_of s) [0x27, 0x01] (ready_programmer s) = (?p, [Respond ?r])"
    using handle_seed [OF live b(7)] g by simp
  have "uds_exchange SID_SECURITY_ACCESS (build_security_access_request_seed (cl_library s) 0x01) s =
      (Inr (positive_response_sid 0x27 # 0x01 # seed), next_link s ?p [Respond ?r])"
    by (rule uds_exchange_positive [OF build_requests(4) [OF b(2)] b(1) _ _ h])
      (simp_all add: facts)
  moreover have "can_opened n (next_link s ?p evs)" for evs
    using bench live facts by (intro opened_next) (simp_all add: touch_session_def live_def)
  moreover have "seed \<noteq> []" using facts(1) by auto
  ultimately show ?thesis
    using facts(1) by (simp add: can_request_seed_def can_seeded_def)
qed

lemma can_key_step:
  assumes "can_seeded n seed s"
  shows "\<exists>s'. can_send_key seed s = (Inr True, s') \<and> can_unlocked n s' \<and>
    can_acceptable s' = can_acceptable s"
proof -
  have bench: "bench n s" and live: "live (env_of s) (ready_programmer s)"
    and seed: "pg_pending_seed (ready_programmer s) = seed" "length seed = 4"
    using assms by (simp_all add: can_seeded_def can_opened_def)
  note b = benchD [OF bench]
  obtain key where key: "derive_security_key (cl_tester_security s) seed = Inr key"
    using bench unfolding bench_def by blast
  let ?p = "(touch_session (env_of s) (ready_programmer s))
      \<lparr>pg_security_unlocked := True, pg_security_failures := 0, pg_pending_seed := []\<rparr>"
  have "handle_uds (env_of s) ([0x27, 0x02] @ key) (ready_programmer s) =
      (?p, [Respond [positive_response_sid 0x27, 0x02]])"
    using seed key b(6) by (intro handle_key [OF live]) auto
  from uds_exchange_positive [OF _ b(1) _ _ this, of _ SID_SECURITY_ACCESS]
  have "uds_exchange SID_SECURITY_ACCESS
      (bindE (derive_security_key (cl_tester_security s) seed)
         (build_security_access_send_key (cl_library s) 0x02)) s =
      (Inr [positive_response_sid 0x27, 0x02], next_link s ?p [Respond [positive_response_sid 0x27, 0x02]])"
    using key build_requests(5) [OF b(2)] derive_length [OF key] seed(2) by simp
  moreover have "can_opened n (next_link s ?p evs)" for evs
    using bench live by (intro opened_next) (simp_all add: touch_session_def live_def)
  ultimately show ?thesis
    by (simp add: can_send_key_def can_unlocked_def)
qed

lemma can_unlockedD:
  assumes "can_unlocked n s"
  shows "bench n s" and "live (env_of s) (ready_programmer s)"
    and "pg_security_unlocked (ready_programmer s)"
  using assms by (simp_all add: can_unlocked_def can_opened_def)

text \<open>A routine is answered by a response-pending message and then positively.\<close>

lemma routine_exchange:
  assumes "can_unlocked n s" and "request = Inr ([0x31, 0x01] @ be_bytes 2 routine @ d)" and "length d \<le> 4"
    and "handle_uds (env_of s) ([0x31, 0x01] @ be_bytes 2 routine @ d) (ready_programmer s) =
           routine_reply ([0x31, 0x01] @ be_bytes 2 routine @ d) p"
  shows "bindS (uds_exchange SID_ROUTINE_CONTROL request) (\<lambda>_. returnS True) s =
           (Inr True, next_link s p [response_pending 0x31,
              Respond ([positive_response_sid 0x31, 0x01] @ be_bytes 2 routine)])"
proof -
  note b = benchD [OF can_unlockedD(1) [OF assms(1)]]
  have "routine_reply ([0x31, 0x01] @ be_bytes 2 routine @ d) p =
      (p, [response_pending 0x31, Respond ([positive_response_sid 0x31, 0x01] @ be_bytes 2 routine)])"
    by (simp add: routine_reply_def)
  with assms(4) have h: "handle_uds (env_of s) ([0x31, 0x01] @ be_bytes 2 routine @ d) (ready_programmer s) =
      (p, [response_pending 0x31, Respond ([positive_response_sid 0x31, 0x01] @ be_bytes 2 routine)])"
    by simp
  have "uds_exchange SID_ROUTINE_CONTROL request s =
      (Inr (positive_response_sid 0x31 # 0x01 # be_bytes 2 routine),
       next_link s p [response_pending 0x31, Respond ([positive_response_sid 0x31, 0x01] @ be_bytes 2 routine)])"
    by (rule uds_exchange_positive [OF assms(2) b(1) _ _ h]) (use assms(3) in simp_all)
  then show ?thesis by simp
qed

lemma can_erase_step:
  assumes "can_unlocked n s" and "k < 256 ^ 4"
  shows "\<exists>s'. can_erase_memory k s = (Inr True, s') \<and> can_erased n s' \<and>
    can_acceptable s' = can_acceptable s"
proof -
  note u = can_unlockedD [OF assms(1)]
  let ?p = "erase_memory (be_bytes 4 k) (touch_session (env_of s) (ready_programmer s))"
  have "can_erase_memory k s = (Inr True, next_link s ?p [response_pending 0x31,
      Respond ([positive_response_sid 0x31, 0x01] @ be_bytes 2 0xFF00)])"
    unfolding can_erase_memory_def
    using assms(2) build_requests(6) [OF benchD(2) [OF u(1)]]
    by (intro routine_exchange [OF assms(1), where d = "be_bytes 4 k"])
      (simp_all add: to_bytes_def handle_routine [OF u(2,3)] del: append_Cons)
  moreover have "can_erased n (next_link s ?p evs)" for evs
    using u opened_next [OF u(1), of ?p evs]
    by (simp add: can_erased_def can_unlocked_def erase_memory_def touch_session_def live_def Let_def)
  ultimately show ?thesis by simp
qed

lemma can_download_step:
  assumes "can_erased n s" and "k < 256 ^ 4"
  shows "\<exists>s'. can_request_download k s = (Inr True, s') \<and> can_loading n k 1 [] s' \<and>
    can_acceptable s' = can_acceptable s"
proof -
  have "can_unlocked n s" and e: "pg_erase_completed (ready_programmer s)"
    using assms(1) by (simp_all add: can_erased_def)
  note u = can_unlockedD [OF this(1)] and b = benchD [OF can_unlockedD(1) [OF this(1)]]
  let ?p = "(touch_session (env_of s) (ready_programmer s))
      \<lparr>pg_expected_size := k, pg_received_size := 0, pg_install_pending := False,
       pg_install_started := False, pg_download_requested := True, pg_expected_transfer_sequence := 1,
       pg_receiver := set_expected_size k (receiver_clear (pg_receiver (ready_programmer s)))\<rparr>"
  note h = handle_download [OF u(2,3) e assms(2), of 0]
  have "uds_exchange SID_REQUEST_DOWNLOAD (build_request_download (cl_library s) k 0) s =
      (Inr [positive_response_sid 0x34, 0x00, 0x44, 0x00, 0x40], next_link s ?p
         [Respond [positive_response_sid 0x34, 0x00, 0x44, 0x00, 0x40]])"
    by (rule uds_exchange_positive [OF _ b(1) _ _ h])
      (use build_requests(7) [OF b(2), of k 0] assms(2) in simp_all)
  moreover have "can_loading n k 1 [] (next_link s ?p evs)" for evs
    using u opened_next [OF u(1), of ?p evs]
    by (simp add: can_loading_def can_unlocked_def touch_session_def live_def set_expected_size_def
        receiver_clear_def Let_def)
  ultimately show ?thesis by (simp add: can_request_download_def)
qed

lemma can_transfer_step:
  assumes "can_loading n k q d s" and "c \<noteq> []" and "length c \<le> n" and "length d + length c \<le> k"
  shows "\<exists>s' b. can_transfer_data q c s = (Inr b, s') \<and> can_loading n k ((q + 1) mod 256) (d @ c) s' \<and>
    can_acceptable s' = can_acceptable s"
proof -
  have l: "can_unlocked n s" "pg_download_requested (ready_programmer s)"
    "pg_expected_transfer_sequence (ready_programmer s) = q" "q < 256"
    "pg_received_size (ready_programmer s) + length c \<le> pg_expected_size (ready_programmer s)"
    using assms(1,4) by (simp_all add: can_loading_def Let_def)
  note u = can_unlockedD [OF l(1)] and b = benchD [OF can_unlockedD(1) [OF l(1)]]
  let ?p0 = "ready_programmer s"
  let ?p = "(touch_session (env_of s) ?p0)
        \<lparr>pg_receiver := (pg_receiver ?p0)\<lparr>rcv_buffer := rcv_buffer (pg_receiver ?p0) @ c,
           rcv_chunk_count := rcv_chunk_count (pg_receiver ?p0) + 1\<rparr>,
         pg_received_size := pg_received_size ?p0 + length c,
         pg_expected_transfer_sequence := (q + 1) mod 256\<rparr>"
  note h = handle_transfer [OF u(2,3) l(2-4) assms(2) l(5)]
  have "uds_exchange SID_TRANSFER_DATA (build_transfer_data (cl_library s) q c) s =
      (Inr [positive_response_sid 0x36, word_of_nat q],
       next_link s ?p [Respond [positive_response_sid 0x36, word_of_nat q]])"
    by (rule uds_exchange_positive [OF _ b(1) _ _ h])
      (use build_requests(8) [OF b(2), of q c] l(4) assms(3) b(3) in simp_all)
  then have "can_transfer_data q c s = (Inr True, next_link s ?p
      [Respond [positive_response_sid 0x36, word_of_nat q]])"
    by (simp add: can_transfer_data_def)
  moreover have "can_loading n k ((q + 1) mod 256) (d @ c) (next_link s ?p evs)" for evs
    using assms(1) u opened_next [OF u(1), of ?p evs]
    by (simp add: can_loading_def can_unlocked_def touch_session_def live_def Let_def)
  ultimately show ?thesis by (intro exI conjI) (assumption, simp_all)
qed

lemma can_exit_step:
  assumes "can_loading n k q d s" and "length d = k" and "can_acceptable s d"
  shows "\<exists>s'. can_request_transfer_exit s = (Inr True, s') \<and> can_received n d s'"
proof -
  have l: "can_unlocked n s" "pg_download_requested (ready_programmer s)"
    "pg_received_size (ready_programmer s) = pg_expected_size (ready_programmer s)"
    "firmware_data (pg_receiver (ready_programmer s)) = d"
    using assms(1,2) by (simp_all add: can_loading_def firmware_data_def Let_def)
  note u = can_unlockedD [OF l(1)] and b = benchD [OF can_unlockedD(1) [OF l(1)]]
  let ?p = "(touch_session (env_of s) (ready_programmer s))
      \<lparr>pg_receiver := receiver_save (pg_receiver (ready_programmer s)), pg_install_pending := True,
       pg_download_requested := False\<rparr>"
  have "env_original (env_of s) = Some (firmware_data (pg_receiver (ready_programmer s)))"
    using assms(3) l(4) by (simp add: can_acceptable_def env_of_def)
  note h = handle_exit [OF u(2,3) l(2,3) this]
  have "uds_exchange SID_REQUEST_TRANSFER_EXIT (build_request_transfer_exit (cl_library s)) s =
      (Inr [positive_response_sid 0x37], next_link s ?p [response_pending 0x37, Respond [positive_response_sid 0x37]])"
    by (rule uds_exchange_positive [OF build_requests(9) [OF b(2)] b(1) _ _ h]) simp_all
  moreover have "can_received n d (next_link s ?p evs)" for evs
    using assms(1) l(4) u opened_next [OF u(1), of ?p evs]
    by (simp add: can_received_def can_loading_def can_unlocked_def touch_session_def live_def Let_def)
  ultimately show ?thesis by (simp add: can_request_transfer_exit_def)
qed

lemma can_verify_step:
  assumes "can_received n d s"
  shows "\<exists>s'. can_verify_programming s = (Inr True, s') \<and> can_received n d s'"
proof -
  have l: "can_unlocked n s" "pg_install_pending (ready_programmer s)"
    using assms by (simp_all add: can_received_def Let_def)
  note u = can_unlockedD [OF l(1)]
  let ?p = "touch_session (env_of s) (ready_programmer s)"
  have "can_verify_programming s = (Inr True, next_link s ?p [response_pending 0x31,
      Respond ([positive_response_sid 0x31, 0x01] @ be_bytes 2 0xFF01)])"
    unfolding can_verify_programming_def
    using l(2) build_requests(6) [OF benchD(2) [OF u(1)], of "0xFF01" "[]"] handle_routine [OF u(2,3), of "0xFF01" "[]"]
    by (intro routine_exchange [OF l(1), where d = "[]"]) (simp_all add: touch_session_def)
  moreover have "can_received n d (next_link s ?p evs)" for evs
    using assms u opened_next [OF u(1), of ?p evs]
    by (simp add: can_received_def can_unlocked_def touch_session_def live_def Let_def)
  ultimately show ?thesis by simp
qed

lemma can_activate_step:
  assumes "can_received n d s"
  shows "\<exists>s'. can_activate_image s = (Inr True, s') \<and> can_activated n d s'"
proof -
  have l: "can_unlocked n s" "pg_install_pending (ready_programmer s)"
    using assms by (simp_all add: can_received_def Let_def)
  note u = can_unlockedD [OF l(1)]
  let ?p = "(touch_session (env_of s) (ready_programmer s))\<lparr>pg_activation_marked := True\<rparr>"
  have "can_activate_image s = (Inr True, next_link s ?p [response_pending 0x31,
      Respond ([positive_response_sid 0x31, 0x01] @ be_bytes 2 0xFF02)])"
    unfolding can_activate_image_def
    using l(2) build_requests(6) [OF benchD(2) [OF u(1)], of "0xFF02" "[]"] handle_routine [OF u(2,3), of "0xFF02" "[]"]
    by (intro routine_exchange [OF l(1), where d = "[]"]) (simp_all add: touch_session_def)
  moreover have "can_activated n d (next_link s ?p evs)" for evs
    using assms u opened_next [OF u(1), of ?p evs]
    by (simp add: can_activated_def can_received_def can_unlocked_def touch_session_def live_def Let_def)
  ultimately show ?thesis by simp
qed

lemma can_reset_step:
  assumes "can_activated n d s"
  shows "\<exists>s'. can_ecu_reset s = (Inr True, s') \<and> can_installing d s'"
proof -
  have l: "can_unlocked n s" "pg_install_pending (ready_programmer s)"
    "pg_activation_marked (ready_programmer s)" "\<not> pg_install_started (ready_programmer s)"
    "saved_file (pg_receiver (ready_programmer s)) = Some d"
    using assms by (simp_all add: can_activated_def can_received_def Let_def)
  note u = can_unlockedD [OF l(1)] and b = benchD [OF can_unlockedD(1) [OF l(1)]]
  let ?p = "reset_programming_state ((touch_session (env_of s) (ready_programmer s))
      \<lparr>pg_install_started := True, pg_current_session := 0x00\<rparr>)"
  have "uds_exchange SID_ECU_RESET (build_ecu_reset (cl_library s) 0x01) s =
      (Inr [positive_response_sid 0x11, 0x01],
       next_link s ?p [Respond [positive_response_sid 0x11, 0x01], StartInstall])"
    by (rule uds_exchange_positive [OF build_requests(10) [OF b(2)] b(1) _ _ handle_reset [OF u(2) l(2-4)]])
      simp_all
  moreover have "can_installing d (next_link s ?p [Respond [positive_response_sid 0x11, 0x01], StartInstall])"
    using l(5) by (simp add: can_installing_def reset_programming_state_def touch_session_def)
  ultimately show ?thesis by (simp add: can_ecu_reset_def)
qed

lemma can_transport_simps [simp]:
  "tp_session_control (can_transport n w v) = can_diagnostic_session_control"
  "tp_tester_present (can_transport n w v) = can_tester_present"
  "tp_request_seed (can_transport n w v) = can_request_seed"
  "tp_send_key (can_transport n w v) = can_send_key"
  "tp_erase_memory (can_transport n w v) = can_erase_memory"
  "tp_request_download (can_transport n w v) = can_request_download"
  "tp_transfer_data (can_transport n w v) = can_transfer_data"
  "tp_transfer_exit (can_transport n w v) = can_request_transfer_exit"
  "tp_verify_programming (can_transport n w v) = can_verify_programming"
  "tp_activate_image (can_transport n w v) = can_activate_image"
  "tp_ecu_reset (can_transport n w v) = can_ecu_reset"
  "chunk_size (can_transport n w v) s = n"
  by (simp_all add: can_transport_def chunk_size_def)

interpretation can_target: flash_target "can_transport n w v" n can_acceptable "bench n" "can_opened n"
    "can_seeded n" "can_unlocked n" "can_erased n" "can_loading n" "can_received n" "can_activated n"
    can_installing for n w v
  using can_open_step can_keep_step can_seed_step can_key_step can_erase_step can_download_step
    can_transfer_step can_exit_step can_verify_step can_activate_step can_reset_step
  by unfold_locales simp_all

section \<open>Properties\<close>


text \<open>
  A request the tester segments reaches the ECU's UDS handler whole and exactly once, whatever
  an interrupted earlier message has left in the reassembler.
\<close>

theorem isotp_delivers_request:
  assumes "segment x = Inr fs" and "x \<noteq> []"
  shows "feed_frames env fs p =
           handle_uds env x (p\<lparr>pg_reassembler := reassembler_reset (pg_reassembler p)\<rparr>)"
  using assms by (rule feed_segment_to_programmer)

text \<open>
  C38: An activation outlives the image it was given for: after the activation of one image a new
  download, transfer, exit and reset start an installation of the second image, which nobody
  erased the memory for or activated.
\<close>

theorem stale_activation_installs:
  assumes "live env p" and "pg_security_unlocked p" and "pg_erase_completed p" and "pg_activation_marked p"
    and "d \<noteq> []" and "length d < 256 ^ 4" and "env_original env = Some d"
  shows "StartInstall \<in> set (snd (programmer_run
     (map (Pair env) [[0x34, 0x00, 0x44] @ be_bytes 4 0 @ be_bytes 4 (length d),
        [0x36, word_of_nat 1] @ d, [0x37], [0x11, 0x01]]) p))"
proof -
  let ?q1 = "fst (handle_uds env ([0x34, 0x00, 0x44] @ be_bytes 4 0 @ be_bytes 4 (length d)) p)"
  let ?q2 = "fst (handle_uds env ([0x36, word_of_nat 1] @ d) ?q1)"
  let ?q3 = "fst (handle_uds env [0x37] ?q2)"
  note d1 = handle_download [OF assms(1-3,6), of 0]
  have q1: "live env ?q1" "pg_security_unlocked ?q1" "pg_download_requested ?q1"
    "pg_expected_transfer_sequence ?q1 = 1" "pg_received_size ?q1 = 0" "pg_expected_size ?q1 = length d"
    "rcv_buffer (pg_receiver ?q1) = []" "rcv_expected_size (pg_receiver ?q1) = Some (length d)"
    "pg_activation_marked ?q1" "\<not> pg_install_started ?q1"
    using assms by (simp_all only: d1 fst_conv)
      (simp_all add: touch_session_def live_def receiver_clear_def set_expected_size_def)
  have seq: "(1 :: nat) < 256" by simp
  have fits: "pg_received_size ?q1 + length d \<le> pg_expected_size ?q1"
    using q1(5,6) by linarith
  have d2: "handle_uds env ([0x36, word_of_nat 1] @ d) ?q1 =
     ((touch_session env ?q1)
        \<lparr>pg_receiver := (pg_receiver ?q1)\<lparr>rcv_buffer := rcv_buffer (pg_receiver ?q1) @ d,
           rcv_chunk_count := rcv_chunk_count (pg_receiver ?q1) + 1\<rparr>,
         pg_received_size := pg_received_size ?q1 + length d,
         pg_expected_transfer_sequence := (1 + 1) mod 256\<rparr>,
      [Respond [positive_response_sid 0x36, word_of_nat 1]])"
    by (rule handle_transfer [OF q1(1-4) seq assms(5) fits])
  have q2: "live env ?q2" "pg_security_unlocked ?q2" "pg_download_requested ?q2"
    "pg_received_size ?q2 = pg_expected_size ?q2" "firmware_data (pg_receiver ?q2) = d"
    "pg_activation_marked ?q2" "\<not> pg_install_started ?q2"
    using q1 by (simp_all only: d2 fst_conv)
      (simp_all add: touch_session_def live_def firmware_data_def)
  have d3: "handle_uds env [0x37] ?q2 =
     ((touch_session env ?q2)\<lparr>pg_receiver := receiver_save (pg_receiver ?q2), pg_install_pending := True,
         pg_download_requested := False\<rparr>,
      [response_pending 0x37, Respond [positive_response_sid 0x37]])"
    by (rule handle_exit [OF q2(1-4)]) (simp only: q2 assms(7))
  have q3: "live env ?q3" "pg_install_pending ?q3" "pg_activation_marked ?q3" "\<not> pg_install_started ?q3"
    using q2 by (simp_all only: d3 fst_conv) (simp_all add: touch_session_def live_def)
  have "StartInstall \<in> set (snd (handle_uds env [0x11, 0x01] ?q3))"
    by (simp only: handle_reset [OF q3]) simp
  then show ?thesis by (simp add: split_beta)
qed

section \<open>A concrete programmer\<close>


definition demo_env :: uds_env where
  "demo_env = \<lparr>env_now = 1, env_diagnostics_enabled = True, env_programming_enabled = True,
     env_current_version = ''1.0.0'', env_security = \<lparr>security_mode = None, security_static_key_hex = None\<rparr>,
     env_original = Some [1, 2, 3]\<rparr>"

definition demo_requests :: "bytes list" where
  "demo_requests =
     [[0x10, 0x02], [0x27, 0x01], [0x27, 0x02] @ [0xA5, 0x5A, 0x3C, 0xC2],
      [0x31, 0x01] @ be_bytes 2 0xFF00 @ [0, 0, 0, 3],
      [0x34, 0x00, 0x44] @ be_bytes 4 0 @ be_bytes 4 3,
      [0x36, word_of_nat 1] @ [1, 2, 3], [0x37], [0x31, 0x01] @ be_bytes 2 0xFF02 @ []]"

definition demo_programmer :: programmer where
  "demo_programmer = new_programmer 0 (new_receiver None) 0 0"

definition demo_ready :: programmer where
  "demo_ready = fst (programmer_run (map (Pair demo_env) demo_requests) demo_programmer)"

lemma demo_key: "derive_security_key (env_security demo_env) [0, 0, 0, 1] = Inr [0xA5, 0x5A, 0x3C, 0xC2]"
  by code_simp

lemma demo_env_simps [simp]:
  "env_now demo_env = 1" "env_diagnostics_enabled demo_env" "env_programming_enabled demo_env"
  "env_original demo_env = Some [1, 2, 3]"
  by (simp_all add: demo_env_def)

lemma demo_ready_facts:
  "live demo_env demo_ready \<and> pg_install_pending demo_ready \<and> pg_activation_marked demo_ready \<and>
   \<not> pg_install_started demo_ready \<and> saved_file (pg_receiver demo_ready) = Some [1,2,3]"
proof -
  let ?p1 = "demo_programmer\<lparr>pg_current_session := 2, pg_session_started_at := 1\<rparr>"
  let ?p2 = "?p1\<lparr>pg_seed_counter := 1, pg_pending_seed := [0, 0, 0, 1]\<rparr>"
  let ?p3 = "?p1\<lparr>pg_seed_counter := 1, pg_security_unlocked := True\<rparr>"
  let ?r = "\<lparr>rcv_buffer = [], rcv_chunk_count = 0, rcv_expected_size = Some 3, saved_file = None\<rparr>"
  let ?p4 = "?p3\<lparr>pg_erase_completed := True, pg_expected_size := 3, pg_receiver := ?r\<rparr>"
  let ?p5 = "?p4\<lparr>pg_download_requested := True\<rparr>"
  let ?p6 = "?p5\<lparr>pg_received_size := 3, pg_expected_transfer_sequence := 2,
       pg_receiver := ?r\<lparr>rcv_buffer := [1, 2, 3], rcv_chunk_count := 1\<rparr>\<rparr>"
  let ?p7 = "?p6\<lparr>pg_install_pending := True, pg_download_requested := False,
      pg_receiver := ?r\<lparr>rcv_buffer := [1, 2, 3], rcv_chunk_count := 1, saved_file := Some [1, 2, 3]\<rparr>\<rparr>"
  let ?p8 = "?p7\<lparr>pg_activation_marked := True\<rparr>"
  note defs = demo_programmer_def new_programmer_def touch_session_def reset_programming_state_def
    new_receiver_def live_def
  have s1: "fst (handle_uds demo_env [0x10, 0x02] demo_programmer) = ?p1"
    by (simp add: handle_open defs)
  have s2: "fst (handle_uds demo_env [0x27, 0x01] ?p1) = ?p2"
    by (subst handle_seed) (simp_all add: defs security_delay_active_def generate_seed_def be_bytes_4)
  have s3: "fst (handle_uds demo_env ([0x27, 0x02] @ [0xA5, 0x5A, 0x3C, 0xC2]) ?p2) = ?p3"
    by (subst handle_key) (simp_all add: demo_key defs)
  have s4: "fst (handle_uds demo_env ([0x31, 0x01] @ be_bytes 2 0xFF00 @ [0, 0, 0, 3]) ?p3) = ?p4"
    by (subst handle_routine) (simp_all add: defs erase_memory_def receiver_clear_def
      set_expected_size_def from_be_def)
  have s5: "fst (handle_uds demo_env ([0x34, 0x00, 0x44] @ be_bytes 4 0 @ be_bytes 4 3) ?p4) = ?p5"
    by (subst handle_download) (simp_all add: defs receiver_clear_def set_expected_size_def)
  have s6: "fst (handle_uds demo_env ([0x36, word_of_nat 1] @ [1, 2, 3]) ?p5) = ?p6"
    by (subst handle_transfer) (simp_all add: defs)
  have s7: "fst (handle_uds demo_env [0x37] ?p6) = ?p7"
    by (subst handle_exit) (simp_all add: defs firmware_data_def receiver_save_def)
  have s8: "fst (handle_uds demo_env ([0x31, 0x01] @ be_bytes 2 0xFF02 @ []) ?p7) = ?p8"
    by (subst handle_routine) (simp_all add: defs)
  have r: "demo_ready = ?p8"
    using s1 s2 s3 s4 s5 s6 s7 s8
    by (simp add: demo_ready_def demo_requests_def split_beta)
  show ?thesis unfolding r by (simp add: defs)
qed

lemma programmer_installs_verified_image_witness:
  "\<exists>saved original. saved_file (pg_receiver (fst (handle_uds demo_env [0x11, 0x01] demo_ready))) = Some saved \<and>
     env_original demo_env = Some original \<and> sha256 saved = sha256 original"
proof (rule programmer_installs_verified_image [where rs = "map (Pair demo_env) demo_requests"
      and env = demo_env and request = "[0x11, 0x01]"])
  show "later_schedule demo_env (map (Pair demo_env) demo_requests @ [(demo_env, [0x11, 0x01])])"
    by (simp add: demo_requests_def later_env_def)
  show "demo_ready = fst (programmer_run (map (Pair demo_env) demo_requests)
      (new_programmer 0 (new_receiver None) 0 0))"
    by (simp add: demo_ready_def demo_programmer_def)
  show "handle_uds demo_env [0x11, 0x01] demo_ready =
      (fst (handle_uds demo_env [0x11, 0x01] demo_ready), snd (handle_uds demo_env [0x11, 0x01] demo_ready))"
    by simp
  show "StartInstall \<in> set (snd (handle_uds demo_env [0x11, 0x01] demo_ready))"
    using demo_ready_facts by (simp add: handle_reset)
qed simp

lemma programmer_answers_requests_witness:
  "\<exists>(env, request) \<in> set [(demo_env, [0x10, 0x02])].
     request \<noteq> [] \<and> is_response_for_request [0x50, 0x02] (Some (request ! 0))"
  by (rule programmer_answers_requests [where p = demo_programmer])
    (simp add: handle_open positive_response_sid_def)

definition demo_suspect :: programmer where
  "demo_suspect = demo_programmer\<lparr>pg_current_session := 2, pg_session_started_at := 1,
     pg_pending_seed := [0, 0, 0, 1], pg_security_failures := 2\<rparr>"

lemma third_wrong_key_locks_out_witness:
  "\<not> pg_security_unlocked (fst (programmer_run
      ((demo_env, [0x27, 0x02] @ [0, 0, 0, 0]) #
       [(demo_env\<lparr>env_now := 20\<rparr>, [0x27, 0x01]),
        (demo_env\<lparr>env_now := 25\<rparr>, [0x27, 0x02, 0xA5, 0x5A, 0x3C, 0xC2])]) demo_suspect))"
proof (rule third_wrong_key_locks_out)
  show "derive_security_key (env_security demo_env) (pg_pending_seed demo_suspect) =
      Inr [0xA5, 0x5A, 0x3C, 0xC2]"
    by (simp add: demo_suspect_def demo_key)
qed (simp_all add: demo_suspect_def demo_programmer_def new_programmer_def programmer_inv_def live_def
    security_delay_active_def later_env_def)

definition demo_link :: can_link where
  "demo_link = \<lparr>cl_online = True, cl_library = None, cl_tester_security = env_security demo_env,
     cl_envs = (\<lambda>_. demo_env), cl_clock = 0, cl_programmer = demo_programmer, cl_installs = []\<rparr>"

lemma demo_derive: "derive_security_key (env_security demo_env) seed = Inr (derive_demo_security_key seed)"
proof -
  have "lower (strip_space (getenv_or (security_mode (env_security demo_env)) ''demo_xor'')) = ''demo_xor''"
    by code_simp
  then show ?thesis by (simp add: derive_security_key_def)
qed

lemma demo_link_bench: "bench 1024 demo_link"
  by (simp add: bench_def demo_link_def demo_derive demo_programmer_def new_programmer_def)


lemma isotp_delivers_request_witness:
  "feed_frames demo_env [[0x02, 0x10, 0x02]] demo_programmer =
     handle_uds demo_env [0x10, 0x02]
       (demo_programmer\<lparr>pg_reassembler := reassembler_reset (pg_reassembler demo_programmer)\<rparr>)"
  by (rule isotp_delivers_request) (simp_all add: segment_def single_frame_def)

lemma stale_activation_installs_witness:
  "StartInstall \<in> set (snd (programmer_run
     (map (Pair (demo_env\<lparr>env_original := Some [9]\<rparr>))
       [[0x34, 0x00, 0x44] @ be_bytes 4 0 @ be_bytes 4 (length [9 :: byte]),
        [0x36, word_of_nat 1] @ [9], [0x37], [0x11, 0x01]])
     (demo_ready\<lparr>pg_security_unlocked := True, pg_erase_completed := True\<rparr>)))"
  by (rule stale_activation_installs) (use demo_ready_facts in \<open>simp_all add: live_def\<close>)

end
