(* ===== verification/DoIP_Packet.thy ===== *)
theory DoIP_Packet
  imports OTA_Prelude
begin

text \<open>
  DoIP packets on a TCP stream: \<open>transport/doip/packet.py\<close>.

  \<open>extract_packets\<close> returns the packets and what stays in the buffer; when it raises, the
  packets found before are lost with it. The main results: building and parsing are inverse,
  and how the stream is cut into pieces does not change the packets that are extracted.
\<close>

section \<open>Packets\<close>

abbreviation DOIP_VERSION :: nat where "DOIP_VERSION \<equiv> 0x02"
abbreviation DOIP_INVERSE_VERSION :: nat where "DOIP_INVERSE_VERSION \<equiv> 0xFD"
abbreviation DOIP_HEADER_SIZE :: nat where "DOIP_HEADER_SIZE \<equiv> 8"

definition build_packet :: "nat \<Rightarrow> bytes \<Rightarrow> bytes result" where
  "build_packet payload_type payload =
     bindE (pack_be 2 payload_type) (\<lambda>t. bindE (pack_be 4 (length payload)) (\<lambda>n.
       Inr (be_bytes 1 DOIP_VERSION @ be_bytes 1 DOIP_INVERSE_VERSION @ t @ n @ payload)))"

definition build_diagnostic_packet :: "nat \<Rightarrow> nat \<Rightarrow> bytes \<Rightarrow> bytes result" where
  "build_diagnostic_packet source_address target_address payload =
     bindE (pack_be 2 source_address) (\<lambda>s. bindE (pack_be 2 target_address) (\<lambda>t.
       build_packet 0x8001 (s @ t @ payload)))"

text \<open>The fields of a header: version, inverse version, payload type and length.\<close>

definition header_fields :: "bytes \<Rightarrow> nat \<times> nat \<times> nat \<times> nat" where
  "header_fields h =
     (from_be (take 1 h), from_be (take 1 (drop 1 h)), from_be (take 2 (drop 2 h)),
      from_be (take 4 (drop 4 h)))"

definition parse_packet :: "bytes \<Rightarrow> (nat \<times> bytes) result" where
  "parse_packet data =
     (if length data < DOIP_HEADER_SIZE then Inl (ValueError ''Incomplete DoIP header'')
      else
        let (version, inverse, payload_type, len) = header_fields (take DOIP_HEADER_SIZE data);
            packet_length = DOIP_HEADER_SIZE + len
        in if version \<noteq> DOIP_VERSION \<or> inverse \<noteq> DOIP_INVERSE_VERSION
           then Inl (ValueError ''Invalid DoIP protocol version'')
           else if length data < packet_length then Inl (ValueError ''Incomplete DoIP payload'')
           else Inr (payload_type, take len (drop DOIP_HEADER_SIZE data)))"

function extract_packets :: "bytes \<Rightarrow> (nat \<times> bytes) list result \<times> bytes" where
  "extract_packets buffer =
     (if length buffer < DOIP_HEADER_SIZE then (Inr [], buffer)
      else
        let (version, inverse, payload_type, len) = header_fields (take DOIP_HEADER_SIZE buffer);
            packet_length = DOIP_HEADER_SIZE + len
        in if version \<noteq> DOIP_VERSION \<or> inverse \<noteq> DOIP_INVERSE_VERSION
           then (Inl (ValueError ''Invalid DoIP protocol version''), buffer)
           else if length buffer < packet_length then (Inr [], buffer)
           else
             let (packets, rest) = extract_packets (drop packet_length buffer)
             in (bindE packets (\<lambda>ps. Inr ((payload_type, take len (drop DOIP_HEADER_SIZE buffer)) # ps)),
                 rest))"
  by pat_completeness auto
termination
  by (relation "measure length") auto

declare extract_packets.simps [simp del]

definition parse_diagnostic_payload :: "bytes \<Rightarrow> (nat \<times> nat \<times> bytes) result" where
  "parse_diagnostic_payload payload =
     (if length payload < 4 then Inl StructError
      else Inr (from_be (take 2 payload), from_be (take 2 (drop 2 payload)), drop 4 payload))"

text \<open>The receive loop of \<open>handle_client\<close>: pieces of the stream, and the packets of each.\<close>

fun receive_stream :: "bytes \<Rightarrow> bytes list \<Rightarrow> (nat \<times> bytes) list \<times> py_error option \<times> bytes" where
  "receive_stream buffer [] = ([], None, buffer)"
| "receive_stream buffer (data # pieces) =
     (case extract_packets (buffer @ data) of
        (Inl e, rest) \<Rightarrow> ([], Some e, rest)
      | (Inr packets, rest) \<Rightarrow>
          let (more, err, rest') = receive_stream rest pieces in (packets @ more, err, rest'))"

section \<open>Round trips\<close>

lemma build_packet_Inr_iff:
  "build_packet t p = Inr b \<longleftrightarrow>
     t < 256 ^ 2 \<and> length p < 256 ^ 4 \<and> b = [0x02, 0xFD] @ be_bytes 2 t @ be_bytes 4 (length p) @ p"
  by (auto simp: build_packet_def bindE_Inr_iff pack_be_Inr_iff)

lemma from_be_byte [simp]: "from_be [b] = unat b"
  by (simp add: from_be_def)

lemma header_fields_build:
  assumes "t < 256 ^ 2" and "n < 256 ^ 4"
  shows "header_fields (take 8 ([0x02, 0xFD] @ be_bytes 2 t @ be_bytes 4 n @ p)) = (0x02, 0xFD, t, n)"
  using assms by (simp add: header_fields_def from_be_be_bytes)

lemma parse_build_packet:
  assumes "build_packet t p = Inr b"
  shows "parse_packet (b @ rest) = Inr (t, p)"
proof -
  have t: "t < 256 ^ 2" and n: "length p < 256 ^ 4"
    and b: "b = [0x02, 0xFD] @ be_bytes 2 t @ be_bytes 4 (length p) @ p"
    using assms by (simp_all only: build_packet_Inr_iff)
  have "header_fields (take 8 (b @ rest)) = (0x02, 0xFD, t, length p)"
    using header_fields_build [OF t n, of "p @ rest"] by (simp add: b)
  then show ?thesis by (simp add: parse_packet_def b)
qed

lemma parse_build_diagnostic:
  assumes "build_diagnostic_packet s t p = Inr b"
  shows "bindE (parse_packet b) (\<lambda>(ty, payload). bindE (parse_diagnostic_payload payload) (\<lambda>d. Inr (ty, d))) =
           Inr (0x8001, s, t, p)"
proof -
  have st: "s < 256 ^ 2" "t < 256 ^ 2" and b: "build_packet 0x8001 (be_bytes 2 s @ be_bytes 2 t @ p) = Inr b"
    using assms by (auto simp: build_diagnostic_packet_def bindE_Inr_iff pack_be_Inr_iff)
  from parse_build_packet [OF b, of "[]"] st show ?thesis
    by (simp add: parse_diagnostic_payload_def from_be_be_bytes)
qed

section \<open>Extraction from a stream\<close>

lemma bindE_Inr_id: "bindE m (\<lambda>x. Inr x) = m" "bindE m Inr = m"
  by (cases m; simp)+

lemma extract_short: "length b < 8 \<Longrightarrow> extract_packets b = (Inr [], b)"
  by (simp add: extract_packets.simps)

lemma extract_step:
  assumes "\<not> length b < DOIP_HEADER_SIZE"
    and "header_fields (take DOIP_HEADER_SIZE b) = (v, i, t, n)"
  shows "extract_packets b =
     (if v \<noteq> DOIP_VERSION \<or> i \<noteq> DOIP_INVERSE_VERSION
      then (Inl (ValueError ''Invalid DoIP protocol version''), b)
      else if length b < 8 + n then (Inr [], b)
      else (bindE (fst (extract_packets (drop (8 + n) b))) (\<lambda>ps. Inr ((t, take n (drop 8 b)) # ps)),
            snd (extract_packets (drop (8 + n) b))))"
  by (subst extract_packets.simps) (simp add: assms Let_def split_beta)

lemma extract_build:
  assumes "build_packet t p = Inr b"
  shows "extract_packets (b @ rest) =
     (bindE (fst (extract_packets rest)) (\<lambda>ps. Inr ((t, p) # ps)), snd (extract_packets rest))"
proof -
  have t: "t < 256 ^ 2" and n: "length p < 256 ^ 4"
    and b: "b = [0x02, 0xFD] @ be_bytes 2 t @ be_bytes 4 (length p) @ p"
    using assms by (simp_all only: build_packet_Inr_iff)
  have h: "header_fields (take 8 (b @ rest)) = (0x02, 0xFD, t, length p)"
    using header_fields_build [OF t n, of "p @ rest"] by (simp add: b)
  have len: "length b = 8 + length p" by (simp add: b)
  have "drop 8 (b @ rest) = p @ rest" by (simp add: b)
  moreover have "drop (8 + length p) (b @ rest) = rest" using len by simp
  moreover have "\<not> length (b @ rest) < 8" using len by simp
  ultimately show ?thesis
    using extract_step [OF _ h] len by simp
qed

text \<open>More data does not change what a prefix of the stream gave.\<close>

lemma extract_append:
  "extract_packets a = (Inr ps, r) \<Longrightarrow>
     extract_packets (a @ b) =
       (bindE (fst (extract_packets (r @ b))) (\<lambda>qs. Inr (ps @ qs)), snd (extract_packets (r @ b)))"
proof (induction a arbitrary: ps r rule: extract_packets.induct)
  case (1 a)
  show ?case
  proof (cases "length a < 8")
    case True
    with "1.prems" have "ps = []" "r = a" by (simp_all add: extract_short)
    then show ?thesis by (simp add: bindE_Inr_id)
  next
    case False
    obtain v i t n where h: "header_fields (take 8 a) = (v, i, t, n)" by (cases "header_fields (take 8 a)")
    have hb: "header_fields (take 8 (a @ b)) = (v, i, t, n)" using False h by simp
    have lb: "\<not> length (a @ b) < 8" using False by simp
    note step = extract_step [OF False h]
    have vi: "v = 2" "i = 0xFD"
      using "1.prems" step by (auto split: if_splits)
    show ?thesis
    proof (cases "length a < 8 + n")
      case True
      with "1.prems" step vi have "ps = []" and "r = a" by simp_all
      then show ?thesis by (simp add: bindE_Inr_id)
    next
      case whole: False
      let ?d = "drop (8 + n) a"
      obtain qs where rec: "extract_packets ?d = (Inr qs, r)" and ps: "ps = (t, take n (drop 8 a)) # qs"
        using "1.prems" whole step vi
        by (cases "extract_packets ?d") (auto simp: bindE_Inr_iff)
      have ih: "extract_packets (?d @ b) =
          (bindE (fst (extract_packets (r @ b))) (\<lambda>qs'. Inr (qs @ qs')), snd (extract_packets (r @ b)))"
        by (rule "1.IH" [OF False h [symmetric] refl refl refl refl _ _ rec]) (use whole vi in auto)
      have d: "drop (8 + n) (a @ b) = ?d @ b" "take n (drop 8 (a @ b)) = take n (drop 8 a)"
        "\<not> length (a @ b) < 8 + n" using whole by auto
      show ?thesis
        using extract_step [OF lb hb] d ih vi
        by (cases "fst (extract_packets (r @ b))") (simp_all add: ps)
    qed
  qed
qed

text \<open>A prefix of a well-formed stream is well-formed, and what stays in the buffer is no packet.\<close>

lemma extract_prefix_ok:
  "extract_packets (a @ b) = (Inr ps, r) \<Longrightarrow> \<exists>qs r'. extract_packets a = (Inr qs, r')"
proof (induction a arbitrary: ps r rule: extract_packets.induct)
  case (1 a)
  show ?case
  proof (cases "length a < 8")
    case True
    then show ?thesis by (simp add: extract_short)
  next
    case False
    obtain v i t n where h: "header_fields (take 8 a) = (v, i, t, n)" by (cases "header_fields (take 8 a)")
    have hb: "header_fields (take 8 (a @ b)) = (v, i, t, n)" using False h by simp
    have lb: "\<not> length (a @ b) < 8" using False by simp
    note step = extract_step [OF False h] and stepb = extract_step [OF lb hb]
    have vi: "v = 2" "i = 0xFD" using "1.prems" stepb by (auto split: if_splits)
    show ?thesis
    proof (cases "length a < 8 + n")
      case True
      then show ?thesis using step vi by simp
    next
      case whole: False
      obtain qs r' where "extract_packets (drop (8 + n) a @ b) = (Inr qs, r')"
        using "1.prems" whole stepb vi
        by (cases "extract_packets (drop (8 + n) a @ b)") (auto simp: bindE_Inr_iff)
      then have "\<exists>qs r'. extract_packets (drop (8 + n) a) = (Inr qs, r')"
        by (rule "1.IH" [OF False h [symmetric] refl refl refl refl, rotated 2]) (use whole vi in auto)
      then show ?thesis using step vi whole by auto
    qed
  qed
qed

lemma extract_rest_drained:
  "extract_packets a = (Inr ps, r) \<Longrightarrow> extract_packets r = (Inr [], r)"
proof (induction a arbitrary: ps r rule: extract_packets.induct)
  case (1 a)
  show ?case
  proof (cases "length a < 8")
    case True
    with "1.prems" show ?thesis by (simp add: extract_short)
  next
    case False
    obtain v i t n where h: "header_fields (take 8 a) = (v, i, t, n)" by (cases "header_fields (take 8 a)")
    note step = extract_step [OF False h]
    have vi: "v = 2" "i = 0xFD" using "1.prems" step by (auto split: if_splits)
    show ?thesis
    proof (cases "length a < 8 + n")
      case True
      then show ?thesis using "1.prems" step vi by simp
    next
      case whole: False
      obtain qs where rec: "extract_packets (drop (8 + n) a) = (Inr qs, r)"
        using "1.prems" whole step vi
        by (cases "extract_packets (drop (8 + n) a)") (auto simp: bindE_Inr_iff)
      show ?thesis
        by (rule "1.IH" [OF False h [symmetric] refl refl refl refl _ _ rec]) (use whole vi in auto)
    qed
  qed
qed

lemma receive_stream_concat:
  "extract_packets (buffer @ concat pieces) = (Inr ps, r) \<Longrightarrow>
     extract_packets buffer = (Inr [], buffer) \<Longrightarrow> receive_stream buffer pieces = (ps, None, r)"
proof (induction pieces arbitrary: buffer ps)
  case Nil
  then show ?case by simp
next
  case (Cons data pieces)
  have whole: "extract_packets ((buffer @ data) @ concat pieces) = (Inr ps, r)" using Cons.prems(1) by simp
  obtain qs r' where first: "extract_packets (buffer @ data) = (Inr qs, r')"
    using extract_prefix_ok [OF whole] by blast
  obtain ms where rest: "extract_packets (r' @ concat pieces) = (Inr ms, r)" and ps: "ps = qs @ ms"
    using extract_append [OF first, of "concat pieces"] whole
    by (cases "extract_packets (r' @ concat pieces)") (auto simp: bindE_Inr_iff)
  show ?case
    using Cons.IH [OF rest extract_rest_drained [OF first]] by (simp add: first ps)
qed

lemma extract_messages:
  "list_all2 (\<lambda>m f. build_packet (fst m) (snd m) = Inr f) messages packets \<Longrightarrow>
     extract_packets (concat packets) = (Inr messages, [])"
  by (induction rule: list_all2_induct) (simp_all add: extract_short extract_build)

text \<open>C11: What one side writes to the TCP stream as DoIP packets, the receive loop of the server
  reads as exactly these packets, in their order, however TCP splits or joins the bytes; nothing
  stays in the buffer and no error is raised.\<close>

theorem doip_stream_roundtrip:
  assumes "list_all2 (\<lambda>m f. build_packet (fst m) (snd m) = Inr f) messages packets"
    and "concat pieces = concat packets"
  shows "receive_stream [] pieces = (messages, None, [])"
  using receive_stream_concat [of "[]" pieces messages "[]"] extract_messages [OF assms(1)] assms(2)
  by (simp add: extract_short)

theorem doip_stream_roundtrip_witness:
  "receive_stream [] [[0x02, 0xFD, 0x80], [0x01, 0, 0, 0, 1, 0x3E, 0x02, 0xFD, 0, 7], [0, 0, 0, 0]] =
     ([(0x8001, [0x3E]), (0x0007, [])], None, [])"
  by (rule doip_stream_roundtrip
      [of _ "[[0x02, 0xFD, 0x80, 0x01, 0, 0, 0, 1, 0x3E], [0x02, 0xFD, 0, 7, 0, 0, 0, 0]]"])
    (simp_all add: build_packet_Inr_iff be_bytes_2 be_bytes_4)

text \<open>\<open>parse_packet\<close> and \<open>parse_diagnostic_payload\<close> invert
  \<open>build_diagnostic_packet\<close>: the addresses and the diagnostic bytes come back, for every
  source and target address that can be built.\<close>

theorem doip_diagnostic_roundtrip:
  assumes "build_diagnostic_packet s t p = Inr b"
  shows "\<exists>payload. parse_packet b = Inr (0x8001, payload) \<and>
           parse_diagnostic_payload payload = Inr (s, t, p)"
  using parse_build_diagnostic [OF assms] by (auto simp: bindE_Inr_iff)

theorem doip_diagnostic_roundtrip_witness:
  "\<exists>payload. parse_packet [0x02, 0xFD, 0x80, 0x01, 0, 0, 0, 6, 0x0E, 0x80, 0x10, 0x02, 0x10, 0x03] =
       Inr (0x8001, payload) \<and> parse_diagnostic_payload payload = Inr (0x0E80, 0x1002, [0x10, 0x03])"
  by (rule doip_diagnostic_roundtrip)
    (simp add: build_diagnostic_packet_def build_packet_Inr_iff pack_be_def be_bytes_2 be_bytes_4)

end
