(* ===== verification/DoIP_Server.thy ===== *)
theory DoIP_Server
  imports DoIP_Packet UDS_Server IsoTp Firmware_Receiver
begin

text \<open>
  The DoIP gateway: \<open>transport/doip/server.py\<close> (\<open>DoIPServer\<close>) with the ECU contexts of
  \<open>ecus/gateway/ecu_context.py\<close>.

  \<open>handle_raw_uds_message\<close> is \<open>_handle_raw_uds_message\<close> with one definition per service, over the
  record \<open>doip_ecu\<close>; \<open>handle_ota_message\<close> is the legacy JSON path; \<open>process\<close> dispatches a packet
  and gives the bytes the client receives. A client that disconnects changes nothing of the
  server's state and is not modelled, nor are pauses, printing and the chunk counters, which
  only choose what is printed. One request reads the clock once.
\<close>

section \<open>ECU contexts\<close>

abbreviation GATEWAY_ADDRESS :: nat where "GATEWAY_ADDRESS \<equiv> 0x1001"
abbreviation BCM_ADDRESS :: nat where "BCM_ADDRESS \<equiv> 0x1002"
abbreviation CLUSTER_ADDRESS :: nat where "CLUSTER_ADDRESS \<equiv> 0x1003"

abbreviation DOIP_SESSION_TIMEOUT :: clock where "DOIP_SESSION_TIMEOUT \<equiv> 120"
abbreviation DOIP_SECURITY_ATTEMPT_LIMIT :: nat where "DOIP_SECURITY_ATTEMPT_LIMIT \<equiv> 3"
abbreviation DOIP_SECURITY_LOCKOUT :: clock where "DOIP_SECURITY_LOCKOUT \<equiv> 30"

record doip_ecu =
  de_ecu_name :: string
  de_logical_address :: nat
  de_profile_version :: string
  de_receiver :: receiver
  de_target_version :: jval
  de_expected_download_size :: nat
  de_download_received_size :: nat
  de_install_pending :: bool
  de_install_started :: bool
  de_download_verified :: bool
  de_security_unlocked :: bool
  de_pending_seed :: bytes
  de_seed_counter :: nat
  de_erase_completed :: bool
  de_activation_marked :: bool
  de_current_session :: byte
  de_session_started_at :: clock
  de_security_failures :: nat
  de_security_locked_until :: clock
  de_expected_transfer_sequence :: nat

definition new_ecu_context :: "string \<Rightarrow> nat \<Rightarrow> string \<Rightarrow> receiver \<Rightarrow> doip_ecu" where
  "new_ecu_context ecu_name logical_address profile_version rcv =
     \<lparr>de_ecu_name = ecu_name, de_logical_address = logical_address,
      de_profile_version = profile_version, de_receiver = rcv,
      de_target_version = JText profile_version, de_expected_download_size = 0,
      de_download_received_size = 0, de_install_pending = False, de_install_started = False,
      de_download_verified = False, de_security_unlocked = False, de_pending_seed = [],
      de_seed_counter = 0, de_erase_completed = False, de_activation_marked = False,
      de_current_session = 0x00, de_session_started_at = 0, de_security_failures = 0,
      de_security_locked_until = 0, de_expected_transfer_sequence = 1\<rparr>"

text \<open>
  What a request reads from outside: the clock, the ECU's version file, the environment of the
  key derivation, the original image, \<open>OTA_DOIP_GATEWAY_BLOCK_LENGTH\<close> and the outcome of an
  installation.
\<close>

record doip_env =
  dn_now :: clock
  dn_current_version :: string
  dn_security :: security_env
  dn_original :: "bytes option"
  dn_block_length :: nat
  dn_install_error :: "py_error option"

type_synonym doip_step = "doip_ecu \<times> uds_event list"

section \<open>Sessions\<close>

definition GATEWAY_REQUEST_DOWNLOAD_BLOCK_LENGTH :: "doip_env \<Rightarrow> nat" where
  "GATEWAY_REQUEST_DOWNLOAD_BLOCK_LENGTH env = min (dn_block_length env) 16384"

definition doip_reply :: "bytes \<Rightarrow> doip_ecu \<Rightarrow> doip_step" where
  "doip_reply payload e = (e, [Respond payload])"

definition doip_negative :: "byte \<Rightarrow> byte \<Rightarrow> doip_ecu \<Rightarrow> doip_step" where
  "doip_negative service_id code = doip_reply [0x7F, service_id, code]"

definition doip_generate_seed :: "doip_ecu \<Rightarrow> doip_ecu \<times> bytes" where
  "doip_generate_seed e =
     (let e = e\<lparr>de_seed_counter := (de_seed_counter e + 1) AND 0xFFFFFFFF\<rparr>
      in (e, be_bytes 4 (push_bit 16 (de_logical_address e AND 0xFFFF) OR de_seed_counter e)))"

definition doip_reset_programming_state :: "doip_ecu \<Rightarrow> doip_ecu" where
  "doip_reset_programming_state e =
     e\<lparr>de_security_unlocked := False, de_pending_seed := [], de_erase_completed := False,
       de_activation_marked := False, de_install_pending := False,
       de_expected_download_size := 0, de_download_received_size := 0,
       de_expected_transfer_sequence := 1\<rparr>"

definition doip_touch_session :: "doip_env \<Rightarrow> doip_ecu \<Rightarrow> doip_ecu" where
  "doip_touch_session env e = e\<lparr>de_session_started_at := dn_now env\<rparr>"

definition doip_expire_session_if_needed :: "doip_env \<Rightarrow> doip_ecu \<Rightarrow> doip_ecu" where
  "doip_expire_session_if_needed env e =
     (if de_current_session e \<noteq> DEFAULT_SESSION_PROGRAMMING then e
      else if de_session_started_at e = 0 then e
      else if dn_now env - de_session_started_at e \<le> DOIP_SESSION_TIMEOUT then e
      else doip_reset_programming_state (e\<lparr>de_current_session := 0x00\<rparr>))"

definition doip_require_programming_session ::
    "doip_env \<Rightarrow> byte \<Rightarrow> (doip_ecu \<Rightarrow> doip_step) \<Rightarrow> doip_ecu \<Rightarrow> doip_step" where
  "doip_require_programming_session env service_id service e =
     (let e = doip_expire_session_if_needed env e in
      if de_current_session e \<noteq> DEFAULT_SESSION_PROGRAMMING
      then doip_negative service_id NRC_SERVICE_NOT_SUPPORTED_IN_ACTIVE_SESSION e
      else service (doip_touch_session env e))"

section \<open>Services\<close>

definition doip_session_control :: "doip_env \<Rightarrow> bytes \<Rightarrow> doip_ecu \<Rightarrow> doip_step" where
  "doip_session_control env payload e =
     (let session = (if length payload > 1 then payload ! 1 else 0x00);
          e = doip_touch_session env (doip_reset_programming_state (e\<lparr>de_current_session := session\<rparr>))
      in doip_reply [positive_response_sid (payload ! 0), session] e)"

definition doip_tester_present :: "doip_env \<Rightarrow> bytes \<Rightarrow> doip_ecu \<Rightarrow> doip_step" where
  "doip_tester_present env payload e =
     (let subfunction = (if length payload > 1 then payload ! 1 else 0x00);
          e = doip_expire_session_if_needed env e;
          e = (if de_current_session e = DEFAULT_SESSION_PROGRAMMING
               then doip_touch_session env e else e)
      in doip_reply [positive_response_sid (payload ! 0), subfunction] e)"

definition doip_read_data :: "doip_env \<Rightarrow> bytes \<Rightarrow> doip_ecu \<Rightarrow> doip_step" where
  "doip_read_data env payload e =
     (if length payload < 3 then doip_negative (payload ! 0) 0x13 e
      else if from_be (take 2 (drop 1 payload)) = DID_SOFTWARE_VERSION
      then doip_reply ([positive_response_sid (payload ! 0)] @ take 2 (drop 1 payload) @
                       bytes_of (dn_current_version env)) e
      else doip_negative (payload ! 0) 0x31 e)"

definition doip_request_seed :: "doip_env \<Rightarrow> bytes \<Rightarrow> doip_ecu \<Rightarrow> doip_step" where
  "doip_request_seed env payload e =
     (if dn_now env < de_security_locked_until e
      then doip_negative (payload ! 0) NRC_REQUIRED_TIME_DELAY_NOT_EXPIRED e
      else let (e, seed) = doip_generate_seed e;
               e = e\<lparr>de_pending_seed := seed, de_security_unlocked := False\<rparr>
           in doip_reply ([positive_response_sid (payload ! 0), payload ! 1] @ seed) e)"

definition doip_send_key :: "doip_env \<Rightarrow> bytes \<Rightarrow> doip_ecu \<Rightarrow> doip_step" where
  "doip_send_key env payload e =
     (if de_pending_seed e = [] then doip_negative (payload ! 0) NRC_REQUEST_SEQUENCE_ERROR e
      else case derive_security_key (dn_security env) (de_pending_seed e) of
        Inl err \<Rightarrow> (e, [Raised err])
      | Inr expected_key \<Rightarrow>
          if drop 2 payload \<noteq> expected_key then
            let e = e\<lparr>de_security_unlocked := False,
                     de_security_failures := de_security_failures e + 1, de_pending_seed := []\<rparr>
            in if de_security_failures e \<ge> DOIP_SECURITY_ATTEMPT_LIMIT
               then doip_negative (payload ! 0) NRC_EXCEED_NUMBER_OF_ATTEMPTS
                      (e\<lparr>de_security_locked_until := dn_now env + DOIP_SECURITY_LOCKOUT\<rparr>)
               else doip_negative (payload ! 0) NRC_INVALID_KEY e
          else doip_reply [positive_response_sid (payload ! 0), payload ! 1]
                 (e\<lparr>de_security_unlocked := True, de_security_failures := 0, de_pending_seed := []\<rparr>))"

definition doip_security_access :: "doip_env \<Rightarrow> bytes \<Rightarrow> doip_ecu \<Rightarrow> doip_step" where
  "doip_security_access env payload =
     doip_require_programming_session env (payload ! 0) (\<lambda>e.
       if length payload < 2 then doip_negative (payload ! 0) NRC_INCORRECT_LENGTH_OR_FORMAT e
       else if payload ! 1 = SECURITY_ACCESS_REQUEST_SEED then doip_request_seed env payload e
       else if payload ! 1 = SECURITY_ACCESS_SEND_KEY then doip_send_key env payload e
       else doip_negative (payload ! 0) 0x12 e)"

definition doip_routine_reply :: "bytes \<Rightarrow> doip_ecu \<Rightarrow> doip_step" where
  "doip_routine_reply payload e =
     (e, [response_pending (payload ! 0),
          Respond ([positive_response_sid (payload ! 0), payload ! 1] @ take 2 (drop 2 payload))])"

definition doip_erase_memory :: "bytes \<Rightarrow> doip_ecu \<Rightarrow> doip_ecu" where
  "doip_erase_memory routine_data e =
     e\<lparr>de_receiver := receiver_clear (de_receiver e),
       de_expected_download_size :=
         (if length routine_data \<ge> 4 then from_be (take 4 routine_data) else 0),
       de_download_received_size := 0, de_download_verified := False, de_install_pending := False,
       de_install_started := False, de_erase_completed := True, de_activation_marked := False,
       de_expected_transfer_sequence := 1\<rparr>"

definition doip_routine_control :: "doip_env \<Rightarrow> bytes \<Rightarrow> doip_ecu \<Rightarrow> doip_step" where
  "doip_routine_control env payload =
     doip_require_programming_session env (payload ! 0) (\<lambda>e.
       if length payload < 4 then doip_negative (payload ! 0) NRC_INCORRECT_LENGTH_OR_FORMAT e
       else if \<not> de_security_unlocked e then doip_negative (payload ! 0) NRC_SECURITY_ACCESS_DENIED e
       else let routine_id = from_be (take 2 (drop 2 payload)) in
         if payload ! 1 \<noteq> ROUTINE_CONTROL_START then doip_negative (payload ! 0) 0x12 e
         else if routine_id = ROUTINE_ERASE_MEMORY
         then doip_routine_reply payload (doip_erase_memory (drop 4 payload) e)
         else if routine_id = ROUTINE_VERIFY_IMAGE then
           (if \<not> de_install_pending e then doip_negative (payload ! 0) 0x72 e
            else doip_routine_reply payload e)
         else if routine_id = ROUTINE_ACTIVATE_IMAGE then
           (if \<not> de_install_pending e then doip_negative (payload ! 0) 0x72 e
            else doip_routine_reply payload (e\<lparr>de_activation_marked := True\<rparr>))
         else doip_negative (payload ! 0) 0x31 e)"

definition doip_request_download :: "doip_env \<Rightarrow> bytes \<Rightarrow> doip_ecu \<Rightarrow> doip_step" where
  "doip_request_download env payload =
     doip_require_programming_session env (payload ! 0) (\<lambda>e.
       if \<not> de_security_unlocked e \<or> \<not> de_erase_completed e
       then doip_negative (payload ! 0) NRC_CONDITIONS_NOT_CORRECT e
       else
         doip_reply ([positive_response_sid (payload ! 0), 0x00, 0x44] @
                     be_bytes 2 (GATEWAY_REQUEST_DOWNLOAD_BLOCK_LENGTH env))
           (e\<lparr>de_receiver := receiver_clear (de_receiver e),
              de_expected_download_size := from_be (drop (length payload - 4) payload),
              de_download_received_size := 0, de_download_verified := False,
              de_install_pending := False, de_install_started := False,
              de_target_version := JText (de_profile_version e),
              de_expected_transfer_sequence := 1\<rparr>))"

definition doip_transfer_data :: "doip_env \<Rightarrow> bytes \<Rightarrow> doip_ecu \<Rightarrow> doip_step" where
  "doip_transfer_data env payload =
     doip_require_programming_session env (payload ! 0) (\<lambda>e.
       if length payload < 2 then doip_negative (payload ! 0) NRC_INCORRECT_LENGTH_OR_FORMAT e
       else if \<not> de_security_unlocked e then doip_negative (payload ! 0) NRC_SECURITY_ACCESS_DENIED e
       else if unat (payload ! 1) \<noteq> de_expected_transfer_sequence e mod 256
       then doip_negative (payload ! 0) NRC_WRONG_BLOCK_SEQUENCE_COUNTER e
       else
         let trimmed = take (de_expected_download_size e - de_download_received_size e) (drop 2 payload) in
         if trimmed = [] \<and> de_expected_download_size e \<noteq> 0
         then doip_negative (payload ! 0) NRC_REQUEST_OUT_OF_RANGE e
         else
           let rcv = de_receiver e in
           doip_reply [positive_response_sid (payload ! 0), payload ! 1]
             (e\<lparr>de_receiver := rcv\<lparr>rcv_buffer := rcv_buffer rcv @ trimmed,
                                  rcv_chunk_count := rcv_chunk_count rcv + 1\<rparr>,
                de_download_received_size := de_download_received_size e + length trimmed,
                de_expected_transfer_sequence := (de_expected_transfer_sequence e + 1) mod 256\<rparr>))"

definition doip_transfer_exit :: "doip_env \<Rightarrow> bytes \<Rightarrow> doip_ecu \<Rightarrow> doip_step" where
  "doip_transfer_exit env payload =
     doip_require_programming_session env (payload ! 0) (\<lambda>e.
       if \<not> de_security_unlocked e then doip_negative (payload ! 0) NRC_SECURITY_ACCESS_DENIED e
       else if de_expected_download_size e \<noteq> 0 \<and>
               de_download_received_size e \<noteq> de_expected_download_size e
       then doip_negative (payload ! 0) NRC_INCORRECT_LENGTH_OR_FORMAT e
       else
         let e = e\<lparr>de_receiver := receiver_save (de_receiver e)\<rparr> in
         case receiver_verify (dn_original env) (de_receiver e) of
           Inl err \<Rightarrow> (e, [response_pending (payload ! 0), Raised err])
         | Inr (passed, _) \<Rightarrow>
             (e\<lparr>de_download_verified := passed, de_install_pending := passed,
                de_install_started := False\<rparr>,
              [response_pending (payload ! 0),
               Respond (if passed then [positive_response_sid (payload ! 0)]
                        else [0x7F, payload ! 0, 0x72])]))"

definition doip_ecu_reset :: "doip_env \<Rightarrow> bytes \<Rightarrow> doip_ecu \<Rightarrow> doip_step" where
  "doip_ecu_reset env payload =
     doip_require_programming_session env (payload ! 0) (\<lambda>e.
       let reset_type = (if length payload > 1 then payload ! 1 else 0x01);
           start = (de_install_pending e \<and> de_activation_marked e \<and> \<not> de_install_started e);
           e = (if start then e\<lparr>de_install_started := True\<rparr> else e)
       in (doip_reset_programming_state (e\<lparr>de_current_session := 0x00\<rparr>),
           Respond [positive_response_sid (payload ! 0), reset_type] #
           (if start then [StartInstall] else [])))"

text \<open>The boolean is the return value: whether the message was handled.\<close>

definition handle_raw_uds_message :: "doip_env \<Rightarrow> bytes \<Rightarrow> doip_ecu \<Rightarrow> bool \<times> doip_step" where
  "handle_raw_uds_message env payload e =
     (if payload = [] then (False, e, [])
      else let service_id = payload ! 0 in
        if service_id = SID_DIAGNOSTIC_SESSION_CONTROL then (True, doip_session_control env payload e)
        else if service_id = SID_TESTER_PRESENT then (True, doip_tester_present env payload e)
        else if service_id = SID_READ_DATA_BY_IDENTIFIER then (True, doip_read_data env payload e)
        else if service_id = SID_SECURITY_ACCESS then (True, doip_security_access env payload e)
        else if service_id = SID_ROUTINE_CONTROL then (True, doip_routine_control env payload e)
        else if service_id = SID_REQUEST_DOWNLOAD then (True, doip_request_download env payload e)
        else if service_id = SID_TRANSFER_DATA then (True, doip_transfer_data env payload e)
        else if service_id = SID_REQUEST_TRANSFER_EXIT then (True, doip_transfer_exit env payload e)
        else if service_id = SID_ECU_RESET then (True, doip_ecu_reset env payload e)
        else (False, e, []))"

definition is_raw_uds_payload :: "bytes \<Rightarrow> bool" where
  "is_raw_uds_payload payload \<longleftrightarrow>
     payload \<noteq> [] \<and> payload ! 0 \<in> set
       [SID_DIAGNOSTIC_SESSION_CONTROL, SID_ECU_RESET, SID_READ_DATA_BY_IDENTIFIER,
        SID_ROUTINE_CONTROL, SID_SECURITY_ACCESS, SID_REQUEST_DOWNLOAD, SID_REQUEST_TRANSFER_EXIT,
        SID_TRANSFER_DATA, SID_TESTER_PRESENT]"

section \<open>The invariant\<close>

text \<open>
  \<open>e\<close> as of the conditions \<open>env\<close>: rights are bound to the programming session; while an
  installation is pending, the saved image is the received one, has the original's hash, and no
  transfer can extend it; during a lockout there is no seed to answer and the ECU is locked.
\<close>

definition doip_inv :: "doip_env \<Rightarrow> doip_ecu \<Rightarrow> bool" where
  "doip_inv env e \<longleftrightarrow>
     (de_security_unlocked e \<or> de_erase_completed e \<or> de_install_pending e \<or> de_activation_marked e
        \<longrightarrow> de_current_session e = DEFAULT_SESSION_PROGRAMMING) \<and>
     (de_install_pending e \<longrightarrow>
        saved_file (de_receiver e) = Some (firmware_data (de_receiver e)) \<and>
        de_expected_download_size e - de_download_received_size e = 0 \<and>
        (\<exists>original. dn_original env = Some original \<and>
           sha256 (firmware_data (de_receiver e)) = sha256 original)) \<and>
     length (de_pending_seed e) \<in> {0, 4} \<and>
     de_download_received_size e \<le> de_expected_download_size e \<and>
     de_expected_transfer_sequence e < 256 \<and>
     (dn_now env < de_security_locked_until e \<longrightarrow> de_pending_seed e = [] \<and> \<not> de_security_unlocked e)"

definition doip_later :: "doip_env \<Rightarrow> doip_env \<Rightarrow> bool" where
  "doip_later env env' \<longleftrightarrow> dn_now env \<le> dn_now env' \<and> dn_original env' = dn_original env"

lemma doip_inv_later: "doip_inv env e \<Longrightarrow> doip_later env env' \<Longrightarrow> doip_inv env' e"
  by (auto simp: doip_inv_def doip_later_def)

lemma doip_inv_new: "0 \<le> dn_now env \<Longrightarrow> doip_inv env (new_ecu_context n a v r)"
  by (simp add: doip_inv_def new_ecu_context_def)

lemma doip_inv_reset:
  "doip_inv env e \<Longrightarrow> doip_inv env (doip_reset_programming_state (e\<lparr>de_current_session := s\<rparr>))"
  by (auto simp: doip_inv_def doip_reset_programming_state_def)

lemma doip_inv_touch [simp]: "doip_inv env (doip_touch_session env' e) = doip_inv env e"
  by (simp add: doip_inv_def doip_touch_session_def)

lemma doip_inv_expire: "doip_inv env e \<Longrightarrow> doip_inv env (doip_expire_session_if_needed env' e)"
  by (simp add: doip_expire_session_if_needed_def doip_inv_reset)

lemma doip_touch_current [simp]: "de_current_session (doip_touch_session env e) = de_current_session e"
  by (simp add: doip_touch_session_def)

lemma doip_reply_simps [simp]: "fst (doip_reply r e) = e" "snd (doip_reply r e) = [Respond r]"
  by (simp_all add: doip_reply_def)

lemma doip_negative_simps [simp]:
  "fst (doip_negative sid code e) = e" "snd (doip_negative sid code e) = [Respond [0x7F, sid, code]]"
  by (simp_all add: doip_negative_def)

lemma doip_routine_reply_simps [simp]: "fst (doip_routine_reply payload e) = e"
  by (simp add: doip_routine_reply_def)

lemma doip_require_inv:
  assumes "doip_inv env e"
    and "\<And>q. doip_inv env q \<Longrightarrow> de_current_session q = DEFAULT_SESSION_PROGRAMMING \<Longrightarrow>
            doip_inv env (fst (service q))"
  shows "doip_inv env (fst (doip_require_programming_session env sid service e))"
  using assms doip_inv_expire [OF assms(1), of env]
  by (simp add: doip_require_programming_session_def Let_def)

lemma firmware_data_unextended [simp]:
  "firmware_data (r\<lparr>rcv_buffer := rcv_buffer r, rcv_chunk_count := n\<rparr>) = firmware_data r"
  "firmware_data (r\<lparr>rcv_chunk_count := n\<rparr>) = firmware_data r"
  by (simp_all add: firmware_data_def split: option.split)

lemma doip_inv_security_access:
  "doip_inv env e \<Longrightarrow> doip_inv env (fst (doip_security_access env payload e))"
  unfolding doip_security_access_def
  by (erule doip_require_inv)
    (auto simp: doip_request_seed_def doip_send_key_def doip_generate_seed_def doip_inv_def Let_def
      split: sum.split)

lemma doip_inv_routine_control:
  "doip_inv env e \<Longrightarrow> doip_inv env (fst (doip_routine_control env payload e))"
  unfolding doip_routine_control_def
  by (erule doip_require_inv) (auto simp: doip_erase_memory_def doip_inv_def Let_def)

lemma doip_inv_request_download:
  "doip_inv env e \<Longrightarrow> doip_inv env (fst (doip_request_download env payload e))"
  unfolding doip_request_download_def
  by (erule doip_require_inv) (auto simp: doip_inv_def)

lemma doip_inv_transfer_data:
  "doip_inv env e \<Longrightarrow> doip_inv env (fst (doip_transfer_data env payload e))"
  unfolding doip_transfer_data_def
  by (erule doip_require_inv) (auto simp: doip_inv_def Let_def)

lemma doip_inv_transfer_exit:
  "doip_inv env e \<Longrightarrow> doip_inv env (fst (doip_transfer_exit env payload e))"
  unfolding doip_transfer_exit_def
proof (erule doip_require_inv, goal_cases)
  case (1 q)
  let ?r = "receiver_save (de_receiver q)"
  show ?case
  proof (cases "receiver_verify (dn_original env) ?r")
    case (Inl err)
    then show ?thesis using 1 by (auto simp: doip_inv_def receiver_save_def)
  next
    case (Inr v)
    obtain ok rest where v: "v = (ok, rest)" by (cases v)
    have "ok \<Longrightarrow> \<exists>original. dn_original env = Some original \<and>
        sha256 (firmware_data (de_receiver q)) = sha256 original"
      using receiver_verify_passed [of "dn_original env" ?r rest] Inr v by (auto simp: receiver_save_def)
    then show ?thesis using 1 Inr v by (cases ok) (auto simp: doip_inv_def receiver_save_def)
  qed
qed

lemma doip_inv_ecu_reset: "doip_inv env e \<Longrightarrow> doip_inv env (fst (doip_ecu_reset env payload e))"
  unfolding doip_ecu_reset_def
  by (erule doip_require_inv) (auto simp: doip_inv_def doip_reset_programming_state_def Let_def)

definition doip_handle :: "doip_env \<Rightarrow> bytes \<Rightarrow> doip_ecu \<Rightarrow> doip_step" where
  "doip_handle env payload e = snd (handle_raw_uds_message env payload e)"

lemma doip_inv_handle: "doip_inv env e \<Longrightarrow> doip_inv env (fst (doip_handle env payload e))"
  by (simp add: doip_handle_def handle_raw_uds_message_def doip_session_control_def
      doip_tester_present_def doip_read_data_def doip_inv_reset doip_inv_expire
      doip_inv_security_access doip_inv_routine_control doip_inv_request_download
      doip_inv_transfer_data doip_inv_transfer_exit doip_inv_ecu_reset Let_def)

section \<open>Responses and installations\<close>

lemma doip_require_responses:
  assumes "\<And>q. responses_ok request (snd (service q))"
  shows "responses_ok request (snd (doip_require_programming_session env (request ! 0) service e))"
  using assms by (simp add: doip_require_programming_session_def Let_def)

lemma doip_require_no_install:
  assumes "\<And>q. no_install (snd (service q))"
  shows "no_install (snd (doip_require_programming_session env sid service e))"
  using assms by (simp add: doip_require_programming_session_def Let_def)

lemma doip_open_services:
  "responses_ok request (snd (doip_session_control env request e))"
  "responses_ok request (snd (doip_tester_present env request e))"
  "responses_ok request (snd (doip_read_data env request e))"
  "responses_ok request (snd (doip_request_seed env request e))"
  "responses_ok request (snd (doip_routine_reply request e))"
  "responses_ok request (snd (doip_send_key env request e))"
  "no_install (snd (doip_session_control env request e))"
  "no_install (snd (doip_tester_present env request e))"
  "no_install (snd (doip_read_data env request e))"
  "no_install (snd (doip_request_seed env request e))"
  "no_install (snd (doip_routine_reply request e))"
  "no_install (snd (doip_send_key env request e))"
  by (simp_all add: doip_session_control_def doip_tester_present_def doip_read_data_def
      doip_request_seed_def doip_routine_reply_def doip_send_key_def Let_def split_beta
      split: sum.split)

lemma doip_programming_responses:
  "responses_ok request (snd (doip_security_access env request e))"
  "responses_ok request (snd (doip_routine_control env request e))"
  "responses_ok request (snd (doip_request_download env request e))"
  "responses_ok request (snd (doip_transfer_data env request e))"
  "responses_ok request (snd (doip_transfer_exit env request e))"
  "responses_ok request (snd (doip_ecu_reset env request e))"
  unfolding doip_security_access_def doip_routine_control_def doip_request_download_def
    doip_transfer_data_def doip_transfer_exit_def doip_ecu_reset_def
  by (rule doip_require_responses; simp add: doip_open_services Let_def split: sum.split)+

lemma doip_programming_no_install:
  "no_install (snd (doip_security_access env request e))"
  "no_install (snd (doip_routine_control env request e))"
  "no_install (snd (doip_request_download env request e))"
  "no_install (snd (doip_transfer_data env request e))"
  "no_install (snd (doip_transfer_exit env request e))"
  unfolding doip_security_access_def doip_routine_control_def doip_request_download_def
    doip_transfer_data_def doip_transfer_exit_def
  by (rule doip_require_no_install; simp add: doip_open_services Let_def split: sum.split)+

lemma doip_handle_responses: "responses_ok request (snd (doip_handle env request e))"
  by (simp add: doip_handle_def handle_raw_uds_message_def doip_open_services
      doip_programming_responses Let_def)

definition doip_image_verified :: "doip_env \<Rightarrow> doip_ecu \<Rightarrow> bool" where
  "doip_image_verified env e \<longleftrightarrow>
     (\<exists>saved original. saved_file (de_receiver e) = Some saved \<and>
        dn_original env = Some original \<and> sha256 saved = sha256 original)"

lemma doip_reset_installs:
  assumes "StartInstall \<in> set (snd (doip_ecu_reset env request e))"
  shows "let q = doip_touch_session env (doip_expire_session_if_needed env e) in
         de_install_pending q \<and> de_activation_marked q \<and> \<not> de_install_started q \<and>
         de_receiver (fst (doip_ecu_reset env request e)) = de_receiver q"
  using assms
  by (auto simp: doip_ecu_reset_def doip_require_programming_session_def
      doip_reset_programming_state_def Let_def split: if_splits)

lemma doip_install_verified:
  assumes "doip_inv env e" and "StartInstall \<in> set (snd (doip_handle env request e))"
  shows "doip_image_verified env (fst (doip_handle env request e))"
proof -
  have "request \<noteq> []" using assms(2) by (auto simp: doip_handle_def handle_raw_uds_message_def)
  have "\<not> no_install (snd (doip_handle env request e))" using assms(2) by (simp add: no_install_def)
  then have h: "doip_handle env request e = doip_ecu_reset env request e"
    using \<open>request \<noteq> []\<close>
    by (auto simp: doip_handle_def handle_raw_uds_message_def doip_open_services
        doip_programming_no_install Let_def split: if_splits)
  let ?q = "doip_touch_session env (doip_expire_session_if_needed env e)"
  have "doip_inv env ?q" by (simp add: doip_inv_expire assms(1))
  moreover have "de_install_pending ?q"
    and r: "de_receiver (fst (doip_handle env request e)) = de_receiver ?q"
    using doip_reset_installs [of env request e] assms(2) by (simp_all add: h Let_def)
  ultimately show ?thesis by (auto simp: doip_image_verified_def r doip_inv_def)
qed

interpretation doip_gateway: uds_server doip_handle doip_later doip_inv doip_image_verified
proof
  fix env env' :: doip_env and e request r
  show "doip_inv env e \<Longrightarrow> doip_later env env' \<Longrightarrow> doip_inv env' e"
    by (rule doip_inv_later)
  show "doip_inv env e \<Longrightarrow> doip_inv env (fst (doip_handle env request e))"
    by (rule doip_inv_handle)
  show "doip_inv env e \<Longrightarrow> StartInstall \<in> set (snd (doip_handle env request e)) \<Longrightarrow>
      doip_image_verified env (fst (doip_handle env request e))"
    by (rule doip_install_verified)
  show "request \<noteq> [] \<and> is_response_for_request r (Some (request ! 0))"
    if "Respond r \<in> set (snd (doip_handle env request e))"
    using that doip_handle_responses [of request env e]
    by (cases "request = []")
      (auto simp: responses_ok_def doip_handle_def handle_raw_uds_message_def)
qed

text \<open>With the flash proxy enabled nothing that counts as raw UDS is left to forward.\<close>

lemma raw_uds_handled: "is_raw_uds_payload payload \<Longrightarrow> fst (handle_raw_uds_message env payload e)"
  by (auto simp: is_raw_uds_payload_def handle_raw_uds_message_def Let_def)

fun doip_run :: "(doip_env \<times> bytes) list \<Rightarrow> doip_ecu \<Rightarrow> doip_step" where
  "doip_run [] e = (e, [])"
| "doip_run ((env, request) # rs) e =
     (let (e', evs) = snd (handle_raw_uds_message env request e); (e'', evs') = doip_run rs e'
      in (e'', evs @ evs'))"

fun doip_schedule :: "doip_env \<Rightarrow> (doip_env \<times> bytes) list \<Rightarrow> bool" where
  "doip_schedule env [] \<longleftrightarrow> True"
| "doip_schedule env ((env', request) # rs) \<longleftrightarrow>
     dn_now env \<le> dn_now env' \<and> dn_original env' = dn_original env \<and> doip_schedule env' rs"

lemma doip_run_serve: "doip_run rs e = doip_gateway.serve rs e"
  by (induction rs arbitrary: e) (auto simp: doip_handle_def split: prod.split)

lemma doip_schedule_from: "doip_schedule env rs = doip_gateway.schedule_from env rs"
  by (induction rs arbitrary: env) (auto simp: doip_later_def)

text \<open>Whatever UDS requests an ECU context of the gateway receives, it starts an installation
  only when the image saved for the installer has the SHA-256 of the original.\<close>

theorem doip_installs_verified_image:
  assumes "0 \<le> dn_now env" and "doip_schedule env (rs @ [(env', request)])"
    and "e = fst (doip_run rs (new_ecu_context n address v rcv))"
    and "handle_raw_uds_message env' request e = (handled, e', evs)" and "StartInstall \<in> set evs"
  shows "\<exists>saved original. saved_file (de_receiver e') = Some saved \<and>
           dn_original env' = Some original \<and> sha256 saved = sha256 original"
proof -
  let ?e = "new_ecu_context n address v rcv"
  have split: "doip_gateway.schedule_from c (xs @ [(env', request)]) \<longleftrightarrow>
      doip_gateway.schedule_from c xs \<and> doip_later (doip_gateway.last_env c xs) env'" for c xs
    by (induction xs arbitrary: c) (auto simp: doip_gateway.last_env_def)
  have "doip_gateway.schedule_from env rs" and "doip_later (doip_gateway.last_env env rs) env'"
    using assms(2) split by (simp_all add: doip_schedule_from)
  from doip_gateway.install_after_serve [OF doip_inv_new [OF assms(1), of n address v rcv] this,
      of request]
  show ?thesis using assms(3-5)
    by (simp add: doip_run_serve doip_image_verified_def doip_handle_def)
qed

end
