(* ===== verification/DoIP_Client.thy ===== *)
theory DoIP_Client
  imports UDS_Client DoIP_Server
begin

text \<open>
  The tester on Ethernet: \<open>transport/doip/library_client.py\<close> (\<open>LibraryDoIPClient\<close>) with the
  gateway's ECU context at the other end.

  The package \<open>doipclient\<close> is used for framing and sockets: what its \<open>read_doip\<close> returns is a
  \<open>doip_message\<close>, in the order the gateway sent them. \<open>fate\<close> says what becomes of each exchange:
  answered in time, request lost, response lost, or response arriving only after the client has
  given up waiting, which on TCP is what a slow gateway looks like. A message is in the inbox when
  it arrives before the deadline that applies. The fallback without the package
  (\<open>transport/doip/client.py\<close>) lacks the methods this class calls on it and is not modelled.
\<close>

section \<open>The link\<close>

datatype doip_message =
  PositiveAck | NegativeAck nat | Diagnostic (source_address: nat) (target_address: nat) bytes |
  OtherMessage

datatype fate = Delivered | RequestLost | ResponseLost | ResponseLate

abbreviation TESTER_ADDRESS :: nat where "TESTER_ADDRESS \<equiv> 0x0E80"
abbreviation MAX_GATEWAY_TRANSFER_PAYLOAD :: nat where "MAX_GATEWAY_TRANSFER_PAYLOAD \<equiv> 16384"
abbreviation TRANSFER_RETRY_LIMIT :: nat where "TRANSFER_RETRY_LIMIT \<equiv> 2"

record doip_link =
  dl_library :: "udsoncan option"
  dl_tester_security :: security_env
  dl_target_address :: nat
  dl_envs :: "nat \<Rightarrow> doip_env"
  dl_fates :: "nat \<Rightarrow> fate"
  dl_clock :: nat
  dl_ecu :: doip_ecu
  dl_installs :: "bytes option list"
  dl_inbox :: "doip_message list"
  dl_late :: "doip_message list"
  dl_max_transfer_payload :: nat

text \<open>The messages of one request: an acknowledgement and a diagnostic message per response.\<close>

definition gateway_messages :: "doip_ecu \<Rightarrow> uds_event list \<Rightarrow> doip_message list" where
  "gateway_messages e evs =
     concat (map (\<lambda>ev. case ev of
        Respond r \<Rightarrow> [PositiveAck, Diagnostic (de_logical_address e) TESTER_ADDRESS r]
      | _ \<Rightarrow> []) evs)"

definition gateway_installs :: "doip_ecu \<Rightarrow> uds_event list \<Rightarrow> bytes option list" where
  "gateway_installs e evs =
     concat (map (\<lambda>ev. case ev of StartInstall \<Rightarrow> [saved_file (de_receiver e)] | _ \<Rightarrow> []) evs)"

text \<open>\<open>send_diagnostic_to_address\<close> and what comes back of it.\<close>

definition send_diagnostic :: "bytes result \<Rightarrow> (doip_link, unit) action" where
  "send_diagnostic request s =
     (case request of
        Inl err \<Rightarrow> (Inl err, s)
      | Inr payload \<Rightarrow>
          let k = dl_clock s; inbox = dl_inbox s @ dl_late s;
              (e, evs) = doip_handle (dl_envs s k) payload (dl_ecu s);
              answers = gateway_messages e evs
          in (Inr (),
              case dl_fates s k of
                RequestLost \<Rightarrow> s\<lparr>dl_clock := k + 1, dl_inbox := inbox, dl_late := []\<rparr>
              | fate \<Rightarrow>
                  s\<lparr>dl_clock := k + 1, dl_ecu := e, dl_installs := dl_installs s @ gateway_installs e evs,
                    dl_inbox := inbox @ (if fate = Delivered then answers else []),
                    dl_late := (if fate = ResponseLate then answers else [])\<rparr>))"

section \<open>Receiving\<close>

text \<open>\<open>_receive_raw_diagnostic\<close> over the messages read, and what is left of them.\<close>

fun receive_raw :: "nat \<Rightarrow> doip_message list \<Rightarrow> bytes result \<times> doip_message list" where
  "receive_raw target [] = (Inl (TimeoutError ''Timed out waiting for diagnostic response''), [])"
| "receive_raw target (PositiveAck # ms) = receive_raw target ms"
| "receive_raw target (NegativeAck code # ms) =
     (Inl (IOError ''DoIP diagnostic request rejected with NACK''), ms)"
| "receive_raw target (Diagnostic source dest payload # ms) =
     (if source = target \<and> dest = TESTER_ADDRESS then (Inr payload, ms) else receive_raw target ms)"
| "receive_raw target (OtherMessage # ms) = receive_raw target ms"

lemma receive_raw_shorter: "receive_raw target ms = (Inr p, ms') \<Longrightarrow> length ms' < length ms"
  by (induction target ms rule: receive_raw.induct) (auto split: if_splits)

function expect_final :: "nat \<Rightarrow> byte \<Rightarrow> bytes \<Rightarrow> doip_message list \<Rightarrow> bytes result \<times> doip_message list" where
  "expect_final target sid current ms =
     (if is_response_pending current (Some sid) then
        (case receive_raw target ms of
           (Inl err, ms') \<Rightarrow> (Inl err, ms')
         | (Inr next_payload, ms') \<Rightarrow> expect_final target sid next_payload ms')
      else if is_negative_response current then (Inl (RuntimeError ''UDS request rejected''), ms)
      else if current = [] \<or> current ! 0 \<noteq> positive_response_sid sid
      then (Inl (RuntimeError ''Unexpected UDS response''), ms)
      else (Inr current, ms))"
  by pat_completeness auto
termination
  by (relation "measure (\<lambda>(_, _, _, ms). length ms)") (auto dest: receive_raw_shorter [OF sym])

declare expect_final.simps [simp del]

definition on_inbox :: "(doip_message list \<Rightarrow> 'a result \<times> doip_message list) \<Rightarrow> (doip_link, 'a) action" where
  "on_inbox f s = (let (r, ms) = f (dl_inbox s) in (r, s\<lparr>dl_inbox := ms\<rparr>))"

definition receive_raw_diagnostic :: "(doip_link, bytes) action" where
  "receive_raw_diagnostic s = on_inbox (receive_raw (dl_target_address s)) s"

definition doip_expect_positive :: "bytes \<Rightarrow> byte \<Rightarrow> (doip_link, bytes) action" where
  "doip_expect_positive payload sid s = on_inbox (expect_final (dl_target_address s) sid payload) s"

section \<open>The methods\<close>

text \<open>Send, receive and expect: the body of most methods.\<close>

definition doip_exchange :: "byte \<Rightarrow> bytes result \<Rightarrow> (doip_link, bytes) action" where
  "doip_exchange sid request =
     bindS (send_diagnostic request) (\<lambda>_. bindS receive_raw_diagnostic (\<lambda>r. doip_expect_positive r sid))"

definition doip_diagnostic_session_control :: "(doip_link, bool) action" where
  "doip_diagnostic_session_control s =
     bindS (doip_exchange SID_DIAGNOSTIC_SESSION_CONTROL
       (build_diagnostic_session_control (dl_library s) 0x02)) (\<lambda>_. returnS True) s"

definition doip_client_tester_present :: "(doip_link, bool) action" where
  "doip_client_tester_present s =
     bindS (doip_exchange SID_TESTER_PRESENT (build_tester_present (dl_library s) False))
       (\<lambda>_. returnS True) s"

definition doip_client_request_download :: "nat \<Rightarrow> (doip_link, bool) action" where
  "doip_client_request_download n s =
     bindS (doip_exchange SID_REQUEST_DOWNLOAD (build_request_download (dl_library s) n 0))
       (\<lambda>response s. (Inr True,
          case parse_request_download_max_block_length response of
            None \<Rightarrow> s
          | Some m \<Rightarrow> s\<lparr>dl_max_transfer_payload := min m MAX_GATEWAY_TRANSFER_PAYLOAD\<rparr>)) s"

definition doip_client_request_seed :: "(doip_link, bytes) action" where
  "doip_client_request_seed s =
     bindS (doip_exchange SID_SECURITY_ACCESS (build_security_access_request_seed (dl_library s) 0x01))
       (\<lambda>response. returnS (drop 2 response)) s"

definition doip_client_send_key :: "bytes \<Rightarrow> (doip_link, bool) action" where
  "doip_client_send_key seed s =
     bindS (doip_exchange SID_SECURITY_ACCESS
       (bindE (derive_security_key (dl_tester_security s) seed)
         (build_security_access_send_key (dl_library s) 0x02))) (\<lambda>_. returnS True) s"

definition doip_client_erase_memory :: "nat \<Rightarrow> (doip_link, bool) action" where
  "doip_client_erase_memory n s =
     bindS (doip_exchange SID_ROUTINE_CONTROL
       (bindE (to_bytes 4 n) (build_routine_control_start (dl_library s) ROUTINE_ERASE_MEMORY)))
       (\<lambda>_. returnS True) s"

text \<open>
  \<open>for attempt in range(1, LIMIT + 1)\<close> of \<open>transfer_data\<close>: a timeout is retried; a wrong block
  counter on a retry means that the first attempt was received. After the loop the code would
  call \<open>_send_chunk\<close>, which raises here.
\<close>

fun transfer_attempts :: "nat list \<Rightarrow> nat \<Rightarrow> bytes result \<Rightarrow> (doip_link, bool) action" where
  "transfer_attempts [] seq request s = (Inl TypeError, s)"
| "transfer_attempts (attempt # attempts) seq request s =
     (case send_diagnostic request s of
        (Inl err, s) \<Rightarrow> (Inl err, s)
      | (Inr _, s) \<Rightarrow>
          (case receive_raw_diagnostic s of
             (Inl (TimeoutError m), s) \<Rightarrow>
               if attempt \<ge> TRANSFER_RETRY_LIMIT then (Inl (TimeoutError m), s)
               else transfer_attempts attempts seq request s
           | (Inl err, s) \<Rightarrow> (Inl err, s)
           | (Inr response, s) \<Rightarrow>
               if is_negative_response response \<and> length response > 2 \<and>
                  response ! 2 = NRC_WRONG_BLOCK_SEQUENCE_COUNTER \<and> attempt > 1
               then (Inr True, s)
               else bindS (doip_expect_positive response SID_TRANSFER_DATA) (\<lambda>response.
                 if length response < 2 \<or> response ! 1 \<noteq> word_of_nat seq AND 0xFF
                 then raiseS (RuntimeError ''Unexpected TransferData sequence response'')
                 else returnS True) s))"

declare transfer_attempts.simps(2) [simp del]

definition doip_client_transfer_data :: "nat \<Rightarrow> bytes \<Rightarrow> (doip_link, bool) action" where
  "doip_client_transfer_data seq payload s =
     transfer_attempts [1..<TRANSFER_RETRY_LIMIT + 1] seq
       (build_transfer_data (dl_library s) seq payload) s"

definition doip_client_transfer_exit :: "(doip_link, bool) action" where
  "doip_client_transfer_exit s =
     bindS (doip_exchange SID_REQUEST_TRANSFER_EXIT (build_request_transfer_exit (dl_library s)))
       (\<lambda>_. returnS True) s"

definition doip_client_verify_programming :: "(doip_link, bool) action" where
  "doip_client_verify_programming s =
     bindS (doip_exchange SID_ROUTINE_CONTROL
       (build_routine_control_start (dl_library s) ROUTINE_VERIFY_IMAGE [])) (\<lambda>_. returnS True) s"

definition doip_client_activate_image :: "(doip_link, bool) action" where
  "doip_client_activate_image s =
     bindS (doip_exchange SID_ROUTINE_CONTROL
       (build_routine_control_start (dl_library s) ROUTINE_ACTIVATE_IMAGE [])) (\<lambda>_. returnS True) s"

definition doip_client_ecu_reset :: "(doip_link, bool) action" where
  "doip_client_ecu_reset s =
     bindS (doip_exchange SID_ECU_RESET (build_ecu_reset (dl_library s) 0x01)) (\<lambda>_. returnS True) s"

definition read_version_by_address :: "(doip_link, string option) action" where
  "read_version_by_address s =
     bindS (doip_exchange SID_READ_DATA_BY_IDENTIFIER
       (build_read_data_by_identifier (dl_library s) DID_SOFTWARE_VERSION))
       (\<lambda>response. returnS (parse_software_version response)) s"

text \<open>The polls that fit before the deadline of \<open>wait_for_boot\<close>.\<close>

fun doip_wait_for_boot :: "nat \<Rightarrow> string \<Rightarrow> (doip_link, bool) action" where
  "doip_wait_for_boot 0 target_version s = (Inl (RuntimeError ''Boot confirmation failed''), s)"
| "doip_wait_for_boot (Suc polls) target_version s =
     bindS read_version_by_address (\<lambda>version.
       if version = Some target_version then returnS True
       else doip_wait_for_boot polls target_version) s"

text \<open>The class has no \<open>read_software_version\<close>, so the client skips the readback.\<close>

definition doip_transport :: "nat \<Rightarrow> string \<Rightarrow> doip_link flash_transport" where
  "doip_transport polls target_version =
     \<lparr>tp_session_control = doip_diagnostic_session_control,
      tp_tester_present = doip_client_tester_present, tp_request_seed = doip_client_request_seed,
      tp_send_key = doip_client_send_key, tp_erase_memory = doip_client_erase_memory,
      tp_request_download = doip_client_request_download,
      tp_transfer_data = doip_client_transfer_data, tp_transfer_exit = doip_client_transfer_exit,
      tp_verify_programming = doip_client_verify_programming,
      tp_activate_image = doip_client_activate_image, tp_ecu_reset = doip_client_ecu_reset,
      tp_max_transfer_payload = (\<lambda>s. Some (dl_max_transfer_payload s)),
      tp_wait_for_boot = Some (doip_wait_for_boot polls target_version),
      tp_read_software_version = None, tp_target_version = Some target_version\<rparr>"

section \<open>One exchange\<close>

lemma gateway_messages_simps [simp]:
  "gateway_messages e [] = []"
  "gateway_messages e (Respond r # evs) =
     [PositiveAck, Diagnostic (de_logical_address e) TESTER_ADDRESS r] @ gateway_messages e evs"
  "gateway_messages e (StartInstall # evs) = gateway_messages e evs"
  "gateway_messages e (response_pending sid # evs) =
     [PositiveAck, Diagnostic (de_logical_address e) TESTER_ADDRESS [0x7F, sid, 0x78]] @
       gateway_messages e evs"
  by (simp_all add: gateway_messages_def response_pending_def)

lemma gateway_installs_simps [simp]:
  "gateway_installs e [] = []"
  "gateway_installs e (Respond r # evs) = gateway_installs e evs"
  "gateway_installs e (response_pending sid # evs) = gateway_installs e evs"
  "gateway_installs e (StartInstall # evs) = saved_file (de_receiver e) # gateway_installs e evs"
  by (simp_all add: gateway_installs_def response_pending_def)

text \<open>Nothing unread, and the addresses match.\<close>

definition quiet :: "doip_link \<Rightarrow> bool" where
  "quiet s \<longleftrightarrow> dl_inbox s = [] \<and> dl_late s = [] \<and> de_logical_address (dl_ecu s) = dl_target_address s"

definition after_exchange :: "doip_link \<Rightarrow> doip_ecu \<Rightarrow> uds_event list \<Rightarrow> doip_link" where
  "after_exchange s e evs =
     s\<lparr>dl_clock := dl_clock s + 1, dl_ecu := e, dl_installs := dl_installs s @ gateway_installs e evs,
       dl_inbox := [], dl_late := []\<rparr>"

definition now_env :: "doip_link \<Rightarrow> doip_env" where
  "now_env s = dl_envs s (dl_clock s)"

lemma after_exchange_simps [simp]:
  "dl_library (after_exchange s e evs) = dl_library s"
  "dl_tester_security (after_exchange s e evs) = dl_tester_security s"
  "dl_target_address (after_exchange s e evs) = dl_target_address s"
  "dl_envs (after_exchange s e evs) = dl_envs s" "dl_fates (after_exchange s e evs) = dl_fates s"
  "dl_clock (after_exchange s e evs) = dl_clock s + 1" "dl_ecu (after_exchange s e evs) = e"
  "dl_installs (after_exchange s e evs) = dl_installs s @ gateway_installs e evs"
  "dl_inbox (after_exchange s e evs) = []" "dl_late (after_exchange s e evs) = []"
  "dl_max_transfer_payload (after_exchange s e evs) = dl_max_transfer_payload s"
  by (simp_all add: after_exchange_def)

lemma expect_final_positive:
  "sid \<noteq> 0x3F \<Longrightarrow> expect_final target sid (positive_response_sid sid # r) ms =
     (Inr (positive_response_sid sid # r), ms)"
  using positive_response_sid_neq_negative [of sid]
  by (subst expect_final.simps) (simp add: is_response_pending_def is_negative_response_def)

lemma expect_final_pending:
  "sid \<noteq> 0x3F \<Longrightarrow>
     expect_final target sid [0x7F, sid, 0x78]
       (PositiveAck # Diagnostic target TESTER_ADDRESS (positive_response_sid sid # r) # ms) =
     (Inr (positive_response_sid sid # r), ms)"
  by (subst expect_final.simps)
    (simp add: expect_final_positive is_response_pending_def is_negative_response_def)

lemma doip_exchange_positive:
  assumes "request = Inr x" and "quiet s" and "dl_fates s (dl_clock s) = Delivered"
    and "doip_handle (now_env s) x (dl_ecu s) = (e, evs)"
    and "de_logical_address e = de_logical_address (dl_ecu s)"
    and "gateway_messages e evs = gateway_messages e [Respond (positive_response_sid sid # r)] \<or>
         gateway_messages e evs =
           gateway_messages e [response_pending sid, Respond (positive_response_sid sid # r)]"
    and "sid \<noteq> 0x3F"
  shows "doip_exchange sid request s = (Inr (positive_response_sid sid # r), after_exchange s e evs)"
proof -
  have e: "de_logical_address e = dl_target_address s"
    using assms(2,5) by (simp add: quiet_def)
  have send: "send_diagnostic request s =
      (Inr (), (after_exchange s e evs)\<lparr>dl_inbox := gateway_messages e evs\<rparr>)"
    using assms(1-4) by (simp add: send_diagnostic_def after_exchange_def quiet_def now_env_def Let_def)
  from assms(6) show ?thesis
    by (elim disjE)
      (simp_all add: doip_exchange_def send receive_raw_diagnostic_def on_inbox_def e
        doip_expect_positive_def expect_final_positive expect_final_pending assms(7) after_exchange_def)
qed

section \<open>The gateway during a flashing session\<close>

definition doip_live :: "doip_env \<Rightarrow> doip_ecu \<Rightarrow> bool" where
  "doip_live env e \<longleftrightarrow>
     de_current_session e = DEFAULT_SESSION_PROGRAMMING \<and>
     dn_now env - de_session_started_at e \<le> DOIP_SESSION_TIMEOUT"

lemma doip_live_require:
  "doip_live env e \<Longrightarrow> doip_require_programming_session env sid service e = service (doip_touch_session env e)"
  by (simp add: doip_require_programming_session_def doip_expire_session_if_needed_def doip_live_def Let_def)

lemma from_be_be_bytes_2 [simp]: "from_be (be_bytes 2 n) = n mod 65536"
  by (simp add: from_be_be_bytes_mod)

lemma gateway_open:
  "doip_handle env [0x10, 0x02] e =
     (doip_touch_session env (doip_reset_programming_state (e\<lparr>de_current_session := 0x02\<rparr>)),
      [Respond [positive_response_sid 0x10, 0x02]])"
  by (simp add: doip_handle_def handle_raw_uds_message_def doip_session_control_def doip_reply_def Let_def)

lemma gateway_keep:
  assumes "doip_live env e"
  shows "doip_handle env [0x3E, 0x00] e =
     (doip_touch_session env e, [Respond [positive_response_sid 0x3E, 0x00]])"
  using assms
  by (simp add: doip_handle_def handle_raw_uds_message_def doip_tester_present_def doip_reply_def
      doip_live_def doip_expire_session_if_needed_def Let_def)

lemma gateway_seed:
  assumes "doip_live env e" and "\<not> dn_now env < de_security_locked_until e"
  shows "doip_handle env [0x27, 0x01] e =
     (let (q, seed) = doip_generate_seed (doip_touch_session env e)
      in (q\<lparr>de_pending_seed := seed, de_security_unlocked := False\<rparr>,
          [Respond ([positive_response_sid 0x27, 0x01] @ seed)]))"
  using assms doip_live_require [OF assms(1)]
  by (simp add: doip_handle_def handle_raw_uds_message_def doip_security_access_def
      doip_request_seed_def doip_touch_session_def doip_reply_def Let_def split_beta)

lemma gateway_key:
  assumes "doip_live env e" and "de_pending_seed e \<noteq> []"
    and "derive_security_key (dn_security env) (de_pending_seed e) = Inr key"
  shows "doip_handle env ([0x27, 0x02] @ key) e =
     ((doip_touch_session env e)
        \<lparr>de_security_unlocked := True, de_security_failures := 0, de_pending_seed := []\<rparr>,
      [Respond [positive_response_sid 0x27, 0x02]])"
  using assms doip_live_require [OF assms(1)]
  by (simp add: doip_handle_def handle_raw_uds_message_def doip_security_access_def
      doip_send_key_def doip_touch_session_def doip_reply_def Let_def)

lemma gateway_routine:
  assumes "doip_live env e" and "de_security_unlocked e"
  shows "doip_handle env ([0x31, 0x01] @ be_bytes 2 n @ d) e =
     (let q = doip_touch_session env e; routine_id = n mod 65536;
          request = [0x31, 0x01] @ be_bytes 2 n @ d in
      if routine_id = ROUTINE_ERASE_MEMORY then doip_routine_reply request (doip_erase_memory d q)
      else if routine_id = ROUTINE_VERIFY_IMAGE then
        (if \<not> de_install_pending q then doip_negative 0x31 0x72 q else doip_routine_reply request q)
      else if routine_id = ROUTINE_ACTIVATE_IMAGE then
        (if \<not> de_install_pending q then doip_negative 0x31 0x72 q
         else doip_routine_reply request (q\<lparr>de_activation_marked := True\<rparr>))
      else doip_negative 0x31 0x31 q)"
  using assms doip_live_require [OF assms(1)]
  by (simp add: doip_handle_def handle_raw_uds_message_def doip_routine_control_def
      doip_touch_session_def Let_def)

lemma doip_routine_reply_eq:
  "doip_routine_reply ([0x31, 0x01] @ be_bytes 2 n @ d) e =
     (e, [response_pending 0x31, Respond ([positive_response_sid 0x31, 0x01] @ be_bytes 2 n)])"
  by (simp add: doip_routine_reply_def)

lemma gateway_download:
  assumes "doip_live env e" and "de_security_unlocked e" and "de_erase_completed e" and "n < 256 ^ 4"
  shows "doip_handle env ([0x34, 0x00, 0x44] @ be_bytes 4 a @ be_bytes 4 n) e =
     ((doip_touch_session env e)\<lparr>de_receiver := receiver_clear (de_receiver e),
         de_expected_download_size := n, de_download_received_size := 0,
         de_download_verified := False, de_install_pending := False, de_install_started := False,
         de_target_version := JText (de_profile_version e), de_expected_transfer_sequence := 1\<rparr>,
      [Respond ([positive_response_sid 0x34, 0x00, 0x44] @
         be_bytes 2 (GATEWAY_REQUEST_DOWNLOAD_BLOCK_LENGTH env))])"
  using assms doip_live_require [OF assms(1)]
  by (simp add: doip_handle_def handle_raw_uds_message_def doip_request_download_def
      from_be_be_bytes doip_touch_session_def doip_reply_def Let_def)

lemma gateway_transfer:
  assumes "doip_live env e" and "de_security_unlocked e"
    and "de_expected_transfer_sequence e = q" and "q < 256" and "c \<noteq> []"
    and "de_download_received_size e + length c \<le> de_expected_download_size e"
  shows "doip_handle env ([0x36, word_of_nat q] @ c) e =
     ((doip_touch_session env e)
        \<lparr>de_receiver := (de_receiver e)\<lparr>rcv_buffer := rcv_buffer (de_receiver e) @ c,
           rcv_chunk_count := rcv_chunk_count (de_receiver e) + 1\<rparr>,
         de_download_received_size := de_download_received_size e + length c,
         de_expected_transfer_sequence := (q + 1) mod 256\<rparr>,
      [Respond [positive_response_sid 0x36, word_of_nat q]])"
  using assms doip_live_require [OF assms(1)]
  by (simp add: doip_handle_def handle_raw_uds_message_def doip_transfer_data_def
      doip_touch_session_def doip_reply_def Let_def)

lemma gateway_transfer_again:
  assumes "doip_live env e" and "de_security_unlocked e"
    and "de_expected_transfer_sequence e = (q + 1) mod 256" and "q < 256"
  shows "doip_handle env ([0x36, word_of_nat q] @ c) e =
     (doip_touch_session env e, [Respond [0x7F, 0x36, 0x73]])"
proof -
  have "q \<noteq> (q + 1) mod 256"
  proof (cases "q + 1 < 256")
    case False
    then have "q + 1 = 256" using assms(4) by simp
    then show ?thesis by simp
  qed simp
  then show ?thesis
    using assms doip_live_require [OF assms(1)]
    by (simp add: doip_handle_def handle_raw_uds_message_def doip_transfer_data_def
        doip_touch_session_def doip_negative_def doip_reply_def Let_def)
qed

lemma gateway_exit:
  assumes "doip_live env e" and "de_security_unlocked e"
    and "de_download_received_size e = de_expected_download_size e"
    and "dn_original env = Some (firmware_data (de_receiver e))"
  shows "doip_handle env [0x37] e =
     ((doip_touch_session env e)\<lparr>de_receiver := receiver_save (de_receiver e),
         de_download_verified := True, de_install_pending := True, de_install_started := False\<rparr>,
      [response_pending 0x37, Respond [positive_response_sid 0x37]])"
  using assms doip_live_require [OF assms(1)]
  by (simp add: doip_handle_def handle_raw_uds_message_def doip_transfer_exit_def receiver_verify_def
      receiver_sha256_def receiver_save_def doip_touch_session_def Let_def)

lemma gateway_reset:
  assumes "doip_live env e" and "de_install_pending e" and "de_activation_marked e"
    and "\<not> de_install_started e"
  shows "doip_handle env [0x11, 0x01] e =
     (doip_reset_programming_state
        ((doip_touch_session env e)\<lparr>de_install_started := True, de_current_session := 0x00\<rparr>),
      [Respond [positive_response_sid 0x11, 0x01], StartInstall])"
  using assms doip_live_require [OF assms(1)]
  by (simp add: doip_handle_def handle_raw_uds_message_def doip_ecu_reset_def
      doip_touch_session_def Let_def)

section \<open>The DoIP transport as a flash target\<close>

text \<open>
  The conditions of a flashing session: both sides derive the same keys, successive requests are
  at most the session timeout apart, no lockout is running, the gateway announces blocks of \<open>n\<close>
  bytes and, for \<open>doip_bench\<close>, every exchange is answered in time.
\<close>

definition doip_conditions :: "nat \<Rightarrow> doip_link \<Rightarrow> bool" where
  "doip_conditions n s \<longleftrightarrow>
     n < 65536 \<and> uds_library_conforms (dl_library s) \<and>
     (\<forall>seed. \<exists>key. derive_security_key (dl_tester_security s) seed = Inr key) \<and>
     (\<forall>k. dn_security (dl_envs s k) = dl_tester_security s \<and>
        dn_now (dl_envs s (Suc k)) - dn_now (dl_envs s k) \<le> DOIP_SESSION_TIMEOUT \<and>
        de_security_locked_until (dl_ecu s) \<le> dn_now (dl_envs s k) \<and>
        GATEWAY_REQUEST_DOWNLOAD_BLOCK_LENGTH (dl_envs s k) = n)"

definition doip_bench :: "nat \<Rightarrow> doip_link \<Rightarrow> bool" where
  "doip_bench n s \<longleftrightarrow>
     doip_conditions n s \<and> quiet s \<and> 0 < n \<and> (\<forall>k. dl_fates s k = Delivered)"

definition doip_acceptable :: "doip_link \<Rightarrow> bytes \<Rightarrow> bool" where
  "doip_acceptable s d \<longleftrightarrow> (\<forall>k. dn_original (dl_envs s k) = Some d)"

definition doip_opened :: "nat \<Rightarrow> doip_link \<Rightarrow> bool" where
  "doip_opened n s \<longleftrightarrow> doip_bench n s \<and> doip_live (now_env s) (dl_ecu s)"

definition doip_seeded :: "nat \<Rightarrow> bytes \<Rightarrow> doip_link \<Rightarrow> bool" where
  "doip_seeded n seed s \<longleftrightarrow>
     doip_opened n s \<and> de_pending_seed (dl_ecu s) = seed \<and> length seed = 4"

definition doip_unlocked :: "nat \<Rightarrow> doip_link \<Rightarrow> bool" where
  "doip_unlocked n s \<longleftrightarrow> doip_opened n s \<and> de_security_unlocked (dl_ecu s)"

definition doip_erased :: "nat \<Rightarrow> doip_link \<Rightarrow> bool" where
  "doip_erased n s \<longleftrightarrow> doip_unlocked n s \<and> de_erase_completed (dl_ecu s)"

definition doip_transferring :: "nat \<Rightarrow> nat \<Rightarrow> bytes \<Rightarrow> doip_ecu \<Rightarrow> bool" where
  "doip_transferring amount q d e \<longleftrightarrow>
     de_security_unlocked e \<and> de_expected_download_size e = amount \<and>
     de_download_received_size e = length d \<and> rcv_buffer (de_receiver e) = d \<and>
     rcv_expected_size (de_receiver e) = None \<and> de_expected_transfer_sequence e = q \<and> q < 256"

definition doip_loading :: "nat \<Rightarrow> nat \<Rightarrow> nat \<Rightarrow> bytes \<Rightarrow> doip_link \<Rightarrow> bool" where
  "doip_loading n amount q d s \<longleftrightarrow>
     doip_opened n s \<and> doip_transferring amount q d (dl_ecu s) \<and> dl_max_transfer_payload s = n"

definition doip_received :: "nat \<Rightarrow> bytes \<Rightarrow> doip_link \<Rightarrow> bool" where
  "doip_received n d s \<longleftrightarrow>
     (let e = dl_ecu s in
      doip_unlocked n s \<and> de_install_pending e \<and> \<not> de_install_started e \<and>
      saved_file (de_receiver e) = Some d)"

definition doip_activated :: "nat \<Rightarrow> bytes \<Rightarrow> doip_link \<Rightarrow> bool" where
  "doip_activated n d s \<longleftrightarrow> doip_received n d s \<and> de_activation_marked (dl_ecu s)"

definition doip_installing :: "bytes \<Rightarrow> doip_link \<Rightarrow> bool" where
  "doip_installing d s \<longleftrightarrow> dl_installs s \<noteq> [] \<and> last (dl_installs s) = Some d"

lemma doip_conditions_next:
  assumes "doip_conditions n s"
    and "de_security_locked_until e = de_security_locked_until (dl_ecu s)"
  shows "doip_conditions n (after_exchange s e evs)"
  using assms by (simp add: doip_conditions_def)

lemma doip_opened_next:
  assumes "doip_bench n s" and "de_current_session e = DEFAULT_SESSION_PROGRAMMING"
    and "de_session_started_at e = dn_now (now_env s)"
    and "de_security_locked_until e = de_security_locked_until (dl_ecu s)"
    and "de_logical_address e = de_logical_address (dl_ecu s)"
  shows "doip_opened n (after_exchange s e evs)"
  using assms
  by (simp add: doip_opened_def doip_bench_def doip_conditions_def quiet_def doip_live_def now_env_def)

lemma doip_benchD:
  assumes "doip_bench n s"
  shows "quiet s" and "dl_fates s (dl_clock s) = Delivered" and "uds_library_conforms (dl_library s)"
    and "dn_security (now_env s) = dl_tester_security s"
    and "\<not> dn_now (now_env s) < de_security_locked_until (dl_ecu s)"
    and "GATEWAY_REQUEST_DOWNLOAD_BLOCK_LENGTH (now_env s) = n" and "n < 65536" and "0 < n"
  using assms by (auto simp: doip_bench_def doip_conditions_def now_env_def not_less)

lemma doip_openedD:
  assumes "doip_opened n s"
  shows "doip_bench n s" and "doip_live (now_env s) (dl_ecu s)"
  using assms by (simp_all add: doip_opened_def)

lemma doip_acceptable_next [simp]: "doip_acceptable (after_exchange s e evs) = doip_acceptable s"
  by (simp add: doip_acceptable_def fun_eq_iff)

lemma doip_open_step:
  assumes "doip_bench n s"
  shows "\<exists>s'. doip_diagnostic_session_control s = (Inr True, s') \<and> doip_opened n s' \<and>
    doip_acceptable s' = doip_acceptable s"
proof -
  note b = doip_benchD [OF assms]
  let ?e = "doip_touch_session (now_env s)
    (doip_reset_programming_state ((dl_ecu s)\<lparr>de_current_session := 0x02\<rparr>))"
  let ?evs = "[Respond [positive_response_sid 0x10, 0x02]]"
  have "doip_exchange SID_DIAGNOSTIC_SESSION_CONTROL (build_diagnostic_session_control (dl_library s) 0x02) s =
      (Inr [positive_response_sid 0x10, 0x02], after_exchange s ?e ?evs)"
    by (rule doip_exchange_positive [OF build_requests(1) [OF b(3)] b(1,2) gateway_open])
      (simp_all add: doip_touch_session_def doip_reset_programming_state_def)
  moreover have "doip_opened n (after_exchange s ?e ?evs)"
    using assms by (intro doip_opened_next) (simp_all add: doip_touch_session_def doip_reset_programming_state_def)
  ultimately show ?thesis by (simp add: doip_diagnostic_session_control_def)
qed

lemma doip_keep_step:
  assumes "doip_opened n s"
  shows "\<exists>s' b. doip_client_tester_present s = (Inr b, s') \<and> doip_opened n s' \<and>
    doip_acceptable s' = doip_acceptable s"
proof -
  note o = doip_openedD [OF assms] and b = doip_benchD [OF doip_openedD(1) [OF assms]]
  let ?e = "doip_touch_session (now_env s) (dl_ecu s)"
  let ?evs = "[Respond [positive_response_sid 0x3E, 0x00]]"
  have request: "build_tester_present (dl_library s) False = Inr [0x3E, 0x00]"
    using build_requests(2) [OF b(3), of False] by simp
  have "doip_exchange SID_TESTER_PRESENT (build_tester_present (dl_library s) False) s =
      (Inr [positive_response_sid 0x3E, 0x00], after_exchange s ?e ?evs)"
    by (rule doip_exchange_positive [OF request b(1,2) gateway_keep [OF o(2)]])
      (simp_all add: doip_touch_session_def)
  moreover have "doip_opened n (after_exchange s ?e ?evs)"
    using o by (intro doip_opened_next) (simp_all add: doip_touch_session_def doip_live_def)
  ultimately show ?thesis by (auto simp: doip_client_tester_present_def)
qed

lemma doip_generate_seed_facts:
  assumes "doip_generate_seed e = (e', seed)"
  shows "length seed = 4" and "de_current_session e' = de_current_session e"
    and "de_session_started_at e' = de_session_started_at e"
    and "de_security_locked_until e' = de_security_locked_until e"
    and "de_logical_address e' = de_logical_address e"
  using assms by (auto simp: doip_generate_seed_def Let_def)

lemma doip_seed_step:
  assumes "doip_opened n s"
  shows "\<exists>s' seed. doip_client_request_seed s = (Inr seed, s') \<and> seed \<noteq> [] \<and> doip_seeded n seed s' \<and>
    doip_acceptable s' = doip_acceptable s"
proof -
  note o = doip_openedD [OF assms] and b = doip_benchD [OF doip_openedD(1) [OF assms]]
  obtain e seed where g: "doip_generate_seed (doip_touch_session (now_env s) (dl_ecu s)) = (e, seed)"
    by fastforce
  note facts = doip_generate_seed_facts [OF g]
  let ?e = "e\<lparr>de_pending_seed := seed, de_security_unlocked := False\<rparr>"
  let ?evs = "[Respond ([positive_response_sid 0x27, 0x01] @ seed)]"
  have h: "doip_handle (now_env s) [0x27, 0x01] (dl_ecu s) = (?e, ?evs)"
    using gateway_seed [OF o(2) b(5)] g by simp
  have "doip_exchange SID_SECURITY_ACCESS (build_security_access_request_seed (dl_library s) 0x01) s =
      (Inr (positive_response_sid 0x27 # 0x01 # seed), after_exchange s ?e ?evs)"
    by (rule doip_exchange_positive [OF build_requests(4) [OF b(3)] b(1,2) h])
      (simp_all add: facts doip_touch_session_def)
  moreover have "doip_opened n (after_exchange s ?e ?evs)"
    using o facts by (intro doip_opened_next) (simp_all add: doip_touch_session_def doip_live_def)
  moreover have "seed \<noteq> []" using facts(1) by auto
  ultimately show ?thesis
    using facts(1) by (simp add: doip_client_request_seed_def doip_seeded_def)
qed

lemma doip_key_step:
  assumes "doip_seeded n seed s"
  shows "\<exists>s'. doip_client_send_key seed s = (Inr True, s') \<and> doip_unlocked n s' \<and>
    doip_acceptable s' = doip_acceptable s"
proof -
  have opened: "doip_opened n s" and seed: "de_pending_seed (dl_ecu s) = seed" "length seed = 4"
    using assms by (simp_all add: doip_seeded_def)
  note o = doip_openedD [OF opened] and b = doip_benchD [OF doip_openedD(1) [OF opened]]
  obtain key where key: "derive_security_key (dl_tester_security s) seed = Inr key"
    using o(1) unfolding doip_bench_def doip_conditions_def by blast
  let ?e = "(doip_touch_session (now_env s) (dl_ecu s))
      \<lparr>de_security_unlocked := True, de_security_failures := 0, de_pending_seed := []\<rparr>"
  let ?evs = "[Respond [positive_response_sid 0x27, 0x02]]"
  have h: "doip_handle (now_env s) ([0x27, 0x02] @ key) (dl_ecu s) = (?e, ?evs)"
    using seed key b(4) by (intro gateway_key [OF o(2)]) auto
  have "doip_exchange SID_SECURITY_ACCESS
      (bindE (derive_security_key (dl_tester_security s) seed)
         (build_security_access_send_key (dl_library s) 0x02)) s =
      (Inr [positive_response_sid 0x27, 0x02], after_exchange s ?e ?evs)"
    by (rule doip_exchange_positive [OF _ b(1,2) h])
      (simp_all add: key build_requests(5) [OF b(3)] doip_touch_session_def)
  moreover have "doip_opened n (after_exchange s ?e ?evs)"
    using o by (intro doip_opened_next) (simp_all add: doip_touch_session_def doip_live_def)
  ultimately show ?thesis by (simp add: doip_client_send_key_def doip_unlocked_def)
qed

lemma doip_unlockedD:
  assumes "doip_unlocked n s"
  shows "doip_bench n s" and "doip_live (now_env s) (dl_ecu s)" and "de_security_unlocked (dl_ecu s)"
  using assms by (simp_all add: doip_unlocked_def doip_opened_def)

lemma doip_routine_exchange:
  assumes "doip_unlocked n s" and "request = Inr ([0x31, 0x01] @ be_bytes 2 routine @ d)"
    and "doip_handle (now_env s) ([0x31, 0x01] @ be_bytes 2 routine @ d) (dl_ecu s) =
           doip_routine_reply ([0x31, 0x01] @ be_bytes 2 routine @ d) e"
    and "de_logical_address e = de_logical_address (dl_ecu s)"
  shows "bindS (doip_exchange SID_ROUTINE_CONTROL request) (\<lambda>_. returnS True) s =
           (Inr True, after_exchange s e [response_pending 0x31,
              Respond ([positive_response_sid 0x31, 0x01] @ be_bytes 2 routine)])"
proof -
  note b = doip_benchD [OF doip_unlockedD(1) [OF assms(1)]]
  let ?evs = "[response_pending 0x31, Respond ([positive_response_sid 0x31, 0x01] @ be_bytes 2 routine)]"
  have h: "doip_handle (now_env s) ([0x31, 0x01] @ be_bytes 2 routine @ d) (dl_ecu s) = (e, ?evs)"
    using assms(3) doip_routine_reply_eq by simp
  have "doip_exchange SID_ROUTINE_CONTROL request s =
      (Inr (positive_response_sid 0x31 # 0x01 # be_bytes 2 routine), after_exchange s e ?evs)"
    by (rule doip_exchange_positive [OF assms(2) b(1,2) h assms(4)]) simp_all
  then show ?thesis by simp
qed

lemma doip_erase_step:
  assumes "doip_unlocked n s" and "k < 256 ^ 4"
  shows "\<exists>s'. doip_client_erase_memory k s = (Inr True, s') \<and> doip_erased n s' \<and>
    doip_acceptable s' = doip_acceptable s"
proof -
  note u = doip_unlockedD [OF assms(1)] and b = doip_benchD [OF doip_unlockedD(1) [OF assms(1)]]
  let ?e = "doip_erase_memory (be_bytes 4 k) (doip_touch_session (now_env s) (dl_ecu s))"
  have "doip_client_erase_memory k s = (Inr True, after_exchange s ?e [response_pending 0x31,
      Respond ([positive_response_sid 0x31, 0x01] @ be_bytes 2 0xFF00)])"
    unfolding doip_client_erase_memory_def
    using assms(2) build_requests(6) [OF b(3)]
    by (intro doip_routine_exchange [OF assms(1), where d = "be_bytes 4 k"])
      (simp_all add: to_bytes_def gateway_routine [OF u(2,3)] doip_erase_memory_def
        doip_touch_session_def del: append_Cons)
  moreover have "doip_erased n (after_exchange s ?e evs)" for evs
    using u doip_opened_next [OF u(1), of ?e evs]
    by (simp add: doip_erased_def doip_unlocked_def doip_erase_memory_def doip_touch_session_def
        doip_live_def)
  ultimately show ?thesis by simp
qed

lemma block_length_roundtrip:
  "n < 65536 \<Longrightarrow> 0 < n \<Longrightarrow>
     parse_request_download_max_block_length ([positive_response_sid 0x34, 0x00, 0x44] @ be_bytes 2 n) =
       Some n"
  by (simp add: parse_request_download_max_block_length_def Let_def)

lemma doip_download_step:
  assumes "doip_erased n s" and "k < 256 ^ 4"
  shows "\<exists>s'. doip_client_request_download k s = (Inr True, s') \<and> doip_loading n k 1 [] s' \<and>
    doip_acceptable s' = doip_acceptable s"
proof -
  have "doip_unlocked n s" and e: "de_erase_completed (dl_ecu s)"
    using assms(1) by (simp_all add: doip_erased_def)
  note u = doip_unlockedD [OF this(1)] and b = doip_benchD [OF doip_unlockedD(1) [OF this(1)]]
  have n: "n \<le> 16384" using b(6) by (simp add: GATEWAY_REQUEST_DOWNLOAD_BLOCK_LENGTH_def)
  let ?e = "(doip_touch_session (now_env s) (dl_ecu s))
      \<lparr>de_receiver := receiver_clear (de_receiver (dl_ecu s)), de_expected_download_size := k,
       de_download_received_size := 0, de_download_verified := False, de_install_pending := False,
       de_install_started := False,
       de_target_version := JText (de_profile_version (dl_ecu s)), de_expected_transfer_sequence := 1\<rparr>"
  let ?r = "[positive_response_sid 0x34, 0x00, 0x44] @ be_bytes 2 n"
  note h = gateway_download [OF u(2,3) e assms(2), of 0, unfolded b(6)]
  have request: "build_request_download (dl_library s) k 0 =
      Inr ([0x34, 0x00, 0x44] @ be_bytes 4 0 @ be_bytes 4 k)"
    using build_requests(7) [OF b(3), of k 0] assms(2) by simp
  have "doip_exchange SID_REQUEST_DOWNLOAD (build_request_download (dl_library s) k 0) s =
      (Inr (positive_response_sid 0x34 # 0x00 # 0x44 # be_bytes 2 n), after_exchange s ?e [Respond ?r])"
    by (rule doip_exchange_positive [OF request b(1,2) h]) (simp_all add: doip_touch_session_def)
  then have "doip_client_request_download k s =
      (Inr True, (after_exchange s ?e [Respond ?r])\<lparr>dl_max_transfer_payload := n\<rparr>)"
    using block_length_roundtrip [OF b(7,8)] n
    by (simp add: doip_client_request_download_def)
  moreover have "doip_loading n k 1 [] ((after_exchange s ?e evs)\<lparr>dl_max_transfer_payload := n\<rparr>)" for evs
    using u doip_opened_next [OF u(1), of ?e evs]
    by (simp add: doip_loading_def doip_transferring_def doip_touch_session_def doip_live_def
        receiver_clear_def doip_opened_def doip_bench_def doip_conditions_def quiet_def now_env_def)
  moreover have "doip_acceptable ((after_exchange s ?e evs)\<lparr>dl_max_transfer_payload := n\<rparr>) =
      doip_acceptable s" for evs
    by (simp add: doip_acceptable_def fun_eq_iff)
  ultimately show ?thesis by auto
qed

text \<open>A block that is answered in time.\<close>

lemma word_of_nat_byte_and [simp]: "(word_of_nat q :: byte) AND 0xFF = word_of_nat q"
  by simp

lemma transfer_attempt_answered:
  assumes "request = Inr x" and "quiet s" and "dl_fates s (dl_clock s) = Delivered"
    and "doip_handle (now_env s) x (dl_ecu s) = (e, [Respond [positive_response_sid 0x36, word_of_nat q]])"
    and "de_logical_address e = de_logical_address (dl_ecu s)"
  shows "transfer_attempts (attempt # attempts) q request s =
           (Inr True, after_exchange s e [Respond [positive_response_sid 0x36, word_of_nat q]])"
proof -
  have "send_diagnostic request s = (Inr (),
      (after_exchange s e [Respond [positive_response_sid 0x36, word_of_nat q]])
        \<lparr>dl_inbox := [PositiveAck, Diagnostic (dl_target_address s) TESTER_ADDRESS
           [positive_response_sid 0x36, word_of_nat q]]\<rparr>)"
    using assms
    by (simp add: send_diagnostic_def after_exchange_def quiet_def now_env_def Let_def)
  then show ?thesis
    using expect_final_positive [of "0x36" "dl_target_address s" "[word_of_nat q]" "[]"]
    by (simp add: transfer_attempts.simps(2) receive_raw_diagnostic_def on_inbox_def
        doip_expect_positive_def is_negative_response_def after_exchange_def positive_response_sid_def)
qed

definition stored_block :: "doip_env \<Rightarrow> bytes \<Rightarrow> doip_ecu \<Rightarrow> doip_ecu" where
  "stored_block env c e =
     (doip_touch_session env e)
        \<lparr>de_receiver := (de_receiver e)\<lparr>rcv_buffer := rcv_buffer (de_receiver e) @ c,
           rcv_chunk_count := rcv_chunk_count (de_receiver e) + 1\<rparr>,
         de_download_received_size := de_download_received_size e + length c,
         de_expected_transfer_sequence := (de_expected_transfer_sequence e + 1) mod 256\<rparr>"

lemma gateway_stores:
  assumes "doip_live env e" and "doip_transferring amount q d e" and "c \<noteq> []"
    and "length d + length c \<le> amount"
  shows "doip_handle env ([0x36, word_of_nat q] @ c) e =
     (stored_block env c e, [Respond [positive_response_sid 0x36, word_of_nat q]])"
  using gateway_transfer [OF assms(1), of q c] assms(2-4)
  by (simp add: doip_transferring_def stored_block_def)

lemma stored_block_simps [simp]:
  "de_logical_address (stored_block env c e) = de_logical_address e"
  "de_current_session (stored_block env c e) = de_current_session e"
  "de_session_started_at (stored_block env c e) = dn_now env"
  "de_security_locked_until (stored_block env c e) = de_security_locked_until e"
  "doip_transferring amount q d e \<Longrightarrow>
     doip_transferring amount (Suc q mod 256) (d @ c) (stored_block env c e)"
  by (auto simp: stored_block_def doip_touch_session_def doip_transferring_def)

lemma attempts_eq: "[1..<TRANSFER_RETRY_LIMIT + 1] = [1, 2]"
  by (simp add: upt_rec)

lemma doip_transfer_request:
  assumes "uds_library_conforms lib" and "q < 256"
  shows "build_transfer_data lib q c = Inr ([0x36, word_of_nat q] @ c)"
  using build_requests(8) [OF assms(1), of q c] assms(2) by simp

lemma doip_transfer_step:
  assumes "doip_loading n amount q d s" and "c \<noteq> []" and "length d + length c \<le> amount"
  shows "\<exists>s' b. doip_client_transfer_data q c s = (Inr b, s') \<and>
    doip_loading n amount ((q + 1) mod 256) (d @ c) s' \<and> doip_acceptable s' = doip_acceptable s"
proof -
  have l: "doip_opened n s" "doip_transferring amount q d (dl_ecu s)" "dl_max_transfer_payload s = n"
    "q < 256"
    using assms(1) by (simp_all add: doip_loading_def doip_transferring_def)
  note o = doip_openedD [OF l(1)] and b = doip_benchD [OF doip_openedD(1) [OF l(1)]]
  let ?e = "stored_block (now_env s) c (dl_ecu s)"
  let ?evs = "[Respond [positive_response_sid 0x36, word_of_nat q]]"
  have "doip_client_transfer_data q c s = (Inr True, after_exchange s ?e ?evs)"
    unfolding doip_client_transfer_data_def attempts_eq
    by (rule transfer_attempt_answered [OF doip_transfer_request [OF b(3) l(4)] b(1,2)
        gateway_stores [OF o(2) l(2) assms(2,3)]]) simp
  moreover have "doip_loading n amount ((q + 1) mod 256) (d @ c) (after_exchange s ?e ?evs)"
    using doip_opened_next [OF o(1), of ?e ?evs] o(2) l(2,3)
    by (simp add: doip_loading_def doip_live_def)
  ultimately show ?thesis by (intro exI conjI) (assumption, simp_all)
qed

lemma doip_exit_step:
  assumes "doip_loading n amount q d s" and "length d = amount" and "doip_acceptable s d"
  shows "\<exists>s'. doip_client_transfer_exit s = (Inr True, s') \<and> doip_received n d s'"
proof -
  have opened: "doip_opened n s" and t: "doip_transferring amount q d (dl_ecu s)"
    using assms(1) by (simp_all add: doip_loading_def)
  note o = doip_openedD [OF opened] and b = doip_benchD [OF doip_openedD(1) [OF opened]]
  have x: "de_security_unlocked (dl_ecu s)"
    "de_download_received_size (dl_ecu s) = de_expected_download_size (dl_ecu s)"
    "firmware_data (de_receiver (dl_ecu s)) = d"
    using t assms(2) by (simp_all add: doip_transferring_def firmware_data_def)
  have "dn_original (now_env s) = Some (firmware_data (de_receiver (dl_ecu s)))"
    using assms(3) x(3) by (simp add: doip_acceptable_def now_env_def)
  note h = gateway_exit [OF o(2) x(1,2) this]
  let ?e = "(doip_touch_session (now_env s) (dl_ecu s))\<lparr>de_receiver := receiver_save (de_receiver (dl_ecu s)),
         de_download_verified := True, de_install_pending := True, de_install_started := False\<rparr>"
  have "doip_exchange SID_REQUEST_TRANSFER_EXIT (build_request_transfer_exit (dl_library s)) s =
      (Inr [positive_response_sid 0x37],
       after_exchange s ?e [response_pending 0x37, Respond [positive_response_sid 0x37]])"
    by (rule doip_exchange_positive [OF build_requests(9) [OF b(3)] b(1,2) h])
      (simp_all add: doip_touch_session_def)
  moreover have "doip_received n d (after_exchange s ?e evs)" for evs
    using doip_opened_next [OF o(1), of ?e evs] o(2) x
    by (simp add: doip_received_def doip_unlocked_def doip_touch_session_def doip_live_def
        receiver_save_def Let_def)
  ultimately show ?thesis by (simp add: doip_client_transfer_exit_def)
qed

lemma doip_verify_step:
  assumes "doip_received n d s"
  shows "\<exists>s'. doip_client_verify_programming s = (Inr True, s') \<and> doip_received n d s'"
proof -
  have l: "doip_unlocked n s" "de_install_pending (dl_ecu s)"
    using assms by (simp_all add: doip_received_def Let_def)
  note u = doip_unlockedD [OF l(1)] and b = doip_benchD [OF doip_unlockedD(1) [OF l(1)]]
  let ?e = "doip_touch_session (now_env s) (dl_ecu s)"
  have "doip_client_verify_programming s = (Inr True, after_exchange s ?e [response_pending 0x31,
      Respond ([positive_response_sid 0x31, 0x01] @ be_bytes 2 0xFF01)])"
    unfolding doip_client_verify_programming_def
    using l(2) build_requests(6) [OF b(3), of "0xFF01" "[]"] gateway_routine [OF u(2,3), of "0xFF01" "[]"]
    by (intro doip_routine_exchange [OF l(1), where d = "[]"]) (simp_all add: doip_touch_session_def)
  moreover have "doip_received n d (after_exchange s ?e evs)" for evs
    using assms u doip_opened_next [OF u(1), of ?e evs]
    by (simp add: doip_received_def doip_unlocked_def doip_touch_session_def doip_live_def Let_def)
  ultimately show ?thesis by simp
qed

lemma doip_activate_step:
  assumes "doip_received n d s"
  shows "\<exists>s'. doip_client_activate_image s = (Inr True, s') \<and> doip_activated n d s'"
proof -
  have l: "doip_unlocked n s" "de_install_pending (dl_ecu s)"
    using assms by (simp_all add: doip_received_def Let_def)
  note u = doip_unlockedD [OF l(1)] and b = doip_benchD [OF doip_unlockedD(1) [OF l(1)]]
  let ?e = "(doip_touch_session (now_env s) (dl_ecu s))\<lparr>de_activation_marked := True\<rparr>"
  have "doip_client_activate_image s = (Inr True, after_exchange s ?e [response_pending 0x31,
      Respond ([positive_response_sid 0x31, 0x01] @ be_bytes 2 0xFF02)])"
    unfolding doip_client_activate_image_def
    using l(2) build_requests(6) [OF b(3), of "0xFF02" "[]"] gateway_routine [OF u(2,3), of "0xFF02" "[]"]
    by (intro doip_routine_exchange [OF l(1), where d = "[]"]) (simp_all add: doip_touch_session_def)
  moreover have "doip_activated n d (after_exchange s ?e evs)" for evs
    using assms u doip_opened_next [OF u(1), of ?e evs]
    by (simp add: doip_activated_def doip_received_def doip_unlocked_def doip_touch_session_def
        doip_live_def Let_def)
  ultimately show ?thesis by simp
qed

lemma doip_reset_step:
  assumes "doip_activated n d s"
  shows "\<exists>s'. doip_client_ecu_reset s = (Inr True, s') \<and> doip_installing d s'"
proof -
  have l: "doip_unlocked n s" "de_install_pending (dl_ecu s)" "de_activation_marked (dl_ecu s)"
    "\<not> de_install_started (dl_ecu s)" "saved_file (de_receiver (dl_ecu s)) = Some d"
    using assms by (simp_all add: doip_activated_def doip_received_def Let_def)
  note u = doip_unlockedD [OF l(1)] and b = doip_benchD [OF doip_unlockedD(1) [OF l(1)]]
  let ?e = "doip_reset_programming_state
      ((doip_touch_session (now_env s) (dl_ecu s))\<lparr>de_install_started := True, de_current_session := 0x00\<rparr>)"
  let ?evs = "[Respond [positive_response_sid 0x11, 0x01], StartInstall]"
  have "doip_exchange SID_ECU_RESET (build_ecu_reset (dl_library s) 0x01) s =
      (Inr [positive_response_sid 0x11, 0x01], after_exchange s ?e ?evs)"
    by (rule doip_exchange_positive [OF build_requests(10) [OF b(3)] b(1,2) gateway_reset [OF u(2) l(2-4)]])
      (simp_all add: doip_reset_programming_state_def doip_touch_session_def)
  moreover have "doip_installing d (after_exchange s ?e ?evs)"
    using l(5) by (simp add: doip_installing_def doip_reset_programming_state_def doip_touch_session_def)
  ultimately show ?thesis by (simp add: doip_client_ecu_reset_def)
qed

lemma doip_transport_simps [simp]:
  "tp_session_control (doip_transport w v) = doip_diagnostic_session_control"
  "tp_tester_present (doip_transport w v) = doip_client_tester_present"
  "tp_request_seed (doip_transport w v) = doip_client_request_seed"
  "tp_send_key (doip_transport w v) = doip_client_send_key"
  "tp_erase_memory (doip_transport w v) = doip_client_erase_memory"
  "tp_request_download (doip_transport w v) = doip_client_request_download"
  "tp_transfer_data (doip_transport w v) = doip_client_transfer_data"
  "tp_transfer_exit (doip_transport w v) = doip_client_transfer_exit"
  "tp_verify_programming (doip_transport w v) = doip_client_verify_programming"
  "tp_activate_image (doip_transport w v) = doip_client_activate_image"
  "tp_ecu_reset (doip_transport w v) = doip_client_ecu_reset"
  "chunk_size (doip_transport w v) s = dl_max_transfer_payload s"
  by (simp_all add: doip_transport_def chunk_size_def)

lemma doip_loading_block: "doip_loading n amount q d s \<Longrightarrow> dl_max_transfer_payload s = n"
  by (simp add: doip_loading_def)

interpretation doip_target: flash_target "doip_transport w v" n doip_acceptable "doip_bench n"
    "doip_opened n" "doip_seeded n" "doip_unlocked n" "doip_erased n" "doip_loading n"
    "doip_received n" "doip_activated n" doip_installing for n w v
  using doip_open_step doip_keep_step doip_seed_step doip_key_step doip_erase_step
    doip_download_step doip_transfer_step doip_exit_step doip_verify_step doip_activate_step
    doip_reset_step
    doip_loading_block
  by unfold_locales simp_all

section \<open>Properties\<close>


lemma send_transfer_lost:
  assumes "request = Inr x" and "quiet s" and "doip_handle (now_env s) x (dl_ecu s) = (e, evs)"
    and "de_logical_address e = de_logical_address (dl_ecu s)" and "gateway_installs e evs = []"
    and "dl_fates s (dl_clock s) \<in> {RequestLost, ResponseLost}"
  shows "\<exists>e'. e' \<in> {dl_ecu s, e} \<and> (dl_fates s (dl_clock s) = ResponseLost \<longrightarrow> e' = e) \<and>
     (dl_fates s (dl_clock s) = RequestLost \<longrightarrow> e' = dl_ecu s) \<and>
     quiet (after_exchange s e' []) \<and>
     transfer_attempts [1, 2] q request s = transfer_attempts [2] q request (after_exchange s e' [])"
proof -
  let ?e = "if dl_fates s (dl_clock s) = ResponseLost then e else dl_ecu s"
  have "send_diagnostic request s = (Inr (), after_exchange s ?e [])"
    using assms
    by (auto simp: send_diagnostic_def after_exchange_def quiet_def now_env_def Let_def)
  moreover have "receive_raw_diagnostic (after_exchange s ?e []) =
      (Inl (TimeoutError ''Timed out waiting for diagnostic response''), after_exchange s ?e [])"
    by (simp add: receive_raw_diagnostic_def on_inbox_def after_exchange_def)
  ultimately have "transfer_attempts [1, 2] q request s =
      transfer_attempts [2] q request (after_exchange s ?e [])"
    by (subst transfer_attempts.simps(2)) simp
  moreover have "quiet (after_exchange s ?e [])"
    using assms(2,4) by (simp add: quiet_def)
  ultimately show ?thesis using assms(6) by (intro exI [of _ ?e]) auto
qed

lemma transferring_touched [simp]:
  "doip_transferring amount q d (doip_touch_session env e) = doip_transferring amount q d e"
  "de_logical_address (doip_touch_session env e) = de_logical_address e"
  by (simp_all add: doip_transferring_def doip_touch_session_def)

lemma live_stored:
  "doip_live env (stored_block env' c e) \<longleftrightarrow>
     de_current_session e = DEFAULT_SESSION_PROGRAMMING \<and> dn_now env - dn_now env' \<le> DOIP_SESSION_TIMEOUT"
  by (simp add: doip_live_def)

text \<open>The retry after a block that was stored although its response did not arrive.\<close>

lemma retry_of_stored_block:
  assumes "request = Inr ([0x36, word_of_nat q] @ c)" and "quiet s"
    and "dl_fates s (dl_clock s) = Delivered"
    and "doip_live (now_env s) (dl_ecu s)" and "doip_transferring amount ((q + 1) mod 256) d (dl_ecu s)"
    and "q < 256"
  shows "\<exists>s'. transfer_attempts [2] q request s = (Inr True, s') \<and> quiet s' \<and>
           doip_transferring amount ((q + 1) mod 256) d (dl_ecu s')"
proof -
  let ?e = "doip_touch_session (now_env s) (dl_ecu s)"
  have h: "doip_handle (now_env s) ([0x36, word_of_nat q] @ c) (dl_ecu s) = (?e, [Respond [0x7F, 0x36, 0x73]])"
    using gateway_transfer_again [OF assms(4)] assms(5,6) by (simp add: doip_transferring_def)
  have "send_diagnostic request s = (Inr (), (after_exchange s ?e [])
      \<lparr>dl_inbox := [PositiveAck, Diagnostic (dl_target_address s) TESTER_ADDRESS [0x7F, 0x36, 0x73]]\<rparr>)"
    using assms(1-3) h
    by (simp add: send_diagnostic_def after_exchange_def quiet_def now_env_def Let_def)
  then have "transfer_attempts [2] q request s = (Inr True, after_exchange s ?e [])"
    by (subst transfer_attempts.simps(2))
      (simp add: receive_raw_diagnostic_def on_inbox_def is_negative_response_def after_exchange_def)
  moreover have "quiet (after_exchange s ?e [])"
    using assms(2) by (simp add: quiet_def)
  ultimately show ?thesis using assms(5) by (intro exI conjI) (assumption, assumption, simp)
qed

text \<open>C8: A block whose first transmission loses its request or its response is stored exactly
  once: the client's single retry ends in success and the gateway has appended the block one
  time, whichever of the two was lost.\<close>

theorem doip_block_stored_exactly_once:
  assumes "doip_conditions n s" and "quiet s" and "doip_live (now_env s) (dl_ecu s)"
    and "doip_live (dl_envs s (Suc (dl_clock s))) (dl_ecu s)"
    and "doip_transferring amount q d (dl_ecu s)" and "c \<noteq> []" and "length d + length c \<le> amount"
    and "dl_fates s (dl_clock s) \<in> {RequestLost, ResponseLost}"
    and "dl_fates s (Suc (dl_clock s)) = Delivered"
  shows "\<exists>s'. doip_client_transfer_data q c s = (Inr True, s') \<and> quiet s' \<and>
           doip_transferring amount ((q + 1) mod 256) (d @ c) (dl_ecu s')"
proof -
  have q: "q < 256" using assms(5) by (simp add: doip_transferring_def)
  have lib: "uds_library_conforms (dl_library s)" using assms(1) by (simp add: doip_conditions_def)
  note request = doip_transfer_request [OF lib q, of c]
  let ?r = "build_transfer_data (dl_library s) q c"
  let ?e = "stored_block (now_env s) c (dl_ecu s)"
  from send_transfer_lost [OF request assms(2) gateway_stores [OF assms(3,5-7)] _ _ assms(8), of q]
  obtain e' where e': "dl_fates s (dl_clock s) = ResponseLost \<longrightarrow> e' = ?e"
      "dl_fates s (dl_clock s) = RequestLost \<longrightarrow> e' = dl_ecu s"
    and quiet: "quiet (after_exchange s e' [])"
    and retry: "doip_client_transfer_data q c s = transfer_attempts [2] q ?r (after_exchange s e' [])"
    unfolding doip_client_transfer_data_def attempts_eq by auto
  let ?s = "after_exchange s e' []"
  have fate: "dl_fates ?s (dl_clock ?s) = Delivered" using assms(9) by simp
  show ?thesis
  proof (cases "dl_fates s (dl_clock s) = ResponseLost")
    case True
    have "dn_now (dl_envs s (Suc (dl_clock s))) - dn_now (dl_envs s (dl_clock s)) \<le> DOIP_SESSION_TIMEOUT"
      using assms(1) by (simp add: doip_conditions_def)
    then have "doip_live (now_env ?s) (dl_ecu ?s)"
      using True e'(1) assms(3) by (simp add: live_stored now_env_def doip_live_def)
    moreover have "doip_transferring amount ((q + 1) mod 256) (d @ c) (dl_ecu ?s)"
      using True e'(1) assms(5) by simp
    ultimately show ?thesis
      using retry_of_stored_block [OF request quiet fate _ _ q] retry by simp
  next
    case False
    then have e: "e' = dl_ecu s" using assms(8) e'(2) by auto
    have live: "doip_live (now_env ?s) (dl_ecu ?s)" using assms(4) by (simp add: e now_env_def)
    have t: "doip_transferring amount q d (dl_ecu ?s)" using assms(5) by (simp add: e)
    let ?e2 = "stored_block (now_env ?s) c (dl_ecu ?s)"
    let ?s2 = "after_exchange ?s ?e2 [Respond [positive_response_sid 0x36, word_of_nat q]]"
    have "transfer_attempts [2] q ?r ?s = (Inr True, ?s2)"
      by (rule transfer_attempt_answered [OF request quiet fate gateway_stores [OF live t assms(6,7)]]) simp
    moreover have "quiet ?s2" using assms(2) by (simp add: quiet_def e)
    moreover have "doip_transferring amount ((q + 1) mod 256) (d @ c) (dl_ecu ?s2)"
      using t by simp
    ultimately show ?thesis using retry by auto
  qed
qed

text \<open>The first transmission is answered too late and the retry takes that answer for its own: what
  is left unread is the rejection of the retry.\<close>

lemma late_response_retry:
  assumes "doip_conditions n s" and "quiet s" and "doip_live (now_env s) (dl_ecu s)"
    and "doip_transferring amount q d (dl_ecu s)" and "c \<noteq> []" and "length d + length c \<le> amount"
    and "dl_fates s (dl_clock s) = ResponseLate" and "dl_fates s (Suc (dl_clock s)) = Delivered"
  shows "doip_client_transfer_data q c s =
    (Inr True, s\<lparr>dl_clock := Suc (Suc (dl_clock s)),
       dl_ecu := doip_touch_session (dl_envs s (Suc (dl_clock s))) (stored_block (now_env s) c (dl_ecu s)),
       dl_inbox := [PositiveAck, Diagnostic (dl_target_address s) TESTER_ADDRESS [0x7F, 0x36, 0x73]],
       dl_late := []\<rparr>)"
proof -
  let ?k = "dl_clock s" and ?t = "dl_target_address s"
  let ?ok = "[PositiveAck, Diagnostic ?t TESTER_ADDRESS [positive_response_sid 0x36, word_of_nat q]]"
  let ?again = "[PositiveAck, Diagnostic ?t TESTER_ADDRESS [0x7F, 0x36, 0x73]]"
  have q: "q < 256" using assms(4) by (simp add: doip_transferring_def)
  have lib: "uds_library_conforms (dl_library s)" using assms(1) by (simp add: doip_conditions_def)
  have addr: "de_logical_address (dl_ecu s) = ?t" using assms(2) by (simp add: quiet_def)
  let ?e1 = "stored_block (dl_envs s ?k) c (dl_ecu s)"
  let ?e2 = "doip_touch_session (dl_envs s (Suc ?k)) ?e1"
  have t1: "doip_transferring amount ((q + 1) mod 256) (d @ c) ?e1" using assms(4) by simp
  have h1: "doip_handle (dl_envs s ?k) ([0x36, word_of_nat q] @ c) (dl_ecu s) =
      (?e1, [Respond [positive_response_sid 0x36, word_of_nat q]])"
    using gateway_stores [OF assms(3-6)] by (simp add: now_env_def)
  have l1: "doip_live (dl_envs s (Suc ?k)) ?e1"
    using assms(1,3) by (simp add: doip_live_def doip_conditions_def)
  have h2: "doip_handle (dl_envs s (Suc ?k)) ([0x36, word_of_nat q] @ c) ?e1 = (?e2, [Respond [0x7F, 0x36, 0x73]])"
    using gateway_transfer_again [OF l1] t1 q by (simp add: doip_transferring_def)
  define a where "a = s\<lparr>dl_clock := Suc ?k, dl_ecu := ?e1, dl_late := ?ok\<rparr>"
  define b where "b = s\<lparr>dl_clock := Suc (Suc ?k), dl_ecu := ?e2, dl_inbox := ?ok @ ?again, dl_late := []\<rparr>"
  define b' where "b' = b\<lparr>dl_inbox := ?again\<rparr>"
  have s1: "send_diagnostic (Inr ([0x36, word_of_nat q] @ c)) s = (Inr (), a)"
    using assms(2,7) h1 addr by (simp add: a_def send_diagnostic_def quiet_def Let_def)
  have r1: "receive_raw_diagnostic a = (Inl (TimeoutError ''Timed out waiting for diagnostic response''), a)"
    using assms(2) by (simp add: a_def receive_raw_diagnostic_def on_inbox_def quiet_def)
  have s2: "send_diagnostic (Inr ([0x36, word_of_nat q] @ c)) a = (Inr (), b)"
    using assms(2,8) h2 addr by (simp add: a_def b_def send_diagnostic_def quiet_def Let_def)
  have r2: "receive_raw_diagnostic b = (Inr [positive_response_sid 0x36, word_of_nat q], b')"
    by (simp add: b'_def b_def receive_raw_diagnostic_def on_inbox_def)
  have x2: "doip_expect_positive [positive_response_sid 0x36, word_of_nat q] 0x36 b' =
      (Inr [positive_response_sid 0x36, word_of_nat q], b')"
    by (simp add: b'_def b_def doip_expect_positive_def on_inbox_def expect_final_positive)
  have "doip_client_transfer_data q c s = (Inr True, b')"
    unfolding doip_client_transfer_data_def attempts_eq doip_transfer_request [OF lib q]
    by (subst transfer_attempts.simps(2), simp only: s1 prod.case sum.case r1 py_error.case)
      (subst transfer_attempts.simps(2),
       simp only: s2 prod.case sum.case r2, simp add: bindS_def x2 is_negative_response_def)
  then show ?thesis by (simp add: b'_def b_def now_env_def)
qed

lemma unread_rejection_aborts:
  assumes "uds_library_conforms (dl_library s)" and "q < 256"
    and "dl_inbox s = [PositiveAck, Diagnostic (dl_target_address s) TESTER_ADDRESS [0x7F, 0x36, 0x73]]"
    and "dl_late s = []" and "dl_fates s (dl_clock s) = Delivered"
    and "doip_handle (now_env s) ([0x36, word_of_nat q] @ c) (dl_ecu s) = (e', [Respond r])"
  shows "\<exists>m s'. doip_client_transfer_data q c s = (Inl (RuntimeError m), s') \<and> dl_ecu s' = e'"
proof -
  let ?ok = "[PositiveAck, Diagnostic (de_logical_address e') TESTER_ADDRESS r]"
  define g where "g = s\<lparr>dl_clock := Suc (dl_clock s), dl_ecu := e', dl_inbox := dl_inbox s @ ?ok\<rparr>"
  define g' where "g' = g\<lparr>dl_inbox := ?ok\<rparr>"
  have s3: "send_diagnostic (Inr ([0x36, word_of_nat q] @ c)) s = (Inr (), g)"
    using assms(4-6) by (simp add: g_def send_diagnostic_def now_env_def Let_def)
  have r3: "receive_raw_diagnostic g = (Inr [0x7F, 0x36, 0x73], g')"
    using assms(3) by (simp add: g'_def g_def receive_raw_diagnostic_def on_inbox_def)
  have x3: "doip_expect_positive [0x7F, 0x36, 0x73] 0x36 g' = (Inl (RuntimeError ''UDS request rejected''), g')"
    by (simp add: g'_def g_def doip_expect_positive_def on_inbox_def expect_final.simps is_response_pending_def
        is_negative_response_def)
  have "doip_client_transfer_data q c s = (Inl (RuntimeError ''UDS request rejected''), g')"
    unfolding doip_client_transfer_data_def attempts_eq doip_transfer_request [OF assms(1,2)]
    by (subst transfer_attempts.simps(2)) (simp only: s3 prod.case sum.case r3, simp add: bindS_def x3)
  then show ?thesis by (auto simp: g'_def g_def)
qed

text \<open>A response that arrives after the client has given up waiting for it breaks the transfer:
  the retry takes it for the answer to the second transmission and succeeds, and the answer to the
  second transmission, still unread, is then taken for the answer to the next block, which the
  gateway stores while the client raises.\<close>

theorem late_response_aborts_next_block:
  assumes "doip_conditions n s" and "quiet s" and "doip_live (now_env s) (dl_ecu s)"
    and "doip_transferring amount q d (dl_ecu s)" and "c \<noteq> []" and "c' \<noteq> []"
    and "length d + length c + length c' \<le> amount"
    and "dl_fates s (dl_clock s) = ResponseLate" and "dl_fates s (Suc (dl_clock s)) = Delivered"
    and "dl_fates s (Suc (Suc (dl_clock s))) = Delivered"
  shows "\<exists>s1 s2 m. doip_client_transfer_data q c s = (Inr True, s1) \<and>
           doip_client_transfer_data ((q + 1) mod 256) c' s1 = (Inl (RuntimeError m), s2) \<and>
           doip_transferring amount ((q + 2) mod 256) (d @ c @ c') (dl_ecu s2)"
proof -
  let ?q = "(q + 1) mod 256" and ?k = "dl_clock s"
  let ?e2 = "doip_touch_session (dl_envs s (Suc ?k)) (stored_block (now_env s) c (dl_ecu s))"
  have fit: "length d + length c \<le> amount" "length (d @ c) + length c' \<le> amount" using assms(7) by simp_all
  obtain s1 where first: "doip_client_transfer_data q c s = (Inr True, s1)"
    and s1: "s1 = s\<lparr>dl_clock := Suc (Suc ?k), dl_ecu := ?e2, dl_late := [],
       dl_inbox := [PositiveAck, Diagnostic (dl_target_address s) TESTER_ADDRESS [0x7F, 0x36, 0x73]]\<rparr>"
    using late_response_retry [OF assms(1-5) fit(1) assms(8,9)] by auto
  have t2: "doip_transferring amount ?q (d @ c) ?e2"
    using assms(4) by simp
  have live: "doip_live (now_env s1) ?e2"
    using assms(1,3)
    by (simp add: s1 doip_live_def now_env_def doip_conditions_def doip_touch_session_def stored_block_def)
  have h: "doip_handle (now_env s1) ([0x36, word_of_nat ?q] @ c') ?e2 =
      (stored_block (now_env s1) c' ?e2, [Respond [positive_response_sid 0x36, word_of_nat ?q]])"
    by (rule gateway_stores [OF live t2 assms(6) fit(2)])
  have "\<exists>m s'. doip_client_transfer_data ?q c' s1 = (Inl (RuntimeError m), s') \<and>
      dl_ecu s' = stored_block (now_env s1) c' ?e2"
    by (rule unread_rejection_aborts) (use assms(1,10) h in \<open>simp_all add: s1 doip_conditions_def\<close>)
  moreover have "doip_transferring amount ((q + 2) mod 256) (d @ c @ c') (stored_block (now_env s1) c' ?e2)"
    using stored_block_simps(5) [of amount ?q "d @ c" ?e2] t2 by (simp add: mod_Suc_eq)
  ultimately show ?thesis using first by force
qed

section \<open>A concrete session\<close>

definition demo_security :: security_env where
  "demo_security = \<lparr>security_mode = None, security_static_key_hex = None\<rparr>"

definition demo_doip_env :: doip_env where
  "demo_doip_env =
     \<lparr>dn_now = 1, dn_current_version = ''1.0.0'', dn_security = demo_security,
      dn_original = Some [1, 2, 3], dn_block_length = 2, dn_install_error = None\<rparr>"

definition demo_context :: doip_ecu where
  "demo_context = new_ecu_context ''BCM ECU'' BCM_ADDRESS ''2.0.0'' (new_receiver None)"

definition demo_doip_link :: "(nat \<Rightarrow> fate) \<Rightarrow> doip_ecu \<Rightarrow> doip_link" where
  "demo_doip_link fates e =
     \<lparr>dl_library = None, dl_tester_security = demo_security, dl_target_address = BCM_ADDRESS,
      dl_envs = (\<lambda>_. demo_doip_env), dl_fates = fates, dl_clock = 0, dl_ecu = e, dl_installs = [],
      dl_inbox = [], dl_late = [], dl_max_transfer_payload = 8192\<rparr>"

text \<open>Nine bytes announced, none received yet, unlocked.\<close>

definition demo_receiving :: doip_ecu where
  "demo_receiving =
     demo_context\<lparr>de_current_session := 0x02, de_session_started_at := 1, de_security_unlocked := True,
       de_expected_download_size := 9\<rparr>"

lemma demo_security_derive:
  "derive_security_key demo_security seed = Inr (derive_demo_security_key seed)"
proof -
  have "lower (strip_space (getenv_or (security_mode demo_security) ''demo_xor'')) = ''demo_xor''"
    by code_simp
  then show ?thesis by (simp add: derive_security_key_def)
qed

lemma demo_conditions: "de_security_locked_until e \<le> 1 \<Longrightarrow> doip_conditions 2 (demo_doip_link fates e)"
  by (simp add: doip_conditions_def demo_doip_link_def demo_doip_env_def demo_security_derive
      GATEWAY_REQUEST_DOWNLOAD_BLOCK_LENGTH_def)

lemma demo_quiet: "de_logical_address e = BCM_ADDRESS \<Longrightarrow> quiet (demo_doip_link fates e)"
  by (simp add: quiet_def demo_doip_link_def)

lemma demo_receiving_facts:
  "doip_conditions 2 (demo_doip_link fates demo_receiving)" "quiet (demo_doip_link fates demo_receiving)"
  "doip_live (now_env (demo_doip_link fates demo_receiving)) (dl_ecu (demo_doip_link fates demo_receiving))"
  "doip_live (dl_envs (demo_doip_link fates demo_receiving) k) (dl_ecu (demo_doip_link fates demo_receiving))"
  "doip_transferring 9 1 [] (dl_ecu (demo_doip_link fates demo_receiving))"
  by (rule demo_conditions, simp add: demo_receiving_def demo_context_def new_ecu_context_def,
      rule demo_quiet, simp add: demo_receiving_def demo_context_def new_ecu_context_def,
      simp_all add: doip_live_def doip_transferring_def demo_doip_link_def now_env_def
        demo_doip_env_def demo_receiving_def demo_context_def new_ecu_context_def new_receiver_def)


theorem doip_block_stored_exactly_once_witness:
  "\<exists>s'. doip_client_transfer_data 1 [7, 8] (demo_doip_link (\<lambda>k. if k = 0 then ResponseLost else Delivered)
          demo_receiving) = (Inr True, s') \<and> quiet s' \<and>
        doip_transferring 9 ((1 + 1) mod 256) ([] @ [7, 8]) (dl_ecu s')"
  by (rule doip_block_stored_exactly_once [OF demo_receiving_facts(1-3) demo_receiving_facts(4,5)])
    (simp_all add: demo_doip_link_def)

theorem late_response_aborts_next_block_witness:
  "\<exists>s1 s2 m. doip_client_transfer_data 1 [7, 8]
        (demo_doip_link (\<lambda>k. if k = 0 then ResponseLate else Delivered) demo_receiving) = (Inr True, s1) \<and>
     doip_client_transfer_data ((1 + 1) mod 256) [9] s1 = (Inl (RuntimeError m), s2) \<and>
     doip_transferring 9 ((1 + 2) mod 256) ([] @ [7, 8] @ [9]) (dl_ecu s2)"
  by (rule late_response_aborts_next_block [OF demo_receiving_facts(1-3,5)])
    (simp_all add: demo_doip_link_def)

text \<open>The requests of a session, up to the reset.\<close>

definition demo_session :: "bytes list" where
  "demo_session =
     [[0x10, 0x02], [0x27, 0x01], [0x27, 0x02] @ derive_demo_security_key [0x10, 0x02, 0, 1],
      [0x31, 0x01] @ be_bytes 2 0xFF00 @ be_bytes 4 3,
      [0x34, 0x00, 0x44] @ be_bytes 4 0 @ be_bytes 4 3, [0x36, word_of_nat 1] @ [1, 2, 3], [0x37],
      [0x31, 0x01] @ be_bytes 2 0xFF02 @ []]"

definition demo_armed :: doip_ecu where
  "demo_armed = fst (doip_run (map (Pair demo_doip_env) demo_session) demo_context)"

lemma demo_armed_facts:
  "doip_live demo_doip_env demo_armed \<and> de_install_pending demo_armed \<and>
   de_activation_marked demo_armed \<and> \<not> de_install_started demo_armed"
proof -
  let ?run = "\<lambda>request e. fst (doip_handle demo_doip_env request e)"
  let ?e1 = "demo_context\<lparr>de_current_session := 2, de_session_started_at := 1\<rparr>"
  let ?e2 = "?e1\<lparr>de_seed_counter := 1, de_pending_seed := [0x10, 0x02, 0, 1]\<rparr>"
  let ?e3 = "?e1\<lparr>de_seed_counter := 1, de_security_unlocked := True\<rparr>"
  let ?e4 = "?e3\<lparr>de_erase_completed := True, de_expected_download_size := 3\<rparr>"
  let ?r = "\<lparr>rcv_buffer = [1, 2, 3], rcv_chunk_count = 1, rcv_expected_size = None, saved_file = None\<rparr>"
  let ?e6 = "?e4\<lparr>de_download_received_size := 3, de_expected_transfer_sequence := 2, de_receiver := ?r\<rparr>"
  let ?e7 = "?e6\<lparr>de_download_verified := True, de_install_pending := True,
       de_receiver := ?r\<lparr>saved_file := Some [1, 2, 3]\<rparr>\<rparr>"
  let ?e8 = "?e7\<lparr>de_activation_marked := True\<rparr>"
  note defs = demo_context_def new_ecu_context_def new_receiver_def doip_touch_session_def
    doip_reset_programming_state_def doip_live_def demo_doip_env_def
  have s1: "?run [0x10, 0x02] demo_context = ?e1"
    by (simp add: gateway_open defs)
  have s2: "?run [0x27, 0x01] ?e1 = ?e2"
    by (subst gateway_seed) (simp_all add: defs doip_generate_seed_def be_bytes_4)
  have s3: "?run ([0x27, 0x02] @ derive_demo_security_key [0x10, 0x02, 0, 1]) ?e2 = ?e3"
    by (subst gateway_key) (simp_all add: demo_security_derive defs)
  have s4: "?run ([0x31, 0x01] @ be_bytes 2 0xFF00 @ be_bytes 4 3) ?e3 = ?e4"
    by (subst gateway_routine) (simp_all add: defs doip_erase_memory_def receiver_clear_def from_be_be_bytes)
  have s5: "?run ([0x34, 0x00, 0x44] @ be_bytes 4 0 @ be_bytes 4 3) ?e4 = ?e4"
    by (subst gateway_download) (simp_all add: defs receiver_clear_def)
  have s6: "?run ([0x36, word_of_nat 1] @ [1, 2, 3]) ?e4 = ?e6"
    by (subst gateway_transfer) (simp_all add: defs)
  have s7: "?run [0x37] ?e6 = ?e7"
    by (subst gateway_exit) (simp_all add: defs firmware_data_def receiver_save_def)
  have s8: "?run ([0x31, 0x01] @ be_bytes 2 0xFF02 @ []) ?e7 = ?e8"
    by (subst gateway_routine) (simp_all add: defs)
  have armed: "demo_armed = ?e8"
    using s1 s2 s3 s4 s5 s6 s7 s8
    by (simp add: demo_armed_def demo_session_def doip_handle_def split_beta)
  show ?thesis unfolding armed by (simp add: defs)
qed

theorem doip_installs_verified_image_witness:
  "\<exists>saved original. saved_file (de_receiver (fst (doip_handle demo_doip_env [0x11, 0x01] demo_armed))) = Some saved \<and>
     dn_original demo_doip_env = Some original \<and> sha256 saved = sha256 original"
proof (rule doip_installs_verified_image [where rs = "map (Pair demo_doip_env) demo_session"
      and env = demo_doip_env and request = "[0x11, 0x01]"])
  show "0 \<le> dn_now demo_doip_env" by (simp add: demo_doip_env_def)
  show "doip_schedule demo_doip_env (map (Pair demo_doip_env) demo_session @ [(demo_doip_env, [0x11, 0x01])])"
    by (simp add: demo_session_def)
  show "demo_armed = fst (doip_run (map (Pair demo_doip_env) demo_session)
      (new_ecu_context ''BCM ECU'' BCM_ADDRESS ''2.0.0'' (new_receiver None)))"
    by (simp add: demo_armed_def demo_context_def)
  show "handle_raw_uds_message demo_doip_env [0x11, 0x01] demo_armed =
      (fst (handle_raw_uds_message demo_doip_env [0x11, 0x01] demo_armed),
       fst (doip_handle demo_doip_env [0x11, 0x01] demo_armed),
       snd (doip_handle demo_doip_env [0x11, 0x01] demo_armed))"
    by (simp add: doip_handle_def)
  show "StartInstall \<in> set (snd (doip_handle demo_doip_env [0x11, 0x01] demo_armed))"
    using demo_armed_facts by (simp add: gateway_reset)
qed

end
