(* ===== verification/DoIP_Gateway.thy ===== *)
theory DoIP_Gateway
  imports DoIP_Server
begin

text \<open>
  The packet level of the DoIP gateway: \<open>DoIPServer.process\<close> of \<open>transport/doip/server.py\<close>, the
  forwarding to the CAN bus or a zone controller and the legacy JSON messages.

  \<open>process\<close> gives the new ECU contexts and what happened, in order: the bytes sent to the client,
  an installation started, or an exception that left the handler. \<open>gateway_config\<close> holds the
  environment switches and what lies outside: the text encoding of JSON, the zone router, and
  what arrives on the CAN bus before the deadline.
\<close>

section \<open>Configuration and outputs\<close>

record gateway_config =
  gc_allow_legacy :: bool
  gc_proxy_flash :: bool
  gc_zone_router :: "(nat \<Rightarrow> bytes \<Rightarrow> bytes list result) option"
  gc_can_id :: "nat \<Rightarrow> nat"
  gc_bus_starts :: "nat \<Rightarrow> clock"
  gc_bus_flow_control :: bus_input
  gc_bus_responses :: "can_message list"
  gc_block_length :: nat
  gc_json_loads :: "bytes \<Rightarrow> jdict option"
  gc_json_dumps :: "jdict \<Rightarrow> bytes"

datatype gateway_output = Send bytes | Install nat | Fault py_error

type_synonym ecu_contexts = "nat \<Rightarrow> doip_ecu option"

abbreviation VEHICLE_IDENT_REQUEST :: nat where "VEHICLE_IDENT_REQUEST \<equiv> 0x0001"
abbreviation VEHICLE_IDENT_RESPONSE :: nat where "VEHICLE_IDENT_RESPONSE \<equiv> 0x0004"
abbreviation ROUTING_ACTIVATION_REQUEST :: nat where "ROUTING_ACTIVATION_REQUEST \<equiv> 0x0005"
abbreviation ROUTING_ACTIVATION_RESPONSE :: nat where "ROUTING_ACTIVATION_RESPONSE \<equiv> 0x0006"
abbreviation ALIVE_CHECK_REQUEST :: nat where "ALIVE_CHECK_REQUEST \<equiv> 0x0007"
abbreviation ALIVE_CHECK_RESPONSE :: nat where "ALIVE_CHECK_RESPONSE \<equiv> 0x0008"
abbreviation DIAGNOSTIC_MESSAGE :: nat where "DIAGNOSTIC_MESSAGE \<equiv> 0x8001"
abbreviation DIAGNOSTIC_ACK :: nat where "DIAGNOSTIC_ACK \<equiv> 0x8002"

definition send_packet :: "bytes result \<Rightarrow> gateway_output list" where
  "send_packet p = (case p of Inl err \<Rightarrow> [Fault err] | Inr b \<Rightarrow> [Send b])"

text \<open>An acknowledgement and the diagnostic message.\<close>

definition send_uds_response :: "nat \<Rightarrow> nat \<Rightarrow> bytes \<Rightarrow> gateway_output list" where
  "send_uds_response source tester payload =
     (case bindE (pack_be 2 source) (\<lambda>s. bindE (pack_be 2 tester) (\<lambda>t.
        build_packet DIAGNOSTIC_ACK (s @ t @ [0x00]))) of
        Inl err \<Rightarrow> [Fault err]
      | Inr ack \<Rightarrow> Send ack # send_packet (build_diagnostic_packet source tester payload))"

definition uds_outputs :: "nat \<Rightarrow> nat \<Rightarrow> uds_event list \<Rightarrow> gateway_output list" where
  "uds_outputs ecu tester evs =
     concat (map (\<lambda>ev. case ev of
        Respond r \<Rightarrow> send_uds_response ecu tester r
      | StartInstall \<Rightarrow> [Install ecu]
      | Raised err \<Rightarrow> [Fault err]) evs)"

definition vehicle_identification_response :: "bytes result" where
  "vehicle_identification_response =
     bindE (pack_be 2 GATEWAY_ADDRESS) (\<lambda>a.
       build_packet VEHICLE_IDENT_RESPONSE
         (bytes_of ''TESTVIN1234567890'' @ a @ replicate 6 0x00 @ replicate 6 0x00 @ [0x00]))"

section \<open>Forwarding\<close>

fun collect_responses ::
    "nat \<Rightarrow> byte option \<Rightarrow> can_message list \<Rightarrow> reassembler \<Rightarrow> bytes list \<Rightarrow> bytes list result" where
  "collect_responses can_id sid [] r responses =
     Inl (TimeoutError ''Timed out waiting for CAN response'')"
| "collect_responses can_id sid (m # ms) r responses =
     (if arbitration_id m \<noteq> can_id then collect_responses can_id sid ms r responses
      else case reassembler_feed (can_data m) r of
        (r, None) \<Rightarrow> collect_responses can_id sid ms r responses
      | (r, Some assembled) \<Rightarrow>
          if \<not> is_response_for_request assembled sid then collect_responses can_id sid ms r responses
          else if sid \<noteq> None \<and> is_response_pending assembled sid
          then collect_responses can_id sid ms r (responses @ [assembled])
          else Inr (responses @ [assembled]))"

definition forward_uds_over_can :: "gateway_config \<Rightarrow> nat \<Rightarrow> bytes \<Rightarrow> bytes list result" where
  "forward_uds_over_can cfg address payload =
     (case snd (isotp_send (gc_can_id cfg address) (gc_bus_starts cfg) payload (gc_bus_flow_control cfg)) of
        Some err \<Rightarrow> Inl err
      | None \<Rightarrow> collect_responses (gc_can_id cfg address)
          (if payload = [] then None else Some (payload ! 0)) (gc_bus_responses cfg)
          (new_reassembler 0 0) [])"

definition rewrite_request_download_response :: "gateway_config \<Rightarrow> bytes \<Rightarrow> bytes" where
  "rewrite_request_download_response cfg payload =
     (if payload = [] then payload
      else if payload ! 0 \<noteq> positive_response_sid SID_REQUEST_DOWNLOAD then payload
      else if length payload < 5 then payload
      else [payload ! 0, payload ! 1, payload ! 2] @ be_bytes 2 (min (gc_block_length cfg) 16384))"

definition forward :: "gateway_config \<Rightarrow> nat \<Rightarrow> nat \<Rightarrow> bytes \<Rightarrow> gateway_output list" where
  "forward cfg target tester payload =
     (case (case gc_zone_router cfg of
              Some router \<Rightarrow> router target payload
            | None \<Rightarrow> forward_uds_over_can cfg target payload) of
        Inl err \<Rightarrow> []
      | Inr responses \<Rightarrow>
          concat (map (\<lambda>r. send_uds_response target tester
            (if payload \<noteq> [] \<and> payload ! 0 = SID_REQUEST_DOWNLOAD
             then rewrite_request_download_response cfg r else r)) responses))"

section \<open>The legacy messages\<close>

definition ota_field :: "jdict \<Rightarrow> string \<Rightarrow> jval result" where
  "ota_field message k = (case message k of None \<Rightarrow> Inl (KeyError k) | Some v \<Rightarrow> Inr v)"

definition hex_field :: "jval \<Rightarrow> bytes result" where
  "hex_field v = (case v of JText s \<Rightarrow> fromhex s | _ \<Rightarrow> Inl TypeError)"

text \<open>The sequence number as one byte of \<open>bytes([type, sequence])\<close>.\<close>

definition byte_field :: "jval \<Rightarrow> byte result" where
  "byte_field v =
     (case v of
        JNum n \<Rightarrow> if n < 256 then Inr (word_of_nat n) else Inl (ValueError ''bytes must be in range(0, 256)'')
      | JBool b \<Rightarrow> Inr (if b then 1 else 0)
      | _ \<Rightarrow> Inl TypeError)"

definition ota_ack :: jdict where
  "ota_ack = [''status'' \<mapsto> JText ''ACK'']"

text \<open>\<open>_response_for\<close>\<close>

definition ota_response_for :: "doip_env \<Rightarrow> jdict \<Rightarrow> doip_ecu \<Rightarrow> jdict result \<times> doip_ecu" where
  "ota_response_for env message e =
     (let kind = message ''type'' in
      if kind = Some (JText ''DISCOVERY_REQUEST'') then
        (Inr [''type'' \<mapsto> JText ''DISCOVERY_RESPONSE'', ''ecu_name'' \<mapsto> JText (de_ecu_name e),
              ''version'' \<mapsto> JText (dn_current_version env), ''status'' \<mapsto> JText ''READY''], e)
      else if kind \<in> {Some (JText ''HEALTH_CHECK''), Some (JText ''HEALTH_REQUEST'')} then
        (Inr [''status'' \<mapsto> JText ''HEALTHY''], e)
      else if kind = Some (JText ''VERSION_REQUEST'') then
        (Inr [''version'' \<mapsto> JText (dn_current_version env)], e)
      else if kind = Some (JText ''FIRMWARE_START'') then
        (Inr ota_ack,
         e\<lparr>de_receiver := receiver_clear (de_receiver e),
           de_target_version :=
             (case message ''target_version'' of None \<Rightarrow> JText (de_profile_version e) | Some v \<Rightarrow> v)\<rparr>)
      else if kind = Some (JText ''FIRMWARE_CHUNK'') then
        (case bindE (ota_field message ''sequence'') (\<lambda>q. bindE (bindE (ota_field message ''payload'') hex_field)
           (\<lambda>p. bindE (byte_field q) (\<lambda>b. Inr ([0x11, b] @ p)))) of
           Inl err \<Rightarrow> (Inl err, e)
         | Inr frame \<Rightarrow>
             (case append_chunk frame (de_receiver e) of
                (Inl err, r) \<Rightarrow> (Inl err, e\<lparr>de_receiver := r\<rparr>)
              | (Inr _, r) \<Rightarrow> (Inr ota_ack, e\<lparr>de_receiver := r\<rparr>)))
      else (Inr ota_ack, e))"

text \<open>\<open>_handle_firmware_end\<close>: the installation runs before the last message is sent.\<close>

definition send_ota :: "gateway_config \<Rightarrow> doip_ecu \<Rightarrow> nat \<Rightarrow> jdict \<Rightarrow> gateway_output list" where
  "send_ota cfg e tester message =
     send_uds_response (de_logical_address e) tester (gc_json_dumps cfg message)"

definition handle_firmware_end ::
    "gateway_config \<Rightarrow> doip_env \<Rightarrow> nat \<Rightarrow> doip_ecu \<Rightarrow> doip_ecu \<times> gateway_output list" where
  "handle_firmware_end cfg env tester e =
     (let e = e\<lparr>de_receiver := receiver_save (de_receiver e)\<rparr> in
      case receiver_verify (dn_original env) (de_receiver e) of
        Inl err \<Rightarrow> (e, [Fault err])
      | Inr (passed, _) \<Rightarrow>
          (e, send_ota cfg e tester ota_ack @
              (if passed then
                 Install (de_logical_address e) #
                 (case dn_install_error env of
                    Some err \<Rightarrow> [Fault err]
                  | None \<Rightarrow> send_ota cfg e tester [''type'' \<mapsto> JText ''INSTALL_COMPLETE''])
               else send_ota cfg e tester
                 [''status'' \<mapsto> JText ''FAILED'', ''reason'' \<mapsto> JText ''INTEGRITY_CHECK_FAILED''])))"

definition handle_ota_message ::
    "gateway_config \<Rightarrow> doip_env \<Rightarrow> nat \<Rightarrow> jdict \<Rightarrow> doip_ecu \<Rightarrow> doip_ecu \<times> gateway_output list" where
  "handle_ota_message cfg env tester message e =
     (if message ''type'' = Some (JText ''FIRMWARE_END'') then handle_firmware_end cfg env tester e
      else case ota_response_for env message e of
        (Inl err, e) \<Rightarrow> (e, [Fault err])
      | (Inr response, e) \<Rightarrow> (e, send_ota cfg e tester response))"

section \<open>Packets\<close>

definition routed :: "nat \<Rightarrow> bool" where
  "routed address \<longleftrightarrow> address \<in> {GATEWAY_ADDRESS, BCM_ADDRESS, CLUSTER_ADDRESS}"

definition process_diagnostic ::
    "gateway_config \<Rightarrow> doip_env \<Rightarrow> nat \<Rightarrow> nat \<Rightarrow> bytes \<Rightarrow> doip_ecu \<Rightarrow> doip_ecu \<times> gateway_output list" where
  "process_diagnostic cfg env source target payload e =
     (if is_raw_uds_payload payload then
        (if gc_proxy_flash cfg then
           (case handle_raw_uds_message env payload e of
              (True, e', evs) \<Rightarrow> (e', uds_outputs (de_logical_address e) source evs)
            | (False, e', evs) \<Rightarrow> (e', uds_outputs (de_logical_address e) source evs @ forward cfg target source payload))
         else (e, forward cfg target source payload))
      else if \<not> gc_allow_legacy cfg then (e, [])
      else case gc_json_loads cfg payload of
        None \<Rightarrow> (e, [])
      | Some message \<Rightarrow> handle_ota_message cfg env source message e)"

definition process ::
    "gateway_config \<Rightarrow> (nat \<Rightarrow> doip_env) \<Rightarrow> nat \<Rightarrow> bytes \<Rightarrow> ecu_contexts \<Rightarrow> ecu_contexts \<times> gateway_output list" where
  "process cfg envs payload_type payload ecus =
     (if payload_type = VEHICLE_IDENT_REQUEST then (ecus, send_packet vehicle_identification_response)
      else if payload_type = ROUTING_ACTIVATION_REQUEST then
        (ecus, if length payload < 2 then [Fault StructError]
               else send_packet (bindE (pack_be 2 (from_be (take 2 payload))) (\<lambda>t.
                 bindE (pack_be 2 GATEWAY_ADDRESS) (\<lambda>g.
                   build_packet ROUTING_ACTIVATION_RESPONSE (t @ g @ [0x10] @ be_bytes 4 0)))))
      else if payload_type = ALIVE_CHECK_REQUEST then
        (ecus, send_packet (build_packet ALIVE_CHECK_RESPONSE [0x00]))
      else if payload_type = DIAGNOSTIC_MESSAGE then
        (case parse_diagnostic_payload payload of
           Inl err \<Rightarrow> (ecus, [Fault err])
         | Inr (source, target, diagnostic_payload) \<Rightarrow>
             if \<not> routed target then (ecus, [])
             else case ecus target of
               None \<Rightarrow> (ecus, [])
             | Some e \<Rightarrow>
                 let (e', out) = process_diagnostic cfg (envs target) source target diagnostic_payload e
                 in (ecus(target \<mapsto> e'), out))
      else (ecus, []))"

text \<open>The contexts the constructor creates, and the packets of all connections in the order the
  server handles them, each under its conditions.\<close>

definition initial_contexts :: "(nat \<Rightarrow> receiver) \<Rightarrow> ecu_contexts" where
  "initial_contexts receivers =
     [GATEWAY_ADDRESS \<mapsto> new_ecu_context ''Gateway ECU'' GATEWAY_ADDRESS ''2.0.0'' (receivers GATEWAY_ADDRESS),
      BCM_ADDRESS \<mapsto> new_ecu_context ''BCM ECU'' BCM_ADDRESS ''2.0.0'' (receivers BCM_ADDRESS),
      CLUSTER_ADDRESS \<mapsto> new_ecu_context ''Cluster ECU'' CLUSTER_ADDRESS ''2.0.0'' (receivers CLUSTER_ADDRESS)]"

fun process_run ::
    "gateway_config \<Rightarrow> ((nat \<Rightarrow> doip_env) \<times> nat \<times> bytes) list \<Rightarrow> ecu_contexts \<Rightarrow> ecu_contexts \<times> gateway_output list" where
  "process_run cfg [] ecus = (ecus, [])"
| "process_run cfg ((envs, payload_type, payload) # packets) ecus =
     (let (ecus, out) = process cfg envs payload_type payload ecus;
          (ecus, more) = process_run cfg packets ecus
      in (ecus, out @ more))"

section \<open>Addresses and outputs\<close>

lemma doip_address_kept:
  "de_logical_address (fst (doip_handle env request e)) = de_logical_address e"
proof -
  have require: "de_logical_address (fst (doip_require_programming_session env sid service q)) = de_logical_address q"
    if "\<And>q. de_logical_address (fst (service q)) = de_logical_address q" for sid service q
    using that
    by (simp add: doip_require_programming_session_def doip_expire_session_if_needed_def
        doip_touch_session_def doip_reset_programming_state_def Let_def)
  have "de_logical_address (fst (doip_security_access env request e)) = de_logical_address e"
    unfolding doip_security_access_def
    by (rule require) (simp add: doip_request_seed_def doip_send_key_def doip_generate_seed_def Let_def
        split: sum.split)
  moreover have "de_logical_address (fst (doip_routine_control env request e)) = de_logical_address e"
    unfolding doip_routine_control_def by (rule require) (simp add: doip_erase_memory_def Let_def)
  moreover have "de_logical_address (fst (doip_request_download env request e)) = de_logical_address e"
    unfolding doip_request_download_def by (rule require) simp
  moreover have "de_logical_address (fst (doip_transfer_data env request e)) = de_logical_address e"
    unfolding doip_transfer_data_def by (rule require) (simp add: Let_def)
  moreover have "de_logical_address (fst (doip_transfer_exit env request e)) = de_logical_address e"
    unfolding doip_transfer_exit_def by (rule require) (simp add: Let_def split: sum.split)
  moreover have "de_logical_address (fst (doip_ecu_reset env request e)) = de_logical_address e"
    unfolding doip_ecu_reset_def by (rule require) (simp add: doip_reset_programming_state_def Let_def)
  ultimately show ?thesis
    by (simp add: doip_handle_def handle_raw_uds_message_def doip_session_control_def
        doip_tester_present_def doip_read_data_def doip_touch_session_def
        doip_reset_programming_state_def doip_expire_session_if_needed_def Let_def)
qed

lemma no_install_sent [simp]:
  "Install a \<notin> set (send_packet p)" "Install a \<notin> set (send_uds_response s t r)"
  by (auto simp: send_packet_def send_uds_response_def split: sum.split)

lemma no_install_forwarded [simp]: "Install a \<notin> set (forward cfg target tester payload)"
  by (auto simp: forward_def split: option.split sum.split)

lemma install_of_events:
  assumes "Install a \<in> set (uds_outputs ecu tester evs)"
  shows "a = ecu \<and> StartInstall \<in> set evs"
proof -
  obtain ev where ev: "ev \<in> set evs" "Install a \<in> set (case ev of
      Respond r \<Rightarrow> send_uds_response ecu tester r | StartInstall \<Rightarrow> [Install ecu] | Raised err \<Rightarrow> [Fault err])"
    using assms unfolding uds_outputs_def by (auto simp only: set_concat set_map)
  show ?thesis by (rule uds_event.exhaust [of ev]) (use ev in auto)
qed

text \<open>Without the legacy messages a diagnostic packet does what the UDS handler does, or nothing.\<close>

lemma process_diagnostic_uds:
  assumes "\<not> gc_allow_legacy cfg" and "process_diagnostic cfg env source target payload e = (e', out)"
  shows "(e' = e \<and> (\<forall>a. Install a \<notin> set out)) \<or>
         (e' = fst (doip_handle env payload e) \<and>
          (\<forall>a. Install a \<in> set out \<longrightarrow> a = de_logical_address e \<and> StartInstall \<in> set (snd (doip_handle env payload e))))"
  using assms install_of_events
  by (fastforce simp: process_diagnostic_def doip_handle_def split: if_splits prod.splits bool.splits)

section \<open>Many packets\<close>

definition contexts_inv :: "(nat \<Rightarrow> doip_env) \<Rightarrow> ecu_contexts \<Rightarrow> bool" where
  "contexts_inv envs ecus \<longleftrightarrow>
     (\<forall>a e. ecus a = Some e \<longrightarrow> doip_inv (envs a) e \<and> de_logical_address e = a)"

definition gateway_later :: "(nat \<Rightarrow> doip_env) \<Rightarrow> (nat \<Rightarrow> doip_env) \<Rightarrow> bool" where
  "gateway_later envs envs' \<longleftrightarrow>
     (\<forall>a. dn_now (envs a) \<le> dn_now (envs' a) \<and> dn_original (envs' a) = dn_original (envs a))"

fun gateway_schedule :: "(nat \<Rightarrow> doip_env) \<Rightarrow> ((nat \<Rightarrow> doip_env) \<times> nat \<times> bytes) list \<Rightarrow> bool" where
  "gateway_schedule envs [] \<longleftrightarrow> True"
| "gateway_schedule envs ((envs', t, p) # packets) \<longleftrightarrow>
     gateway_later envs envs' \<and> gateway_schedule envs' packets"

lemma contexts_inv_later: "contexts_inv envs ecus \<Longrightarrow> gateway_later envs envs' \<Longrightarrow> contexts_inv envs' ecus"
  unfolding contexts_inv_def gateway_later_def
  using doip_inv_later by (metis doip_later_def)

lemma contexts_inv_initial:
  "(\<And>a. 0 \<le> dn_now (envs a)) \<Longrightarrow> contexts_inv envs (initial_contexts receivers)"
  by (auto simp: contexts_inv_def initial_contexts_def doip_inv_new split: if_splits)
    (simp_all add: new_ecu_context_def)

lemma process_cases:
  assumes "process cfg envs t p ecus = (ecus', out)"
  obtains (unchanged) "ecus' = ecus" and "\<And>a. Install a \<notin> set out"
  | (diagnostic) source target payload e e' where "t = DIAGNOSTIC_MESSAGE"
      and "parse_diagnostic_payload p = Inr (source, target, payload)" and "routed target"
      and "ecus target = Some e"
      and "process_diagnostic cfg (envs target) source target payload e = (e', out)"
      and "ecus' = ecus(target \<mapsto> e')"
proof (cases "t = DIAGNOSTIC_MESSAGE")
  case False
  with assms show ?thesis
    by (intro unchanged) (auto simp: process_def split: if_splits)
next
  case t: True
  show ?thesis
  proof (cases "parse_diagnostic_payload p")
    case (Inl err)
    with t assms show ?thesis by (intro unchanged) (auto simp: process_def)
  next
    case (Inr d)
    obtain source target payload where d: "d = (source, target, payload)" by (cases d)
    show ?thesis
    proof (cases "routed target \<and> ecus target \<noteq> None")
      case False
      with t d Inr assms show ?thesis by (intro unchanged) (auto simp: process_def split: if_splits)
    next
      case True
      then obtain e where e: "ecus target = Some e" by blast
      obtain e' out' where step: "process_diagnostic cfg (envs target) source target payload e = (e', out')"
        by fastforce
      have "ecus' = ecus(target \<mapsto> e')" and "out' = out"
        using t d Inr e step True assms by (simp_all add: process_def)
      with t d Inr e step True show ?thesis by (intro diagnostic) auto
    qed
  qed
qed

lemma contexts_inv_process:
  assumes "contexts_inv envs ecus" and "\<not> gc_allow_legacy cfg"
    and "process cfg envs t p ecus = (ecus', out)"
  shows "contexts_inv envs ecus' \<and>
    (\<forall>a. Install a \<in> set out \<longrightarrow> (\<exists>e. ecus' a = Some e \<and> doip_image_verified (envs a) e))"
  using assms(3)
proof (cases rule: process_cases)
  case unchanged
  with assms(1) show ?thesis by simp
next
  case (diagnostic source target payload e e')
  have inv: "doip_inv (envs target) e" and addr: "de_logical_address e = target"
    using assms(1) diagnostic(4) by (auto simp: contexts_inv_def)
  let ?h = "doip_handle (envs target) payload e"
  from process_diagnostic_uds [OF assms(2) diagnostic(5)] show ?thesis
  proof (elim disjE conjE)
    assume "e' = e" and none: "\<forall>a. Install a \<notin> set out"
    then have "ecus' = ecus" using diagnostic(4,6) by (simp add: fun_upd_idem)
    with assms(1) none show ?thesis by simp
  next
    assume e': "e' = fst ?h"
      and out: "\<forall>a. Install a \<in> set out \<longrightarrow> a = de_logical_address e \<and> StartInstall \<in> set (snd ?h)"
    have "doip_inv (envs target) e'" and "de_logical_address e' = target"
      using doip_inv_handle [OF inv] doip_address_kept addr by (simp_all add: e')
    then have "contexts_inv envs ecus'"
      using assms(1) by (simp add: contexts_inv_def diagnostic(6))
    moreover have "doip_image_verified (envs target) e'" if "StartInstall \<in> set (snd ?h)"
      using doip_install_verified [OF inv that] by (simp add: e')
    ultimately show ?thesis using out addr by (auto simp: diagnostic(6))
  qed
qed

lemma contexts_inv_run:
  "contexts_inv envs ecus \<Longrightarrow> \<not> gc_allow_legacy cfg \<Longrightarrow>
     gateway_schedule envs (packets @ [(envs', t, p)]) \<Longrightarrow>
     contexts_inv envs' (fst (process_run cfg packets ecus))"
proof (induction packets arbitrary: envs ecus)
  case Nil
  then show ?case by (simp add: contexts_inv_later)
next
  case (Cons x packets)
  obtain envs1 t1 p1 where x: "x = (envs1, t1, p1)" by (cases x)
  obtain ecus1 out where step: "process cfg envs1 t1 p1 ecus = (ecus1, out)" by fastforce
  have "contexts_inv envs1 ecus" using Cons.prems contexts_inv_later by (simp add: x)
  with contexts_inv_process [OF _ Cons.prems(2) step] have "contexts_inv envs1 ecus1" by blast
  from Cons.IH [OF this Cons.prems(2)] Cons.prems(3) show ?case
    by (simp add: x step split_beta)
qed

section \<open>Properties of the gateway\<close>


lemma legacy_address:
  "de_logical_address (fst (handle_ota_message cfg env tester message e)) = de_logical_address e"
  by (auto simp: handle_ota_message_def handle_firmware_end_def ota_response_for_def append_chunk_def
      Let_def split: sum.split prod.split option.split)

lemma legacy_install:
  "Install a \<in> set (snd (handle_ota_message cfg env tester message e)) \<Longrightarrow> a = de_logical_address e"
  by (auto simp: handle_ota_message_def handle_firmware_end_def send_ota_def
      Let_def split: sum.splits prod.splits option.splits if_splits)

lemma process_diagnostic_install:
  assumes "process_diagnostic cfg env source target payload e = (e', out)" and "Install a \<in> set out"
  shows "a = de_logical_address e"
proof (cases "is_raw_uds_payload payload \<and> gc_proxy_flash cfg")
  case True
  obtain handled e1 evs where h: "handle_raw_uds_message env payload e = (handled, e1, evs)"
    by (cases "handle_raw_uds_message env payload e") auto
  have "Install a \<in> set (uds_outputs (de_logical_address e) source evs)"
    using assms True h by (cases handled) (auto simp: process_diagnostic_def)
  then show ?thesis by (blast dest: install_of_events)
next
  case False
  note off = False
  show ?thesis
  proof (cases "is_raw_uds_payload payload \<or> \<not> gc_allow_legacy cfg \<or> gc_json_loads cfg payload = None")
    case True
    with off assms show ?thesis by (auto simp: process_diagnostic_def split: if_splits)
  next
    case legacy: False
    then obtain message where "gc_json_loads cfg payload = Some message" by blast
    with legacy assms have "Install a \<in> set (snd (handle_ota_message cfg env source message e))"
      by (simp add: process_diagnostic_def)
    then show ?thesis by (rule legacy_install)
  qed
qed

text \<open>A packet concerns one ECU, whatever it holds and also on the legacy path: the contexts
  change at most at the target address of a well-formed diagnostic message, and every installation
  the packet starts is for the ECU of that context.\<close>

theorem packet_concerns_one_ecu:
  assumes "process cfg envs t p ecus = (ecus', out)"
  shows "(\<forall>a. ecus' a \<noteq> ecus a \<longrightarrow> t = DIAGNOSTIC_MESSAGE \<and> routed a \<and>
              (\<exists>source payload. parse_diagnostic_payload p = Inr (source, a, payload))) \<and>
         (\<forall>a. Install a \<in> set out \<longrightarrow> t = DIAGNOSTIC_MESSAGE \<and>
              (\<exists>source target payload e. parse_diagnostic_payload p = Inr (source, target, payload) \<and>
                ecus target = Some e \<and> a = de_logical_address e))"
  using assms
proof (cases rule: process_cases)
  case unchanged
  then show ?thesis by simp
next
  case (diagnostic source target payload e e')
  from diagnostic process_diagnostic_install [OF diagnostic(5)] show ?thesis
    by (auto split: if_splits)
qed

section \<open>One ECU's share of the packets\<close>

text \<open>The UDS requests of a packet sequence that reach the ECU at an address.\<close>

fun requests_for ::
    "gateway_config \<Rightarrow> nat \<Rightarrow> ((nat \<Rightarrow> doip_env) \<times> nat \<times> bytes) list \<Rightarrow> (doip_env \<times> bytes) list" where
  "requests_for cfg a [] = []"
| "requests_for cfg a ((envs, t, p) # packets) =
     (if t = DIAGNOSTIC_MESSAGE \<and> 4 \<le> length p \<and> from_be (take 2 (drop 2 p)) = a \<and> routed a \<and>
         is_raw_uds_payload (drop 4 p) \<and> gc_proxy_flash cfg
      then [(envs a, drop 4 p)] else []) @ requests_for cfg a packets"

lemma process_projection:
  assumes "\<not> gc_allow_legacy cfg"
  shows "fst (process cfg envs t p ecus) a =
    map_option (\<lambda>e. fst (doip_run (requests_for cfg a [(envs, t, p)]) e)) (ecus a)"
proof (cases "t = DIAGNOSTIC_MESSAGE \<and> 4 \<le> length p \<and> routed (from_be (take 2 (drop 2 p))) \<and>
    ecus (from_be (take 2 (drop 2 p))) \<noteq> None")
  case False
  then show ?thesis
    by (cases "ecus a") (auto simp: process_def parse_diagnostic_payload_def)
next
  case True
  define target where "target = from_be (take 2 (drop 2 p))"
  obtain e where e: "ecus target = Some e" using True by (auto simp: target_def)
  have "fst (process_diagnostic cfg (envs target) (from_be (take 2 p)) target (drop 4 p) e) =
      fst (doip_run (requests_for cfg target [(envs, t, p)]) e)"
    using True assms
    by (simp add: process_diagnostic_def target_def split_beta split: bool.split prod.split)
  with True e show ?thesis
    by (simp add: process_def parse_diagnostic_payload_def split_beta option.map_ident flip: target_def)
qed

lemma requests_for_append: "requests_for cfg a (ps @ qs) = requests_for cfg a ps @ requests_for cfg a qs"
  by (induction cfg a ps rule: requests_for.induct) simp_all

lemma doip_run_append: "fst (doip_run (rs @ qs) e) = fst (doip_run qs (fst (doip_run rs e)))"
  by (induction rs arbitrary: e) (auto simp: split_beta)

lemma process_run_projection:
  assumes "\<not> gc_allow_legacy cfg"
  shows "fst (process_run cfg packets ecus) a =
           map_option (\<lambda>e. fst (doip_run (requests_for cfg a packets) e)) (ecus a)"
proof (induction packets arbitrary: ecus)
  case Nil
  show ?case by (simp add: option.map_ident)
next
  case (Cons x packets)
  obtain envs t p where x: "x = (envs, t, p)" by (cases x)
  have "fst (process_run cfg (x # packets) ecus) a =
      fst (process_run cfg packets (fst (process cfg envs t p ecus))) a"
    by (simp add: x split_beta)
  also have "\<dots> = map_option (\<lambda>e. fst (doip_run (requests_for cfg a packets) e))
      (map_option (\<lambda>e. fst (doip_run (requests_for cfg a [(envs, t, p)]) e)) (ecus a))"
    by (simp only: Cons.IH process_projection [OF assms])
  also have "\<dots> = map_option (\<lambda>e. fst (doip_run (requests_for cfg a (x # packets)) e)) (ecus a)"
    using requests_for_append [of cfg a "[x]" packets]
    by (simp only: x doip_run_append option.map_comp comp_def append_Cons append_Nil)
  finally show ?case .
qed


section \<open>Answers\<close>

fun final_answer :: "byte \<Rightarrow> uds_event \<Rightarrow> bool" where
  "final_answer sid (Respond r) \<longleftrightarrow>
     take 1 r = [positive_response_sid sid] \<or>
     (take 2 r = [0x7F, sid] \<and> length r = 3 \<and> r ! 2 \<noteq> NRC_RESPONSE_PENDING)"
| "final_answer sid (Raised err) \<longleftrightarrow> True"
| "final_answer sid StartInstall \<longleftrightarrow> False"

lemma require_answers:
  assumes "\<And>e. length (filter (final_answer sid) (snd (service e))) = 1"
  shows "length (filter (final_answer sid) (snd (doip_require_programming_session env sid service e))) = 1"
  using assms
  by (simp add: doip_require_programming_session_def doip_negative_def doip_reply_def Let_def)

lemmas gateway_answer_defs =
  doip_negative_def doip_reply_def Let_def response_pending_def doip_routine_reply_def

text \<open>C35: The gateway answers every UDS request it recognises exactly once: among what it does for
  the request there is one positive or negative response for its service, or one exception, besides
  any number of "response pending" messages.\<close>

theorem doip_every_request_answered:
  assumes "is_raw_uds_payload payload"
    and "handle_raw_uds_message env payload e = (handled, e', evs)"
  shows "handled \<and> length (filter (final_answer (payload ! 0)) evs) = 1"
proof -
  let ?sid = "payload ! 0"
  let ?one = "\<lambda>st. length (filter (final_answer ?sid) (snd st)) = 1"
  have pos: "positive_response_sid ?sid \<noteq> SID_NEGATIVE_RESPONSE"
    using assms(1) by (auto simp: is_raw_uds_payload_def)
  have session: "?one (doip_session_control env payload e)" and tester: "?one (doip_tester_present env payload e)"
    and read: "?one (doip_read_data env payload e)"
    by (simp_all add: doip_session_control_def doip_tester_present_def doip_read_data_def gateway_answer_defs)
  have seed: "?one (doip_request_seed env payload q)" and key: "?one (doip_send_key env payload q)" for q
    by (simp_all add: doip_request_seed_def doip_send_key_def gateway_answer_defs split_beta split: sum.split)
  have "?one (doip_security_access env payload e)"
    unfolding doip_security_access_def
    by (rule require_answers) (use seed key in \<open>simp add: doip_negative_def doip_reply_def\<close>)
  moreover have "?one (doip_routine_control env payload e)"
    unfolding doip_routine_control_def using pos
    by (intro require_answers) (simp add: gateway_answer_defs)
  moreover have "?one (doip_request_download env payload e)"
    unfolding doip_request_download_def by (rule require_answers) (simp add: gateway_answer_defs)
  moreover have "?one (doip_transfer_data env payload e)"
    unfolding doip_transfer_data_def by (rule require_answers) (simp add: gateway_answer_defs)
  moreover have "?one (doip_transfer_exit env payload e)"
    unfolding doip_transfer_exit_def using pos
    by (intro require_answers) (simp add: gateway_answer_defs split: sum.split)
  moreover have "?one (doip_ecu_reset env payload e)"
    unfolding doip_ecu_reset_def by (rule require_answers) (simp add: gateway_answer_defs)
  ultimately show ?thesis
    using assms session tester read
    by (auto simp: is_raw_uds_payload_def handle_raw_uds_message_def split: if_splits)
qed

end
