(* ===== verification/Gateway_Sessions.thy ===== *)
theory Gateway_Sessions
  imports DoIP_Client DoIP_Gateway
begin

text \<open>
  Whole sessions at the packet level of the gateway: what the legacy JSON messages and
  \<open>TransferData\<close> without a download do to an ECU context, and concrete sessions.
\<close>

definition diagnostic_message :: "nat \<Rightarrow> nat \<Rightarrow> bytes \<Rightarrow> bytes" where
  "diagnostic_message tester target payload = be_bytes 2 tester @ be_bytes 2 target @ payload"

lemma parse_diagnostic_message [simp]:
  "parse_diagnostic_payload (diagnostic_message s t p) = Inr (s mod 65536, t mod 65536, p)"
  by (simp add: diagnostic_message_def parse_diagnostic_payload_def)

lemma process_message:
  assumes "routed a" and "ecus a = Some e"
  shows "process cfg envs DIAGNOSTIC_MESSAGE (diagnostic_message tester a payload) ecus =
    (ecus(a \<mapsto> fst (process_diagnostic cfg (envs a) (tester mod 65536) a payload e)),
     snd (process_diagnostic cfg (envs a) (tester mod 65536) a payload e))"
proof -
  have "a mod 65536 = a" using assms(1) by (auto simp: routed_def)
  with assms show ?thesis by (simp add: process_def split_beta)
qed

lemma process_run_messages:
  assumes "routed a"
  shows "ecus a = Some e \<Longrightarrow>
    fst (process_run cfg (map (\<lambda>p. (envs, DIAGNOSTIC_MESSAGE, diagnostic_message tester a p)) ps) ecus) =
      ecus(a \<mapsto> fold (\<lambda>p e. fst (process_diagnostic cfg (envs a) (tester mod 65536) a p e)) ps e)"
proof (induction ps arbitrary: ecus e)
  case Nil
  then show ?case by (simp add: fun_upd_idem)
next
  case (Cons p ps)
  then show ?case using process_message [OF assms, where ecus = ecus and e = e] by (simp add: split_beta fun_upd_def) (simp add: fun_upd_def if_distrib cong: if_cong)
qed

lemma process_run_append:
  "process_run cfg (ps @ qs) ecus =
     (let (ecus1, out1) = process_run cfg ps ecus; (ecus2, out2) = process_run cfg qs ecus1
      in (ecus2, out1 @ out2))"
proof (induction ps arbitrary: ecus)
  case Nil
  show ?case by simp
next
  case (Cons x ps)
  obtain envs t p where x: "x = (envs, t, p)" by (cases x)
  show ?case by (simp add: x Cons.IH split_beta Let_def)
qed

section \<open>The legacy messages after a verified download\<close>

text \<open>The three JSON messages: start, one chunk with all the bytes in hexadecimal, end.\<close>

definition legacy_start :: jdict where
  "legacy_start = [''type'' \<mapsto> JText ''FIRMWARE_START'']"

definition legacy_chunk :: "bytes \<Rightarrow> jdict" where
  "legacy_chunk data =
     [''type'' \<mapsto> JText ''FIRMWARE_CHUNK'', ''sequence'' \<mapsto> JNum 1, ''payload'' \<mapsto> JText (hex_of data)]"

definition legacy_end :: jdict where
  "legacy_end = [''type'' \<mapsto> JText ''FIRMWARE_END'']"

lemma legacy_start_effect:
  "fst (handle_ota_message cfg env tester legacy_start e) =
     e\<lparr>de_receiver := receiver_clear (de_receiver e), de_target_version := JText (de_profile_version e)\<rparr>"
  by (simp add: legacy_start_def handle_ota_message_def ota_response_for_def Let_def)

lemma legacy_chunk_effect:
  "fst (handle_ota_message cfg env tester (legacy_chunk data) e) =
     e\<lparr>de_receiver := (de_receiver e)\<lparr>rcv_buffer := rcv_buffer (de_receiver e) @ data,
         rcv_chunk_count := rcv_chunk_count (de_receiver e) + 1\<rparr>\<rparr>"
  by (simp add: legacy_chunk_def handle_ota_message_def ota_response_for_def Let_def ota_field_def
      hex_field_def byte_field_def append_chunk_def)

lemma legacy_end_effect:
  "fst (handle_ota_message cfg env tester legacy_end e) = e\<lparr>de_receiver := receiver_save (de_receiver e)\<rparr>"
  by (simp add: legacy_end_def handle_ota_message_def handle_firmware_end_def Let_def
      split: sum.split prod.split)

lemma process_legacy:
  assumes "gc_allow_legacy cfg" and "\<not> is_raw_uds_payload payload" and "gc_json_loads cfg payload = Some message"
  shows "fst (process_diagnostic cfg env tester a payload e) = fst (handle_ota_message cfg env tester message e)"
  using assms by (simp add: process_diagnostic_def)

text \<open>C37: With \<open>OTA_DOIP_ALLOW_LEGACY_JSON\<close>, a pending installation does not protect the image it
  was verified for: after the verified download and the activation of one image, three legacy
  messages save any other bytes in its place, whatever their hash, and the next \<open>ECUReset\<close> starts the
  installation with them.\<close>

theorem legacy_messages_replace_verified_image:
  assumes "gc_allow_legacy cfg" and "gc_proxy_flash cfg" and "routed a" and "ecus a = Some e"
    and "doip_live (envs a) e" and "de_install_pending e" and "de_activation_marked e" and "\<not> de_install_started e"
    and "de_logical_address e = a"
    and "map (gc_json_loads cfg) payloads = map Some [legacy_start, legacy_chunk data, legacy_end]"
    and "\<forall>p\<in>set payloads. \<not> is_raw_uds_payload p"
    and "process_run cfg (map (\<lambda>p. (envs, DIAGNOSTIC_MESSAGE, diagnostic_message tester a p))
           (payloads @ [[0x11, 0x01]])) ecus = (ecus', out)"
  shows "Install a \<in> set out \<and> (\<exists>e'. ecus' a = Some e' \<and> saved_file (de_receiver e') = Some data)"
proof -
  obtain p1 p2 p3 where p: "payloads = [p1, p2, p3]"
    using assms(10) by (auto simp: map_eq_Cons_conv)
  have loads: "gc_json_loads cfg p1 = Some legacy_start" "gc_json_loads cfg p2 = Some (legacy_chunk data)"
    "gc_json_loads cfg p3 = Some legacy_end"
    and raw: "\<not> is_raw_uds_payload p1" "\<not> is_raw_uds_payload p2" "\<not> is_raw_uds_payload p3"
    using assms(10,11) by (simp_all add: p)
  define q where "q = e\<lparr>de_target_version := JText (de_profile_version e),
     de_receiver := receiver_save
       ((receiver_clear (de_receiver e))\<lparr>rcv_buffer := data, rcv_chunk_count := 1\<rparr>)\<rparr>"
  have q: "doip_live (envs a) q" "de_install_pending q" "de_activation_marked q" "\<not> de_install_started q"
    "de_logical_address q = a" "saved_file (de_receiver q) = Some data"
    using assms(5-9)
    by (simp_all add: q_def doip_live_def receiver_save_def receiver_clear_def firmware_data_def)
  let ?packets = "map (\<lambda>p. (envs, DIAGNOSTIC_MESSAGE, diagnostic_message tester a p)) payloads"
  have "fst (process_run cfg ?packets ecus) = ecus(a \<mapsto> q)"
    unfolding process_run_messages [OF assms(3), where ecus = ecus and e = e, OF assms(4)]
    using process_legacy [OF assms(1)] loads raw
    by (simp add: p q_def legacy_start_effect legacy_chunk_effect legacy_end_effect receiver_clear_def)
  moreover have "process cfg envs DIAGNOSTIC_MESSAGE (diagnostic_message tester a [0x11, 0x01]) (ecus(a \<mapsto> q)) =
      (ecus(a \<mapsto> fst (doip_handle (envs a) [0x11, 0x01] q)),
       uds_outputs a (tester mod 65536) (snd (doip_handle (envs a) [0x11, 0x01] q)))"
    using process_message [OF assms(3), of "ecus(a \<mapsto> q)" q cfg envs tester "[0x11, 0x01]"] assms(2) q(5)
    by (simp add: split_beta process_diagnostic_def is_raw_uds_payload_def doip_handle_def handle_raw_uds_message_def)
  ultimately have "ecus' = ecus(a \<mapsto> fst (doip_handle (envs a) [0x11, 0x01] q))"
    and "Install a \<in> set out"
    using assms(12) gateway_reset [OF q(1-4)]
    by (auto simp: process_run_append split_beta uds_outputs_def)
  then show ?thesis
    using q(6) gateway_reset [OF q(1-4)]
    by (simp add: doip_reset_programming_state_def doip_touch_session_def)
qed

section \<open>Concrete sessions\<close>

definition demo_loads :: "bytes \<Rightarrow> jdict option" where
  "demo_loads payload =
     (if payload = [0x7B, 1] then Some legacy_start
      else if payload = [0x7B, 2] then Some (legacy_chunk [6, 6, 6])
      else if payload = [0x7B, 3] then Some legacy_end else None)"

definition demo_gateway :: "bool \<Rightarrow> gateway_config" where
  "demo_gateway legacy =
     \<lparr>gc_allow_legacy = legacy, gc_proxy_flash = True, gc_zone_router = Some (\<lambda>_ _. Inr []),
      gc_can_id = (\<lambda>_. 0x700), gc_bus_starts = (\<lambda>_. 0), gc_bus_flow_control = [], gc_bus_responses = [],
      gc_block_length = 2, gc_json_loads = demo_loads, gc_json_dumps = (\<lambda>_. [])\<rparr>"

definition demo_message :: "bytes \<Rightarrow> (nat \<Rightarrow> doip_env) \<times> nat \<times> bytes" where
  "demo_message p = ((\<lambda>_. demo_doip_env), DIAGNOSTIC_MESSAGE, diagnostic_message 0x0E80 BCM_ADDRESS p)"

lemma doip_run_address: "de_logical_address (fst (doip_run rs e)) = de_logical_address e"
proof (induction rs arbitrary: e)
  case (Cons x rs)
  obtain env request where x: "x = (env, request)" by (cases x)
  show ?case using doip_address_kept [of env request e] by (simp add: x Cons.IH split_beta doip_handle_def)
qed simp

lemma demo_armed_address: "de_logical_address demo_armed = BCM_ADDRESS"
  by (simp add: demo_armed_def doip_run_address demo_context_def new_ecu_context_def)

theorem legacy_messages_replace_verified_image_witness:
  "\<exists>ecus' out. process_run (demo_gateway True) (map demo_message [[0x7B, 1], [0x7B, 2], [0x7B, 3], [0x11, 0x01]])
       [BCM_ADDRESS \<mapsto> demo_armed] = (ecus', out) \<and>
     Install BCM_ADDRESS \<in> set out \<and>
     (\<exists>e'. ecus' BCM_ADDRESS = Some e' \<and> saved_file (de_receiver e') = Some [6, 6, 6])"
proof -
  let ?run = "process_run (demo_gateway True)
      (map (\<lambda>p. (\<lambda>_. demo_doip_env, DIAGNOSTIC_MESSAGE, diagnostic_message 0x0E80 BCM_ADDRESS p))
        ([[0x7B, 1], [0x7B, 2], [0x7B, 3]] @ [[0x11, 0x01]])) [BCM_ADDRESS \<mapsto> demo_armed]"
  have "Install BCM_ADDRESS \<in> set (snd ?run) \<and>
     (\<exists>e'. fst ?run BCM_ADDRESS = Some e' \<and> saved_file (de_receiver e') = Some [6, 6, 6])"
  proof (rule legacy_messages_replace_verified_image [where envs = "\<lambda>_. demo_doip_env" and cfg = "demo_gateway True"
        and payloads = "[[0x7B, 1], [0x7B, 2], [0x7B, 3]]" and tester = "0x0E80" and e = demo_armed
        and ecus = "[BCM_ADDRESS \<mapsto> demo_armed]" and ecus' = "fst ?run" and out = "snd ?run"])
    show "?run = (fst ?run, snd ?run)" by (rule surjective_pairing)
    show "de_logical_address demo_armed = BCM_ADDRESS"
      by (rule demo_armed_address)
  qed (use demo_armed_facts in \<open>simp_all add: demo_gateway_def demo_loads_def routed_def is_raw_uds_payload_def\<close>)
  then show ?thesis by (simp add: demo_message_def split_beta)
qed

lemma demo_requests:
  "requests_for (demo_gateway False) BCM_ADDRESS (map demo_message demo_session) =
     map (Pair demo_doip_env) demo_session"
  by (simp add: demo_session_def demo_message_def diagnostic_message_def routed_def demo_gateway_def
      is_raw_uds_payload_def)


lemma demo_reset:
  defines "ecus \<equiv> fst (process_run (demo_gateway False) (map demo_message demo_session)
      (initial_contexts (\<lambda>_. new_receiver None)))"
  shows "Install BCM_ADDRESS \<in> set (snd (process (demo_gateway False) (\<lambda>_. demo_doip_env) DIAGNOSTIC_MESSAGE
      (diagnostic_message 0x0E80 BCM_ADDRESS [0x11, 0x01]) ecus))"
proof -
  have "\<not> gc_allow_legacy (demo_gateway False)" by (simp add: demo_gateway_def)
  from process_run_projection [OF this, of "map demo_message demo_session"
      "initial_contexts (\<lambda>_. new_receiver None)" BCM_ADDRESS]
  have armed: "ecus BCM_ADDRESS = Some demo_armed"
    by (simp add: ecus_def demo_requests initial_contexts_def demo_armed_def demo_context_def)
  have "StartInstall \<in> set (snd (doip_handle demo_doip_env [0x11, 0x01] demo_armed))"
    using demo_armed_facts by (simp add: gateway_reset)
  then show ?thesis
    by (subst process_message [where a = BCM_ADDRESS and ecus = ecus, OF _ armed])
      (auto simp: process_diagnostic_def is_raw_uds_payload_def doip_handle_def handle_raw_uds_message_def
        demo_gateway_def routed_def uds_outputs_def split_beta demo_armed_address intro: bexI [of _ StartInstall])
qed


theorem packet_concerns_one_ecu_witness:
  "let ecus = initial_contexts (\<lambda>_. new_receiver None);
       (ecus', out) = process (demo_gateway False) (\<lambda>_. demo_doip_env) DIAGNOSTIC_MESSAGE
         (diagnostic_message 0x0E80 BCM_ADDRESS [0x10, 0x02]) ecus
   in ecus' BCM_ADDRESS \<noteq> ecus BCM_ADDRESS \<and> ecus' GATEWAY_ADDRESS = ecus GATEWAY_ADDRESS"
proof -
  let ?ecus = "initial_contexts (\<lambda>_. new_receiver None)"
  let ?p = "process (demo_gateway False) (\<lambda>_. demo_doip_env) DIAGNOSTIC_MESSAGE
      (diagnostic_message 0x0E80 BCM_ADDRESS [0x10, 0x02]) ?ecus"
  have bcm: "?ecus BCM_ADDRESS = Some demo_context"
    by (simp add: initial_contexts_def demo_context_def)
  have "fst ?p BCM_ADDRESS = Some (fst (doip_handle demo_doip_env [0x10, 0x02] demo_context))"
    by (subst process_message [where a = BCM_ADDRESS and ecus = ?ecus, OF _ bcm])
      (simp_all add: process_diagnostic_def is_raw_uds_payload_def doip_handle_def handle_raw_uds_message_def
        demo_gateway_def routed_def split_beta)
  moreover have "\<dots> \<noteq> Some demo_context"
    by (simp add: gateway_open demo_context_def new_ecu_context_def doip_touch_session_def
        doip_reset_programming_state_def)
  moreover have "fst ?p GATEWAY_ADDRESS = ?ecus GATEWAY_ADDRESS"
    using packet_concerns_one_ecu [OF surjective_pairing, of "demo_gateway False" "\<lambda>_. demo_doip_env"
        DIAGNOSTIC_MESSAGE "diagnostic_message 0x0E80 BCM_ADDRESS [0x10, 0x02]" ?ecus]
    by (auto dest: spec [where x = GATEWAY_ADDRESS])
  ultimately show ?thesis using bcm by (simp add: split_beta Let_def)
qed

theorem doip_every_request_answered_witness:
  "length (filter (final_answer 0x31) (snd (doip_handle demo_doip_env
      ([0x31, 0x01] @ be_bytes 2 0xFF01) demo_armed))) = 1"
  using doip_every_request_answered [of "[0x31, 0x01] @ be_bytes 2 0xFF01" demo_doip_env demo_armed]
  by (cases "handle_raw_uds_message demo_doip_env ([0x31, 0x01] @ be_bytes 2 0xFF01) demo_armed")
    (auto simp: is_raw_uds_payload_def doip_handle_def)

section \<open>Transfers without a download\<close>

text \<open>The gateway accepts \<open>TransferData\<close> in an unlocked session that never requested a download
  (the announced size is zero): the block is answered positively and the sequence counter advances,
  but its bytes are dropped.\<close>

theorem transfer_without_download_is_dropped:
  assumes "doip_live env e" and "de_security_unlocked e" and "de_expected_download_size e = 0"
    and "de_expected_transfer_sequence e = q" and "q < 256"
  shows "\<exists>e'. doip_handle env ([0x36, word_of_nat q] @ data) e =
             (e', [Respond [positive_response_sid 0x36, word_of_nat q]]) \<and>
           rcv_buffer (de_receiver e') = rcv_buffer (de_receiver e) \<and>
           de_expected_transfer_sequence e' = (q + 1) mod 256"
  using assms doip_live_require [OF assms(1)]
  by (simp add: doip_handle_def handle_raw_uds_message_def doip_transfer_data_def doip_touch_session_def
      doip_reply_def Let_def unsigned_of_nat take_bit_eq_mod)

theorem transfer_without_download_is_dropped_witness:
  "\<exists>e'. doip_handle demo_doip_env ([0x36, word_of_nat 1] @ [7, 8])
          (demo_receiving\<lparr>de_expected_download_size := 0\<rparr>) =
        (e', [Respond [positive_response_sid 0x36, word_of_nat 1]]) \<and>
      rcv_buffer (de_receiver e') = rcv_buffer (de_receiver (demo_receiving\<lparr>de_expected_download_size := 0\<rparr>)) \<and>
      de_expected_transfer_sequence e' = (1 + 1) mod 256"
  by (rule transfer_without_download_is_dropped)
    (simp_all add: demo_receiving_def demo_context_def new_ecu_context_def doip_live_def demo_doip_env_def)

end
