(* ===== verification/Dependency_Graph.thy ===== *)
theory Dependency_Graph
  imports OTA_Prelude "HOL-Library.List_Lexorder" "HOL-Library.Char_ord" "HOL-Library.Product_Lexorder" "HOL-Library.AList" "HOL-Library.Multiset"
begin

text \<open>
  The order of updates: \<open>DependencyGraph\<close> of \<open>tcu/models/dependency_graph.py\<close> and
  \<open>TopologicalUpdatePlanner\<close> of \<open>tcu/dependency_manager.py\<close> (Kahn's algorithm).

  The nodes are a list without duplicates, which stands for the set: the code only tests
  membership, takes the length and sorts. \<open>graph\<close> is the \<open>defaultdict\<close> of children as an
  association list. The abstract side is the relation \<open>edges\<close>.
\<close>

section \<open>The graph\<close>

record dep_graph =
  dg_graph :: "(string \<times> string list) list"
  dg_nodes :: "string list"

definition empty_graph :: dep_graph where
  "empty_graph = \<lparr>dg_graph = [], dg_nodes = []\<rparr>"

definition add_node :: "string \<Rightarrow> dep_graph \<Rightarrow> dep_graph" where
  "add_node n g = g\<lparr>dg_nodes := List.insert n (dg_nodes g)\<rparr>"

definition dg_children :: "dep_graph \<Rightarrow> string \<Rightarrow> string list" where
  "dg_children g node = (case map_of (dg_graph g) node of None \<Rightarrow> [] | Some cs \<Rightarrow> cs)"

definition add_dependency :: "string \<Rightarrow> string \<Rightarrow> dep_graph \<Rightarrow> dep_graph" where
  "add_dependency parent child g =
     (let g = add_node child (add_node parent g)
      in g\<lparr>dg_graph := AList.update parent (dg_children g parent @ [child]) (dg_graph g)\<rparr>)"

text \<open>Parent and child, as the planner counts them.\<close>

definition graph_edges :: "dep_graph \<Rightarrow> (string \<times> string) list" where
  "graph_edges g = concat (map (\<lambda>(p, cs). map (Pair p) cs) (dg_graph g))"

section \<open>The planner\<close>

type_synonym priorities = "string \<Rightarrow> int option"

definition sort_nodes :: "string list \<Rightarrow> priorities \<Rightarrow> string list" where
  "sort_nodes nodes priority =
     sort_key (\<lambda>n. (case priority n of None \<Rightarrow> 9999 | Some p \<Rightarrow> p, n)) nodes"

text \<open>The inner loop: decrement the children, and those that become ready, in this order.\<close>

fun release :: "string list \<Rightarrow> (string \<Rightarrow> int) \<Rightarrow> (string \<Rightarrow> int) \<times> string list" where
  "release [] indegree = (indegree, [])"
| "release (child # children) indegree =
     (let indegree = indegree(child := indegree child - 1);
          (final, ready) = release children indegree
      in (final, if indegree child = 0 then child # ready else ready))"

definition all_children :: "dep_graph \<Rightarrow> string set" where
  "all_children g = set (map snd (graph_edges g))"

lemma finite_all_children [simp]: "finite (all_children g)"
  by (simp add: all_children_def)

lemma dg_children_all: "set (dg_children g n) \<subseteq> all_children g"
proof (cases "map_of (dg_graph g) n")
  case (Some cs)
  then have "(n, cs) \<in> set (dg_graph g)" by (rule map_of_SomeD)
  then have "x \<in> set cs \<Longrightarrow> (n, x) \<in> set (graph_edges g)" for x
    by (auto simp: graph_edges_def intro!: bexI)
  then have "x \<in> set cs \<Longrightarrow> x \<in> all_children g" for x
    unfolding all_children_def by (metis image_eqI list.set_map snd_conv)
  with Some show ?thesis by (auto simp: dg_children_def)
qed (simp add: dg_children_def)

lemma release_measure:
  assumes "set cs \<subseteq> A" and "finite A"
  shows "card {v \<in> A. 0 < fst (release cs ind) v} + length (snd (release cs ind)) \<le> card {v \<in> A. 0 < ind v}"
  using assms(1)
proof (induction cs arbitrary: ind)
  case Nil
  show ?case by simp
next
  case (Cons c cs)
  define i where "i = ind(c := ind c - 1)"
  have IH: "card {v \<in> A. 0 < fst (release cs i) v} + length (snd (release cs i)) \<le> card {v \<in> A. 0 < i v}"
    using Cons.prems by (intro Cons.IH) simp
  have step: "release (c # cs) ind = (fst (release cs i), if i c = 0 then c # snd (release cs i) else snd (release cs i))"
    by (simp add: i_def split_beta Let_def)
  have c: "c \<in> A" using Cons.prems by simp
  have "card {v \<in> A. 0 < i v} + (if i c = 0 then 1 else 0) \<le> card {v \<in> A. 0 < ind v}"
  proof (cases "i c = 0")
    case True
    have "{v \<in> A. 0 < ind v} = insert c {v \<in> A. 0 < i v}"
      using c True by (auto simp: i_def split: if_splits)
    with True assms(2) show ?thesis by simp
  next
    case False
    have "{v \<in> A. 0 < i v} \<subseteq> {v \<in> A. 0 < ind v}" by (auto simp: i_def split: if_splits)
    with False assms(2) show ?thesis by (simp add: card_mono)
  qed
  with IH show ?case unfolding step by (simp split: if_splits)
qed

function kahn :: "dep_graph \<Rightarrow> priorities \<Rightarrow> string list \<Rightarrow> (string \<Rightarrow> int) \<Rightarrow> string list \<Rightarrow> string list" where
  "kahn g priority [] indegree update_order = update_order"
| "kahn g priority (node # queue) indegree update_order =
     kahn g priority
       (queue @ snd (release (sort_nodes (dg_children g node) priority) indegree))
       (fst (release (sort_nodes (dg_children g node) priority) indegree))
       (update_order @ [node])"
  by pat_completeness auto
termination
proof (relation "measure (\<lambda>(g, _, queue, ind, _). card {v \<in> all_children g. 0 < ind v} + length queue)")
  show "wf (measure (\<lambda>(g, _, queue, ind, _). card {v \<in> all_children g. 0 < ind v} + length queue))"
    by simp
next
  fix g priority node queue indegree update_order
  have "set (sort_nodes (dg_children g node) priority) \<subseteq> all_children g"
    using dg_children_all by (simp add: sort_nodes_def)
  from release_measure [OF this finite_all_children, of indegree]
  show "((g, priority, queue @ snd (release (sort_nodes (dg_children g node) priority) indegree),
      fst (release (sort_nodes (dg_children g node) priority) indegree), update_order @ [node]),
      (g, priority, node # queue, indegree, update_order))
    \<in> measure (\<lambda>(g, _, queue, ind, _). card {v \<in> all_children g. 0 < ind v} + length queue)"
    by simp
qed

declare kahn.simps(2) [simp del]

fun count_indegree :: "(string \<times> string) list \<Rightarrow> (string \<Rightarrow> int) \<Rightarrow> string \<Rightarrow> int" where
  "count_indegree [] indegree = indegree"
| "count_indegree ((parent, child) # edges) indegree =
     count_indegree edges (indegree(child := indegree child + 1))"

definition topological_plan :: "dep_graph \<Rightarrow> priorities \<Rightarrow> string list result" where
  "topological_plan g priority =
     (let indegree = count_indegree (graph_edges g) (\<lambda>_. 0);
          queue = filter (\<lambda>n. indegree n = 0) (sort_nodes (dg_nodes g) priority);
          update_order = kahn g priority queue indegree []
      in if length update_order \<noteq> length (dg_nodes g)
         then Inl (RuntimeError ''Dependency cycle detected. Update plan cannot be generated.'')
         else Inr update_order)"

section \<open>Well-formed graphs\<close>

definition graph_ok :: "dep_graph \<Rightarrow> bool" where
  "graph_ok g \<longleftrightarrow> distinct (dg_nodes g) \<and> distinct (map fst (dg_graph g)) \<and>
     (\<forall>(p, c) \<in> set (graph_edges g). p \<in> set (dg_nodes g) \<and> c \<in> set (dg_nodes g))"

lemma edges_iff_children:
  assumes "distinct (map fst (dg_graph g))"
  shows "(p, c) \<in> set (graph_edges g) \<longleftrightarrow> c \<in> set (dg_children g p)"
  using assms by (force simp: graph_edges_def dg_children_def split: option.split dest: map_of_SomeD)

lemma dg_children_add:
  "dg_children (add_node n g) = dg_children g"
  "dg_children (add_dependency p c g) q = (if q = p then dg_children g p @ [c] else dg_children g q)"
  by (simp_all add: fun_eq_iff dg_children_def add_node_def add_dependency_def Let_def update_conv)

lemma graph_ok_empty: "graph_ok empty_graph"
  by (simp add: graph_ok_def empty_graph_def graph_edges_def)

lemma graph_ok_iff:
  "graph_ok g \<longleftrightarrow> distinct (dg_nodes g) \<and> distinct (map fst (dg_graph g)) \<and>
     (\<forall>p. \<forall>c \<in> set (dg_children g p). p \<in> set (dg_nodes g) \<and> c \<in> set (dg_nodes g))"
proof (cases "distinct (map fst (dg_graph g))")
  case True
  have "(\<forall>(p, c) \<in> set (graph_edges g). P p c) \<longleftrightarrow> (\<forall>p. \<forall>c \<in> set (dg_children g p). P p c)" for P
    using edges_iff_children [OF True] by blast
  with True show ?thesis by (simp add: graph_ok_def)
qed (simp add: graph_ok_def)

lemma graph_ok_add_node: "graph_ok g \<Longrightarrow> graph_ok (add_node n g)"
  by (auto simp: graph_ok_iff dg_children_add) (auto simp: add_node_def)

lemma nodes_add_dependency:
  "set (dg_nodes (add_dependency p c g)) = insert p (insert c (set (dg_nodes g)))"
  by (auto simp: add_dependency_def add_node_def Let_def)

lemma graph_ok_add_dependency: "graph_ok g \<Longrightarrow> graph_ok (add_dependency p c g)"
  by (auto simp: graph_ok_iff dg_children_add nodes_add_dependency split: if_splits)
    (auto simp: add_dependency_def add_node_def Let_def distinct_update)

text \<open>How often an edge occurs, by parent.\<close>

lemma count_children:
  assumes "distinct (map fst es)"
  shows "length (filter (\<lambda>(p, c). p = n \<and> c = v) (concat (map (\<lambda>(p, cs). map (Pair p) cs) es))) =
    count (mset (case map_of es n of None \<Rightarrow> [] | Some cs \<Rightarrow> cs)) v"
  using assms
proof (induction es)
  case (Cons e es)
  obtain p cs where e: "e = (p, cs)" by (cases e)
  have here: "length (filter (\<lambda>(q, c). q = n \<and> c = v) (map (Pair p) cs)) = (if p = n then count (mset cs) v else 0)"
    by (induction cs) auto
  show ?case
  proof (cases "p = n")
    case True
    then have "map_of es n = None" using Cons.prems e by (auto simp: map_of_eq_None_iff)
    with Cons here True e show ?thesis by simp
  next
    case False
    with Cons here e show ?thesis by simp
  qed
qed simp

section \<open>The inner loop\<close>

lemma release_indegree: "fst (release cs ind) v = ind v - int (count (mset cs) v)"
  by (induction cs arbitrary: ind) (auto simp: Let_def split_beta)

text \<open>A child becomes ready when all its remaining edges are released.\<close>

lemma release_ready:
  assumes "\<And>v. int (count (mset cs) v) \<le> ind v"
  shows "distinct (snd (release cs ind)) \<and>
    set (snd (release cs ind)) = {v \<in> set cs. ind v = int (count (mset cs) v)}"
  using assms
proof (induction cs arbitrary: ind)
  case Nil
  show ?case by simp
next
  case (Cons c cs)
  define i where "i = ind(c := ind c - 1)"
  have step: "snd (release (c # cs) ind) = (if i c = 0 then c # snd (release cs i) else snd (release cs i))"
    by (simp add: i_def split_beta Let_def)
  have le: "int (count (mset cs) v) \<le> i v" for v
    using Cons.prems [of v] by (simp add: i_def split: if_splits)
  define Q where "Q v \<longleftrightarrow> ind v = int (count (mset (c # cs)) v)" for v
  have eq: "i v = int (count (mset cs) v) \<longleftrightarrow> Q v" for v
    by (auto simp: i_def Q_def)
  have IH: "distinct (snd (release cs i))" "set (snd (release cs i)) = {v \<in> set cs. Q v}"
    using Cons.IH [OF le] by (simp_all add: eq)
  have busy: "c \<notin> set cs" if "i c = 0"
    using le [of c] that count_greater_zero_iff [of "mset cs" c] by auto
  have free: "i c = 0 \<longleftrightarrow> Q c" if "c \<notin> set cs"
  proof -
    have z: "count (mset cs) c = 0" using that by simp
    show ?thesis using eq [of c] unfolding z by simp
  qed
  have "distinct (snd (release (c # cs) ind)) \<and> set (snd (release (c # cs) ind)) = {v \<in> set (c # cs). Q v}"
  proof (cases "i c = 0")
    case True
    with busy free have "c \<notin> set cs" "Q c" by blast+
    with True IH show ?thesis unfolding step by auto
  next
    case False
    have "{v \<in> set (c # cs). Q v} = {v \<in> set cs. Q v}" using False free by auto
    with False IH show ?thesis unfolding step by simp
  qed
  then show ?case unfolding Q_def .
qed

lemma count_indegree: "count_indegree es ind v = ind v + int (length (filter (\<lambda>(p, c). c = v) es))"
  by (induction es ind rule: count_indegree.induct) (auto simp: fun_upd_def [symmetric])

section \<open>Topological orders\<close>

definition edges :: "dep_graph \<Rightarrow> (string \<times> string) set" where
  "edges g = set (graph_edges g)"

lemma edges_add_node [simp]: "edges (add_node n g) = edges g" "edges empty_graph = {}"
  by (simp_all add: edges_def graph_edges_def add_node_def empty_graph_def)

lemma nodes_add_node [simp]: "set (dg_nodes (add_node n g)) = insert n (set (dg_nodes g))"
  "dg_nodes empty_graph = []"
  by (simp_all add: add_node_def empty_graph_def)

text \<open>Every parent of a node of the list stands before it.\<close>

definition parents_first :: "(string \<times> string) set \<Rightarrow> string list \<Rightarrow> bool" where
  "parents_first E order \<longleftrightarrow> (\<forall>xs v ys. order = xs @ v # ys \<longrightarrow> (\<forall>p. (p, v) \<in> E \<longrightarrow> p \<in> set xs))"

lemma parents_first_Nil: "parents_first E []"
  by (simp add: parents_first_def)

lemma parents_first_snoc:
  assumes "parents_first E order" and "\<And>p. (p, v) \<in> E \<Longrightarrow> p \<in> set order"
  shows "parents_first E (order @ [v])"
  unfolding parents_first_def
proof (intro allI impI)
  fix xs w ys p
  assume eq: "order @ [v] = xs @ w # ys" and e: "(p, w) \<in> E"
  show "p \<in> set xs"
  proof (cases ys rule: rev_cases)
    case Nil
    with eq e assms(2) show ?thesis by simp
  next
    case (snoc zs z)
    with eq have "order = xs @ w # zs" by simp
    with e assms(1) show ?thesis unfolding parents_first_def by blast
  qed
qed

lemma parents_first_acyclic:
  assumes "parents_first E order" and "snd ` E \<subseteq> set order" and "distinct order"
  shows "acyclic E"
proof -
  define pos where "pos v = length (takeWhile (\<lambda>x. x \<noteq> v) order)" for v
  have pos: "pos v = length xs" if "order = xs @ v # ys" for xs v ys
  proof -
    have "takeWhile (\<lambda>x. x \<noteq> v) xs = xs" using that assms(3) by (auto simp: takeWhile_eq_all_conv)
    then show ?thesis by (simp add: that pos_def takeWhile_tail)
  qed
  have less: "pos p < pos v" if e: "(p, v) \<in> E" for p v
  proof -
    have "v \<in> set order" using e assms(2) by force
    then obtain xs ys where order: "order = xs @ v # ys" by (auto simp: in_set_conv_decomp)
    then have "p \<in> set xs" using e assms(1) unfolding parents_first_def by blast
    then obtain as bs where "xs = as @ p # bs" by (auto simp: in_set_conv_decomp)
    with order pos [OF order] pos [of as p "bs @ v # ys"] show ?thesis by simp
  qed
  have "acyclic (E\<inverse>)"
    by (rule acyclicI_order [where f = pos]) (use less in auto)
  then show ?thesis by simp
qed

text \<open>A finite set of nodes in which each has a parent contains a cycle.\<close>

lemma parents_inside_cyclic:
  assumes "finite E" and "R \<noteq> {}" and "\<And>v. v \<in> R \<Longrightarrow> \<exists>p \<in> R. (p, v) \<in> E"
  shows "\<not> acyclic E"
proof
  assume "acyclic E"
  with assms(1) have "wf E" by (simp add: finite_acyclic_wf)
  with assms(2) obtain z where "z \<in> R" and "\<And>y. (y, z) \<in> E \<Longrightarrow> y \<notin> R"
    by (metis ex_in_conv wfE_min)
  with assms(3) show False by blast
qed

section \<open>The planner is correct\<close>

text \<open>
  The state of the loop: \<open>indegree\<close> counts the edges from nodes not yet in the order, and exactly
  the nodes of the order and the queue have none.
\<close>

definition pending_edges :: "dep_graph \<Rightarrow> string list \<Rightarrow> string \<Rightarrow> nat" where
  "pending_edges g order v = length (filter (\<lambda>(p, c). p \<notin> set order \<and> c = v) (graph_edges g))"

definition kahn_inv :: "dep_graph \<Rightarrow> string list \<Rightarrow> (string \<Rightarrow> int) \<Rightarrow> string list \<Rightarrow> bool" where
  "kahn_inv g queue indegree order \<longleftrightarrow>
     distinct (order @ queue) \<and> set (order @ queue) \<subseteq> set (dg_nodes g) \<and>
     (\<forall>v. indegree v = int (pending_edges g order v)) \<and>
     (\<forall>v \<in> set (dg_nodes g). v \<in> set (order @ queue) \<longleftrightarrow> indegree v = 0) \<and>
     parents_first (edges g) order"

lemma pending_edges_snoc:
  assumes "distinct (map fst (dg_graph g))" and "n \<notin> set order"
  shows "pending_edges g order v = pending_edges g (order @ [n]) v + count (mset (dg_children g n)) v"
proof -
  have "length (filter (\<lambda>(p, c). p \<notin> set order \<and> c = v) es) =
      length (filter (\<lambda>(p, c). p \<notin> set (order @ [n]) \<and> c = v) es) +
      length (filter (\<lambda>(p, c). p = n \<and> c = v) es)" for es
    using assms(2) by (induction es) auto
  then show ?thesis
    using count_children [OF assms(1), of n v]
    by (simp add: pending_edges_def dg_children_def graph_edges_def)
qed

lemma no_pending_parents: "pending_edges g order v = 0 \<Longrightarrow> (p, v) \<in> edges g \<Longrightarrow> p \<in> set order"
  by (auto simp: pending_edges_def edges_def filter_empty_conv)

text \<open>One node leaves the queue: the counts that remain, and the nodes that become ready.\<close>

lemma release_pending:
  fixes pr :: priorities
  assumes "graph_ok g" and "n \<notin> set order" and ind: "\<And>v. ind v = int (pending_edges g order v)"
  defines "cs \<equiv> sort_nodes (dg_children g n) pr"
  shows "fst (release cs ind) v = int (pending_edges g (order @ [n]) v)"
    and "distinct (snd (release cs ind))"
    and "set (snd (release cs ind)) = {v \<in> set (dg_children g n). pending_edges g (order @ [n]) v = 0}"
proof -
  have ms: "mset cs = mset (dg_children g n)" by (simp add: cs_def sort_nodes_def)
  then have st: "set cs = set (dg_children g n)" by (metis set_mset_mset)
  have snoc: "pending_edges g order v = pending_edges g (order @ [n]) v + count (mset (dg_children g n)) v" for v
    using assms(1,2) by (intro pending_edges_snoc) (simp_all add: graph_ok_def)
  show "fst (release cs ind) v = int (pending_edges g (order @ [n]) v)"
    unfolding release_indegree ind ms snoc [of v] by simp
  have "int (count (mset cs) v) \<le> ind v" for v
    unfolding ind ms snoc [of v] by simp
  note rel = release_ready [OF this]
  show "distinct (snd (release cs ind))" using rel by blast
  have "ind v = int (count (mset cs) v) \<longleftrightarrow> pending_edges g (order @ [n]) v = 0" for v
    unfolding ind ms snoc [of v] by simp
  with rel show "set (snd (release cs ind)) = {v \<in> set (dg_children g n). pending_edges g (order @ [n]) v = 0}"
    unfolding st by blast
qed

lemma child_pending:
  assumes "graph_ok g" and "n \<notin> set order" and "v \<in> set (dg_children g n)"
  shows "v \<in> set (dg_nodes g)" and "0 < pending_edges g order v"
proof -
  show "v \<in> set (dg_nodes g)" using assms by (auto simp: graph_ok_iff)
  have "0 < count (mset (dg_children g n)) v" using assms(3) by (simp add: count_greater_zero_iff)
  moreover have "pending_edges g order v = pending_edges g (order @ [n]) v + count (mset (dg_children g n)) v"
    using assms(1,2) by (intro pending_edges_snoc) (simp_all add: graph_ok_def)
  ultimately show "0 < pending_edges g order v" by simp
qed

lemma pending_unchanged:
  assumes "graph_ok g" and "n \<notin> set order" and "v \<notin> set (dg_children g n)"
  shows "pending_edges g (order @ [n]) v = pending_edges g order v"
proof -
  have "count (mset (dg_children g n)) v = 0" using assms(3) by (metis count_eq_zero_iff set_mset_mset)
  moreover have "pending_edges g order v = pending_edges g (order @ [n]) v + count (mset (dg_children g n)) v"
    using assms(1,2) by (intro pending_edges_snoc) (simp_all add: graph_ok_def)
  ultimately show ?thesis by simp
qed

lemma kahn_inv_step:
  assumes ok: "graph_ok g" and inv: "kahn_inv g (n # queue) ind order"
  shows "kahn_inv g (queue @ snd (release (sort_nodes (dg_children g n) pr) ind))
           (fst (release (sort_nodes (dg_children g n) pr) ind)) (order @ [n])"
proof -
  define ready where "ready = snd (release (sort_nodes (dg_children g n) pr) ind)"
  define ind' where "ind' = fst (release (sort_nodes (dg_children g n) pr) ind)"
  have d: "distinct (order @ n # queue)" and sub: "set (order @ n # queue) \<subseteq> set (dg_nodes g)"
    and ind: "\<And>v. ind v = int (pending_edges g order v)" and first: "parents_first (edges g) order"
    and mem0: "\<forall>v \<in> set (dg_nodes g). v \<in> set (order @ n # queue) \<longleftrightarrow> ind v = 0"
    using inv unfolding kahn_inv_def by blast+
  have n: "n \<notin> set order" "n \<in> set (dg_nodes g)" using d sub by simp_all
  have old: "v \<in> set (order @ n # queue) \<longleftrightarrow> pending_edges g order v = 0" if "v \<in> set (dg_nodes g)" for v
    using mem0 that unfolding ind of_nat_eq_0_iff by blast
  have new: "ind' v = int (pending_edges g (order @ [n]) v)" for v
    unfolding ind'_def by (rule release_pending(1) [OF ok n(1) ind])
  have ready: "distinct ready" "set ready = {v \<in> set (dg_children g n). pending_edges g (order @ [n]) v = 0}"
    unfolding ready_def using release_pending(2,3) [OF ok n(1) ind] by blast+
  note child = child_pending [OF ok n(1)]
  have mem: "v \<in> set ((order @ [n]) @ queue @ ready) \<longleftrightarrow> ind' v = 0" if v: "v \<in> set (dg_nodes g)" for v
  proof (cases "v \<in> set (dg_children g n)")
    case True
    then have "v \<notin> set (order @ n # queue)" using child(2) [OF True] old [OF v] by simp
    with True ready(2) show ?thesis unfolding new by auto
  next
    case False
    then have "v \<notin> set ready" using ready(2) by blast
    with old [OF v] pending_unchanged [OF ok n(1) False] show ?thesis unfolding new by auto
  qed
  have "pending_edges g order n = 0" using old [OF n(2)] by simp
  then have "parents_first (edges g) (order @ [n])"
    by (intro parents_first_snoc [OF first]) (rule no_pending_parents)
  moreover have "set ready \<inter> set (order @ n # queue) = {}"
    using ready(2) child old by fastforce
  then have "distinct ((order @ [n]) @ queue @ ready)"
    using d ready(1) by auto
  moreover have "set ((order @ [n]) @ queue @ ready) \<subseteq> set (dg_nodes g)"
    using sub ready(2) child(1) by auto
  ultimately show ?thesis
    using mem new unfolding kahn_inv_def ready_def ind'_def by blast
qed

lemma kahn_result:
  "graph_ok g \<Longrightarrow> kahn_inv g queue ind order \<Longrightarrow> \<exists>ind'. kahn_inv g [] ind' (kahn g pr queue ind order)"
proof (induction g pr queue ind order rule: kahn.induct)
  case (1 g priority indegree update_order)
  then show ?case by auto
next
  case (2 g priority node queue indegree update_order)
  show ?case
    unfolding kahn.simps(2) using "2.IH" "2.prems" kahn_inv_step by blast
qed

lemma kahn_inv_start:
  assumes "graph_ok g" and "ind = count_indegree (graph_edges g) (\<lambda>_. 0)"
  shows "kahn_inv g (filter (\<lambda>n. ind n = 0) (sort_nodes (dg_nodes g) pr)) ind []"
proof -
  have nodes: "mset (sort_nodes (dg_nodes g) pr) = mset (dg_nodes g)" by (simp add: sort_nodes_def)
  then have "set (sort_nodes (dg_nodes g) pr) = set (dg_nodes g)" by (metis set_mset_mset)
  moreover have "distinct (sort_nodes (dg_nodes g) pr)"
    using assms(1) nodes mset_eq_imp_distinct_iff unfolding graph_ok_def by blast
  ultimately show ?thesis
    by (simp add: kahn_inv_def pending_edges_def assms(2) count_indegree parents_first_Nil)
qed

lemma topological_plan_result:
  assumes "graph_ok g"
  shows "((\<exists>order. topological_plan g pr = Inr order) \<longleftrightarrow> acyclic (edges g)) \<and>
    (\<forall>order. topological_plan g pr = Inr order \<longrightarrow>
       distinct order \<and> set order = set (dg_nodes g) \<and> parents_first (edges g) order)"
proof -
  define ind where "ind = count_indegree (graph_edges g) (\<lambda>_. 0)"
  define order where "order = kahn g pr (filter (\<lambda>n. ind n = 0) (sort_nodes (dg_nodes g) pr)) ind []"
  obtain ind' where inv: "kahn_inv g [] ind' order"
    using kahn_result [OF assms kahn_inv_start [OF assms ind_def]] unfolding order_def by blast
  then have d: "distinct order" and sub: "set order \<subseteq> set (dg_nodes g)" and first: "parents_first (edges g) order"
    and mem: "\<And>v. v \<in> set (dg_nodes g) \<Longrightarrow> v \<in> set order \<longleftrightarrow> pending_edges g order v = 0"
    by (simp_all add: kahn_inv_def)
  have plan: "topological_plan g pr =
      (if length order \<noteq> length (dg_nodes g)
       then Inl (RuntimeError ''Dependency cycle detected. Update plan cannot be generated.'') else Inr order)"
    by (simp add: topological_plan_def order_def ind_def Let_def)
  have "length order = card (set order)" and "length (dg_nodes g) = card (set (dg_nodes g))"
    using d assms by (simp_all add: distinct_card graph_ok_def)
  then have full: "length order = length (dg_nodes g) \<longleftrightarrow> set order = set (dg_nodes g)"
    using sub by (metis card_subset_eq finite_set)
  have "acyclic (edges g)" if "set order = set (dg_nodes g)"
    using parents_first_acyclic [OF first _ d] assms that by (force simp: edges_def graph_ok_def)
  moreover have "\<not> acyclic (edges g)" if "set order \<noteq> set (dg_nodes g)"
  proof (rule parents_inside_cyclic)
    show "finite (edges g)" by (simp add: edges_def)
    show "set (dg_nodes g) - set order \<noteq> {}" using sub that by blast
    show "\<exists>p \<in> set (dg_nodes g) - set order. (p, v) \<in> edges g" if v: "v \<in> set (dg_nodes g) - set order" for v
    proof -
      have "pending_edges g order v \<noteq> 0" using mem v by blast
      then obtain p where "(p, v) \<in> edges g" "p \<notin> set order"
        by (auto simp: pending_edges_def edges_def filter_empty_conv)
      moreover have "p \<in> set (dg_nodes g)" using calculation assms by (auto simp: edges_def graph_ok_def)
      ultimately show ?thesis by blast
    qed
  qed
  ultimately show ?thesis using full d first by (auto simp: plan)
qed

lemma cyclic_plan_raises:
  assumes "graph_ok g" and "\<not> acyclic (edges g)"
  shows "topological_plan g pr =
    Inl (RuntimeError ''Dependency cycle detected. Update plan cannot be generated.'')"
proof -
  have "topological_plan g pr \<noteq> Inr order" for order using topological_plan_result [OF assms(1)] assms(2) by blast
  then show ?thesis unfolding topological_plan_def Let_def by (metis (full_types))
qed

lemma topological_plan_order:
  assumes "graph_ok g" and "topological_plan g pr = Inr order"
  shows "distinct order" and "set order = set (dg_nodes g)" and "parents_first (edges g) order"
  using topological_plan_result [OF assms(1)] assms(2) by blast+

text \<open>C24: The planner is right about every dependency graph: it returns an order exactly when the
  dependencies have no cycle, and then the order has every ECU once, each after all the ECUs it depends on;
  it never loops.\<close>

theorem topological_plan_correct:
  assumes "graph_ok g"
  shows "((\<exists>order. topological_plan g pr = Inr order) \<longleftrightarrow> acyclic (edges g)) \<and>
    (\<forall>order. topological_plan g pr = Inr order \<longrightarrow>
       distinct order \<and> set order = set (dg_nodes g) \<and> parents_first (edges g) order)"
  using assms by (rule topological_plan_result)

text \<open>The demo vehicle: the gateway before the body controller before the cluster, and a cycle.\<close>

definition demo_graph :: dep_graph where
  "demo_graph = add_dependency ''BCM ECU'' ''Cluster ECU''
     (add_dependency ''Gateway ECU'' ''BCM ECU'' (add_node ''Cluster ECU'' empty_graph))"

lemma demo_graph_ok: "graph_ok demo_graph"
  by (simp add: demo_graph_def graph_ok_add_dependency graph_ok_add_node graph_ok_empty)

lemma demo_plan:
  "topological_plan demo_graph (\<lambda>_. None) = Inr [''Gateway ECU'', ''BCM ECU'', ''Cluster ECU'']"
  by code_simp

theorem topological_plan_correct_witness:
  "set [''Gateway ECU'', ''BCM ECU'', ''Cluster ECU''] = set (dg_nodes demo_graph) \<and>
   parents_first (edges demo_graph) [''Gateway ECU'', ''BCM ECU'', ''Cluster ECU''] \<and>
   acyclic (edges demo_graph)"
  using topological_plan_correct [OF demo_graph_ok, of "\<lambda>_. None"] demo_plan by blast

end
