(* ===== verification/Vehicle_Topology.thy ===== *)
theory Vehicle_Topology
  imports OTA_Prelude "HOL-Library.AList"
begin

text \<open>
  The vehicle topology and what is derived from it: \<open>vehicle/topology_loader.py\<close>
  (\<open>VehicleTopology\<close>) and \<open>tcu/dependency_policy.py\<close>.

  A topology is the content of the JSON file with absent keys as \<open>None\<close> (or the empty text where
  the code's default is empty). Dicts are association lists in insertion order. The errors of
  \<open>validate\<close> are a datatype in place of their texts.
\<close>

section \<open>The file\<close>

record topology_ecu =
  te_ecu_name :: string
  te_logical_address :: nat
  te_can_id :: nat
  te_dependencies :: "string list"
  te_criticality :: "string option"
  te_on_unavailable :: "string option"
  te_on_dependency_failed :: "string option"

datatype service_list = OtaDefault | Services "nat list"

record topology_zone =
  tz_zone_id :: string
  tz_display_name :: string
  tz_channel :: string
  tz_service_port :: int
  tz_default_health :: "string option"
  tz_programming_allowed :: "bool option"
  tz_allowed_services :: service_list
  tz_ecus :: "topology_ecu list"

record topology =
  tp_ota_allowed_services :: "nat list"
  tp_zones :: "topology_zone list"

section \<open>Registries\<close>

definition or_default :: "'a option \<Rightarrow> 'a \<Rightarrow> 'a" where
  "or_default x d = (case x of None \<Rightarrow> d | Some v \<Rightarrow> v)"

record zone_ecu =
  ze_ecu_name :: string
  ze_can_id :: nat
  ze_criticality :: string
  ze_dependencies :: "string list"
  ze_on_unavailable :: string
  ze_on_dependency_failed :: string

record zone_config =
  zc_zone_id :: string
  zc_display_name :: string
  zc_can_channel :: string
  zc_service_port :: int
  zc_default_health :: string
  zc_programming_allowed :: bool
  zc_allowed_services :: "nat list"
  zc_ecus :: "(nat \<times> zone_ecu) list"

definition zone_ecu_of :: "topology_ecu \<Rightarrow> zone_ecu" where
  "zone_ecu_of e =
     \<lparr>ze_ecu_name = te_ecu_name e, ze_can_id = te_can_id e,
      ze_criticality = or_default (te_criticality e) ''optional'',
      ze_dependencies = te_dependencies e,
      ze_on_unavailable = or_default (te_on_unavailable e) ''skip'',
      ze_on_dependency_failed = or_default (te_on_dependency_failed e) ''skip''\<rparr>"

definition zone_config_of :: "topology \<Rightarrow> topology_zone \<Rightarrow> zone_config" where
  "zone_config_of t z =
     \<lparr>zc_zone_id = tz_zone_id z, zc_display_name = tz_display_name z, zc_can_channel = tz_channel z,
      zc_service_port = tz_service_port z,
      zc_default_health = or_default (tz_default_health z) ''ONLINE'',
      zc_programming_allowed = or_default (tz_programming_allowed z) True,
      zc_allowed_services =
        (case tz_allowed_services z of OtaDefault \<Rightarrow> tp_ota_allowed_services t | Services s \<Rightarrow> s),
      zc_ecus = foldl (\<lambda>d e. AList.update (te_logical_address e) (zone_ecu_of e) d) [] (tz_ecus z)\<rparr>"

definition build_zone_registry :: "topology \<Rightarrow> (string \<times> zone_config) list" where
  "build_zone_registry t =
     foldl (\<lambda>d z. AList.update (tz_zone_id z) (zone_config_of t z) d) [] (tp_zones t)"

record ecu_registration =
  er_logical_address :: nat
  er_can_id :: nat
  er_zone_id :: string
  er_can_channel :: string
  er_dependencies :: "string list"
  er_criticality :: string
  er_on_unavailable :: string
  er_on_dependency_failed :: string

definition registration_of :: "zone_config \<Rightarrow> nat \<times> zone_ecu \<Rightarrow> ecu_registration" where
  "registration_of z entry =
     (let (address, e) = entry in
      \<lparr>er_logical_address = address, er_can_id = ze_can_id e, er_zone_id = zc_zone_id z,
       er_can_channel = zc_can_channel z, er_dependencies = ze_dependencies e,
       er_criticality = ze_criticality e, er_on_unavailable = ze_on_unavailable e,
       er_on_dependency_failed = ze_on_dependency_failed e\<rparr>)"

definition ecu_registry :: "topology \<Rightarrow> (string \<times> ecu_registration) list" where
  "ecu_registry t =
     foldl (\<lambda>d (z, entry). AList.update (ze_ecu_name (snd entry)) (registration_of z entry) d) []
       (concat (map (\<lambda>(_, z). map (Pair z) (zc_ecus z)) (build_zone_registry t)))"

definition dependency_for_can_id :: "nat \<Rightarrow> topology \<Rightarrow> string list" where
  "dependency_for_can_id can_id t =
     (case List.find (\<lambda>(_, e). er_can_id e = can_id) (ecu_registry t) of
        None \<Rightarrow> [] | Some (_, e) \<Rightarrow> er_dependencies e)"

section \<open>Policies\<close>

record ecu_policy =
  pol_ecu_name :: string
  pol_dependencies :: "string list"
  pol_criticality :: string
  pol_on_unavailable :: string
  pol_on_dependency_failed :: string

definition unavailable_aborts_campaign :: "ecu_policy \<Rightarrow> bool" where
  "unavailable_aborts_campaign p \<longleftrightarrow>
     pol_criticality p = ''critical'' \<or> pol_on_unavailable p = ''abort_campaign''"

definition dependency_failure_aborts_campaign :: "ecu_policy \<Rightarrow> bool" where
  "dependency_failure_aborts_campaign p \<longleftrightarrow>
     pol_criticality p = ''critical'' \<or> pol_on_dependency_failed p = ''abort_campaign''"

definition policy_for :: "topology \<Rightarrow> string \<Rightarrow> ecu_policy" where
  "policy_for t ecu_name =
     (case map_of (ecu_registry t) ecu_name of
        None \<Rightarrow> \<lparr>pol_ecu_name = ecu_name, pol_dependencies = [], pol_criticality = ''optional'',
                 pol_on_unavailable = ''skip'', pol_on_dependency_failed = ''skip''\<rparr>
      | Some e \<Rightarrow> \<lparr>pol_ecu_name = ecu_name, pol_dependencies = er_dependencies e,
                 pol_criticality = er_criticality e, pol_on_unavailable = er_on_unavailable e,
                 pol_on_dependency_failed = er_on_dependency_failed e\<rparr>)"

section \<open>Validation\<close>

datatype topology_error =
  MissingZoneId | DuplicateZoneId string | InvalidServicePort string | DuplicateServicePort int |
  MissingChannel string | DuplicateChannel string | MissingEcuName string | DuplicateEcuName string |
  DuplicateLogicalAddress nat | DuplicateCanId nat | UnknownDependency string string |
  DependencyCycle "string list"

type_synonym dependency_table = "(string \<times> string list) list"

definition dependencies_of :: "dependency_table \<Rightarrow> string \<Rightarrow> string list" where
  "dependencies_of deps n = or_default (map_of deps n) []"

text \<open>
  The depth-first search of \<open>_dependency_cycle_errors\<close>: \<open>visit\<close> on each node of a list, with the
  nodes being visited, the path to them, and the nodes visited and errors so far.
\<close>

definition table_nodes :: "dependency_table \<Rightarrow> string set" where
  "table_nodes deps = fst ` set deps"

function visit_all ::
    "dependency_table \<Rightarrow> string set \<Rightarrow> string list \<Rightarrow> string list \<Rightarrow>
     string set \<times> topology_error list \<Rightarrow> string set \<times> topology_error list" where
  "visit_all deps visiting path [] st = st"
| "visit_all deps visiting path (node # nodes) st =
     visit_all deps visiting path nodes
       (if node \<in> visiting then (fst st, snd st @ [DependencyCycle (path @ [node])])
        else if node \<in> fst st then st
        else let st' = visit_all deps (insert node visiting) (path @ [node]) (dependencies_of deps node) st
             in (insert node (fst st'), snd st'))"
  by pat_completeness auto
termination
proof (relation "measures [\<lambda>(deps, visiting, _, nodes, _). card (table_nodes deps - visiting),
    \<lambda>(deps, visiting, _, nodes, _). length nodes]")
  fix deps :: dependency_table and visiting :: "string set" and path :: "string list" and node nodes
    and st :: "string set \<times> topology_error list"
  assume new: "node \<notin> visiting"
  have fin: "finite (table_nodes deps - visiting)" by (simp add: table_nodes_def)
  show "((deps, insert node visiting, path @ [node], dependencies_of deps node, st),
      (deps, visiting, path, node # nodes, st))
    \<in> measures [\<lambda>(deps, visiting, _, nodes, _). card (table_nodes deps - visiting),
        \<lambda>(deps, visiting, _, nodes, _). length nodes]"
  proof (cases "node \<in> table_nodes deps")
    case True
    with new have "table_nodes deps - insert node visiting \<subset> table_nodes deps - visiting" by blast
    with fin show ?thesis by (simp add: psubset_card_mono)
  next
    case False
    then have "table_nodes deps - insert node visiting = table_nodes deps - visiting" by blast
    moreover have "dependencies_of deps node = []"
    proof -
      have "map_of deps node = None" using False by (simp add: map_of_eq_None_iff table_nodes_def)
      then show ?thesis by (simp add: dependencies_of_def or_default_def)
    qed
    ultimately show ?thesis by simp
  qed
qed simp_all

declare visit_all.simps(2) [simp del]

definition dependency_cycle_errors :: "dependency_table \<Rightarrow> topology_error list" where
  "dependency_cycle_errors deps = snd (visit_all deps {} [] (map fst deps) ({}, []))"

section \<open>The search finds exactly the cycles\<close>

text \<open>\<open>depends deps\<close> relates a dependency to the ECU that needs it.\<close>

definition depends :: "dependency_table \<Rightarrow> (string \<times> string) set" where
  "depends deps = {(d, n). d \<in> set (dependencies_of deps n)}"

lemma depends_finite: "finite (depends deps)"
proof -
  have "depends deps \<subseteq> set (concat (map (\<lambda>(n, ds). map (\<lambda>d. (d, n)) ds) deps))"
  proof (intro subrelI)
    fix d n
    assume "(d, n) \<in> depends deps"
    then obtain ds where "map_of deps n = Some ds" and "d \<in> set ds"
      by (cases "map_of deps n") (auto simp: depends_def dependencies_of_def or_default_def)
    then have "(n, ds) \<in> set deps" and "d \<in> set ds" by (auto dest: map_of_SomeD)
    then show "(d, n) \<in> set (concat (map (\<lambda>(n, ds). map (\<lambda>d. (d, n)) ds) deps))"
      by (force intro: bexI [where x = "(n, ds)"])
  qed
  then show ?thesis by (rule finite_subset [OF _ finite_set])
qed

lemma visit_all_step:
  "visit_all deps visiting path (node # nodes) st =
     visit_all deps visiting path nodes
       (if node \<in> visiting then (fst st, snd st @ [DependencyCycle (path @ [node])])
        else if node \<in> fst st then st
        else (insert node (fst (visit_all deps (insert node visiting) (path @ [node]) (dependencies_of deps node) st)),
              snd (visit_all deps (insert node visiting) (path @ [node]) (dependencies_of deps node) st)))"
  by (simp add: visit_all.simps(2) Let_def)

lemma visit_all_errors: "\<exists>es. snd (visit_all deps visiting path nodes st) = snd st @ es"
proof (induction deps visiting path nodes st rule: visit_all.induct)
  case (1 deps visiting path st)
  then show ?case by simp
next
  case (2 deps visiting path node nodes st)
  obtain es where outer: "snd (visit_all deps visiting path (node # nodes) st) = snd (
      if node \<in> visiting then (fst st, snd st @ [DependencyCycle (path @ [node])])
      else if node \<in> fst st then st
      else (insert node (fst (visit_all deps (insert node visiting) (path @ [node]) (dependencies_of deps node) st)),
            snd (visit_all deps (insert node visiting) (path @ [node]) (dependencies_of deps node) st))) @ es"
    using "2.IH"(2) unfolding visit_all_step Let_def by blast
  show ?case
  proof (cases "node \<in> visiting \<or> node \<in> fst st")
    case True
    then show ?thesis using outer by auto
  next
    case False
    with "2.IH"(1) outer show ?thesis by auto
  qed
qed

text \<open>Without an error everything visited is well-founded.\<close>

lemma visit_all_no_error:
  "snd (visit_all deps visiting path nodes st) = [] \<Longrightarrow> fst st \<subseteq> Wellfounded.acc (depends deps) \<Longrightarrow>
   fst (visit_all deps visiting path nodes st) \<subseteq> Wellfounded.acc (depends deps) \<and>
   set nodes \<union> fst st \<subseteq> fst (visit_all deps visiting path nodes st)"
proof (induction deps visiting path nodes st rule: visit_all.induct)
  case (1 deps visiting path st)
  then show ?case by simp
next
  case (2 deps visiting path node nodes st)
  let ?inner = "visit_all deps (insert node visiting) (path @ [node]) (dependencies_of deps node) st"
  let ?run = "visit_all deps visiting path (node # nodes) st"
  let ?A = "Wellfounded.acc (depends deps)"
  consider (seen) "node \<in> visiting" | (old) "node \<notin> visiting" "node \<in> fst st"
    | (new) "node \<notin> visiting" "node \<notin> fst st" by blast
  then show ?case
  proof cases
    case seen
    obtain es where "snd ?run = (snd st @ [DependencyCycle (path @ [node])]) @ es"
      using visit_all_errors [of deps visiting path nodes "(fst st, snd st @ [DependencyCycle (path @ [node])])"] seen
      by (auto simp: visit_all_step)
    with "2.prems"(1) show ?thesis by simp
  next
    case old
    then have run: "?run = visit_all deps visiting path nodes st" by (simp add: visit_all_step)
    have "snd ?run = [] \<Longrightarrow> fst st \<subseteq> ?A \<Longrightarrow> fst ?run \<subseteq> ?A \<and> set nodes \<union> fst st \<subseteq> fst ?run"
      using "2.IH"(2) by (simp only: old run if_False if_True)
    with "2.prems" old(2) show ?thesis by (simp only: list.set) blast
  next
    case new
    then have run: "?run = visit_all deps visiting path nodes (insert node (fst ?inner), snd ?inner)"
      by (simp add: visit_all_step)
    obtain es where "snd ?run = snd ?inner @ es"
      using visit_all_errors [of deps visiting path nodes "(insert node (fst ?inner), snd ?inner)"] run by auto
    with "2.prems"(1) have "snd ?inner = []" by simp
    with "2.IH"(1) [OF new] "2.prems"(2)
    have inner: "fst ?inner \<subseteq> ?A" "set (dependencies_of deps node) \<union> fst st \<subseteq> fst ?inner" by blast+
    have "node \<in> ?A"
    proof (rule accI)
      fix d
      assume "(d, node) \<in> depends deps"
      then have "d \<in> set (dependencies_of deps node)" by (simp add: depends_def)
      with inner show "d \<in> ?A" by blast
    qed
    with inner(1) have "insert node (fst ?inner) \<subseteq> ?A" by blast
    moreover have "snd ?run = [] \<Longrightarrow> insert node (fst ?inner) \<subseteq> ?A \<Longrightarrow>
        fst ?run \<subseteq> ?A \<and> set nodes \<union> insert node (fst ?inner) \<subseteq> fst ?run"
      using "2.IH"(2) by (simp only: new run if_False Let_def fst_conv)
    ultimately show ?thesis using "2.prems"(1) inner(2) by (simp only: list.set) blast
  qed
qed

text \<open>An error needs a cycle, because every node being visited leads to the nodes still to visit.\<close>

lemma visit_all_error:
  "(\<And>w n. w \<in> visiting \<Longrightarrow> n \<in> set nodes \<Longrightarrow> (n, w) \<in> (depends deps)\<^sup>+) \<Longrightarrow> acyclic (depends deps) \<Longrightarrow>
   snd (visit_all deps visiting path nodes st) = snd st"
proof (induction deps visiting path nodes st rule: visit_all.induct)
  case (1 deps visiting path st)
  then show ?case by simp
next
  case (2 deps visiting path node nodes st)
  let ?inner = "visit_all deps (insert node visiting) (path @ [node]) (dependencies_of deps node) st"
  have unseen: "node \<notin> visiting" using "2.prems" by (auto simp: acyclic_def)
  show ?case
  proof (cases "node \<in> fst st")
    case True
    with unseen "2.IH"(2) "2.prems" show ?thesis by (simp add: visit_all_step)
  next
    case False
    have "(n, w) \<in> (depends deps)\<^sup>+" if "w \<in> insert node visiting" "n \<in> set (dependencies_of deps node)" for w n
    proof -
      have "(n, node) \<in> depends deps" using that(2) by (simp add: depends_def)
      with that(1) "2.prems"(1) show ?thesis by (auto intro: trancl_into_trancl2)
    qed
    with "2.IH"(1) [OF unseen False] "2.prems"(2) have "snd ?inner = snd st" by blast
    with unseen False "2.IH"(2) "2.prems" show ?thesis by (simp add: visit_all_step Let_def)
  qed
qed

lemma dependency_cycle_errors_iff: "dependency_cycle_errors deps = [] \<longleftrightarrow> acyclic (depends deps)"
proof
  assume "dependency_cycle_errors deps = []"
  then have "set (map fst deps) \<subseteq> Wellfounded.acc (depends deps)"
    using visit_all_no_error [of deps "{}" "[]" "map fst deps" "({}, [])"]
    by (auto simp: dependency_cycle_errors_def)
  moreover have "n \<in> Wellfounded.acc (depends deps)" if "n \<notin> set (map fst deps)" for n
  proof -
    have "map_of deps n = None" using that by (simp add: map_of_eq_None_iff)
    then have "(d, n) \<notin> depends deps" for d
      by (simp add: depends_def dependencies_of_def or_default_def)
    then show ?thesis by (blast intro: accI)
  qed
  ultimately have "\<forall>n. n \<in> Wellfounded.acc (depends deps)" by blast
  then show "acyclic (depends deps)" by (blast intro: acc_wfI wf_acyclic)
next
  assume "acyclic (depends deps)"
  then show "dependency_cycle_errors deps = []"
    unfolding dependency_cycle_errors_def
    using visit_all_error [of "{}" "map fst deps" deps "[]" "({}, [])"] by simp
qed

section \<open>\<open>validate\<close>\<close>

record validation =
  va_zone_ids :: "string set"
  va_service_ports :: "int set"
  va_can_channels :: "string set"
  va_ecu_names :: "string set"
  va_logical_addresses :: "nat set"
  va_can_ids :: "nat set"
  va_dependencies :: dependency_table
  va_errors :: "topology_error list"

definition add_errors :: "topology_error list \<Rightarrow> validation \<Rightarrow> validation" where
  "add_errors es v = v\<lparr>va_errors := va_errors v @ es\<rparr>"

definition validate_ecu :: "string \<Rightarrow> validation \<Rightarrow> topology_ecu \<Rightarrow> validation" where
  "validate_ecu zone_id v e =
     (if te_ecu_name e = [] then add_errors [MissingEcuName zone_id] v
      else
        (add_errors
          ((if te_ecu_name e \<in> va_ecu_names v then [DuplicateEcuName (te_ecu_name e)] else []) @
           (if te_logical_address e \<in> va_logical_addresses v
            then [DuplicateLogicalAddress (te_logical_address e)] else []) @
           (if te_can_id e \<in> va_can_ids v then [DuplicateCanId (te_can_id e)] else [])) v)
          \<lparr>va_ecu_names := insert (te_ecu_name e) (va_ecu_names v),
           va_logical_addresses := insert (te_logical_address e) (va_logical_addresses v),
           va_can_ids := insert (te_can_id e) (va_can_ids v),
           va_dependencies := AList.update (te_ecu_name e) (te_dependencies e) (va_dependencies v)\<rparr>)"

definition validate_zone :: "validation \<Rightarrow> topology_zone \<Rightarrow> validation" where
  "validate_zone v z =
     (let zone_id = tz_zone_id z; port = tz_service_port z; channel = tz_channel z;
          v = (add_errors
            ((if zone_id = [] then [MissingZoneId]
              else if zone_id \<in> va_zone_ids v then [DuplicateZoneId zone_id] else []) @
             (if port \<le> 0 then [InvalidServicePort zone_id]
              else if port \<in> va_service_ports v then [DuplicateServicePort port] else []) @
             (if channel = [] then [MissingChannel zone_id]
              else if channel \<in> va_can_channels v then [DuplicateChannel channel] else [])) v)
            \<lparr>va_zone_ids := insert zone_id (va_zone_ids v),
             va_service_ports := insert port (va_service_ports v),
             va_can_channels := insert channel (va_can_channels v)\<rparr>
      in foldl (validate_ecu zone_id) v (tz_ecus z))"

definition unknown_dependencies :: "validation \<Rightarrow> topology_error list" where
  "unknown_dependencies v =
     concat (map (\<lambda>(ecu_name, deps). map (UnknownDependency ecu_name)
       (filter (\<lambda>d. d \<notin> va_ecu_names v) deps)) (va_dependencies v))"

definition empty_validation :: validation where
  "empty_validation = \<lparr>va_zone_ids = {}, va_service_ports = {}, va_can_channels = {}, va_ecu_names = {},
     va_logical_addresses = {}, va_can_ids = {}, va_dependencies = [], va_errors = []\<rparr>"

definition validate_topology :: "topology \<Rightarrow> topology_error list" where
  "validate_topology t =
     (let v = foldl validate_zone empty_validation (tp_zones t)
      in va_errors v @ unknown_dependencies v @ dependency_cycle_errors (va_dependencies v))"

section \<open>What a valid topology guarantees\<close>

abbreviation all_ecus :: "topology \<Rightarrow> topology_ecu list" where
  "all_ecus t \<equiv> concat (map tz_ecus (tp_zones t))"

lemma add_errors_simps [simp]:
  "va_errors (add_errors es v) = va_errors v @ es" "va_dependencies (add_errors es v) = va_dependencies v"
  "va_ecu_names (add_errors es v) = va_ecu_names v" "va_can_ids (add_errors es v) = va_can_ids v"
  "va_logical_addresses (add_errors es v) = va_logical_addresses v"
  by (simp_all add: add_errors_def)

text \<open>While no error is found, the tables hold what was read, once.\<close>

definition reads :: "validation \<Rightarrow> topology_ecu list \<Rightarrow> bool" where
  "reads v es \<longleftrightarrow> va_errors v = [] \<longrightarrow>
     distinct (map te_ecu_name es) \<and> distinct (map te_logical_address es) \<and> distinct (map te_can_id es) \<and>
     va_ecu_names v = set (map te_ecu_name es) \<and> va_logical_addresses v = set (map te_logical_address es) \<and>
     va_can_ids v = set (map te_can_id es) \<and>
     va_dependencies v = map (\<lambda>e. (te_ecu_name e, te_dependencies e)) es"

lemma update_new: "k \<notin> fst ` set d \<Longrightarrow> AList.update k v d = d @ [(k, v)]"
  by (induction d) auto

lemma reads_ecu: "reads v es \<Longrightarrow> reads (validate_ecu zone_id v e) (es @ [e])"
proof -
  assume r: "reads v es"
  show ?thesis
  proof (cases "te_ecu_name e = []")
    case True
    then show ?thesis by (simp add: reads_def validate_ecu_def)
  next
    case False
    show ?thesis
      unfolding reads_def
    proof (intro impI)
      assume ok: "va_errors (validate_ecu zone_id v e) = []"
      then have none: "va_errors v = []" and new: "te_ecu_name e \<notin> va_ecu_names v"
        "te_logical_address e \<notin> va_logical_addresses v" "te_can_id e \<notin> va_can_ids v"
        using False by (auto simp: validate_ecu_def split: if_splits)
      with r have "te_ecu_name e \<notin> fst ` set (va_dependencies v)" by (auto simp: reads_def)
      with r none new False show "distinct (map te_ecu_name (es @ [e])) \<and>
          distinct (map te_logical_address (es @ [e])) \<and> distinct (map te_can_id (es @ [e])) \<and>
          va_ecu_names (validate_ecu zone_id v e) = set (map te_ecu_name (es @ [e])) \<and>
          va_logical_addresses (validate_ecu zone_id v e) = set (map te_logical_address (es @ [e])) \<and>
          va_can_ids (validate_ecu zone_id v e) = set (map te_can_id (es @ [e])) \<and>
          va_dependencies (validate_ecu zone_id v e) = map (\<lambda>e. (te_ecu_name e, te_dependencies e)) (es @ [e])"
        by (simp add: reads_def validate_ecu_def update_new)
    qed
  qed
qed

lemma reads_ecus: "reads v es \<Longrightarrow> reads (foldl (validate_ecu zone_id) v xs) (es @ xs)"
proof (induction xs arbitrary: v es)
  case (Cons x xs)
  from Cons.IH [OF reads_ecu [OF Cons.prems]] show ?case by simp
qed simp

definition reads_zones :: "validation \<Rightarrow> topology_zone list \<Rightarrow> bool" where
  "reads_zones v zs \<longleftrightarrow> reads v (concat (map tz_ecus zs)) \<and>
     (va_errors v = [] \<longrightarrow> distinct (map tz_zone_id zs) \<and> va_zone_ids v = set (map tz_zone_id zs))"

lemma validate_ecu_zones:
  "va_zone_ids (validate_ecu z v e) = va_zone_ids v" "\<exists>errs. va_errors (validate_ecu z v e) = va_errors v @ errs"
  by (simp_all add: validate_ecu_def add_errors_def)

lemma validate_ecus_zones: "va_zone_ids (foldl (validate_ecu z) v es) = va_zone_ids v"
  by (induction es arbitrary: v) (simp_all add: validate_ecu_zones)

lemma validate_ecus_errors: "\<exists>errs. va_errors (foldl (validate_ecu z) v es) = va_errors v @ errs"
proof (induction es arbitrary: v)
  case (Cons e es)
  obtain errs where "va_errors (validate_ecu z v e) = va_errors v @ errs" using validate_ecu_zones(2) by blast
  with Cons.IH [of "validate_ecu z v e"] show ?case by auto
qed simp

lemma reads_zone: "reads_zones v zs \<Longrightarrow> reads_zones (validate_zone v z) (zs @ [z])"
proof -
  assume r: "reads_zones v zs"
  let ?es = "(if tz_zone_id z = [] then [MissingZoneId]
       else if tz_zone_id z \<in> va_zone_ids v then [DuplicateZoneId (tz_zone_id z)] else []) @
      (if tz_service_port z \<le> 0 then [InvalidServicePort (tz_zone_id z)]
       else if tz_service_port z \<in> va_service_ports v then [DuplicateServicePort (tz_service_port z)] else []) @
      (if tz_channel z = [] then [MissingChannel (tz_zone_id z)]
       else if tz_channel z \<in> va_can_channels v then [DuplicateChannel (tz_channel z)] else [])"
  define w where "w = (add_errors ?es v)
      \<lparr>va_zone_ids := insert (tz_zone_id z) (va_zone_ids v),
       va_service_ports := insert (tz_service_port z) (va_service_ports v),
       va_can_channels := insert (tz_channel z) (va_can_channels v)\<rparr>"
  have step: "validate_zone v z = foldl (validate_ecu (tz_zone_id z)) w (tz_ecus z)"
    by (simp add: validate_zone_def Let_def w_def)
  have "reads w (concat (map tz_ecus zs))"
    using r by (simp add: reads_zones_def reads_def w_def)
  then have "reads (validate_zone v z) (concat (map tz_ecus (zs @ [z])))"
    unfolding step using reads_ecus by simp
  moreover have "distinct (map tz_zone_id (zs @ [z])) \<and>
      va_zone_ids (validate_zone v z) = set (map tz_zone_id (zs @ [z]))" if ok: "va_errors (validate_zone v z) = []"
  proof -
    obtain errs where "va_errors (validate_zone v z) = va_errors w @ errs"
      using validate_ecus_errors unfolding step by blast
    with ok have "va_errors w = []" by simp
    then have none: "va_errors v = []" "tz_zone_id z \<notin> va_zone_ids v"
      by (auto simp: w_def split: if_splits)
    with r show ?thesis by (auto simp: reads_zones_def step validate_ecus_zones) (auto simp: w_def)
  qed
  ultimately show ?thesis by (simp add: reads_zones_def)
qed

lemma reads_topology: "reads_zones (foldl validate_zone empty_validation zs) zs"
proof (induction zs rule: rev_induct)
  case Nil
  show ?case by (simp add: reads_zones_def reads_def empty_validation_def)
next
  case (snoc z zs)
  then show ?case by (simp add: reads_zone)
qed

lemma foldl_update_fresh:
  "distinct (map fst d @ map k xs) \<Longrightarrow>
     foldl (\<lambda>d x. AList.update (k x) (f x) d) d xs = d @ map (\<lambda>x. (k x, f x)) xs"
proof (induction xs arbitrary: d)
  case (Cons x xs)
  then have "AList.update (k x) (f x) d = d @ [(k x, f x)]" by (intro update_new) auto
  with Cons show ?case by simp
qed simp

lemma registry_of_distinct:
  assumes "distinct (map tz_zone_id (tp_zones t))" and "distinct (map te_logical_address (all_ecus t))"
    and "distinct (map te_ecu_name (all_ecus t))"
  shows "map_of (ecu_registry t) n = map_option (\<lambda>(z, e). registration_of (zone_config_of t z)
      (te_logical_address e, zone_ecu_of e))
    (map_of (concat (map (\<lambda>z. map (\<lambda>e. (te_ecu_name e, (z, e))) (tz_ecus z)) (tp_zones t))) n)"
proof -
  have zones: "build_zone_registry t = map (\<lambda>z. (tz_zone_id z, zone_config_of t z)) (tp_zones t)"
    using foldl_update_fresh [of "[]" tz_zone_id "tp_zones t" "zone_config_of t"] assms(1)
    by (simp add: build_zone_registry_def)
  have ecus: "zc_ecus (zone_config_of t z) = map (\<lambda>e. (te_logical_address e, zone_ecu_of e)) (tz_ecus z)"
    if "z \<in> set (tp_zones t)" for z
  proof -
    have "distinct (map te_logical_address (tz_ecus z))"
      using assms(2) that by (auto simp: map_concat distinct_concat_iff)
    then show ?thesis
      using foldl_update_fresh [of "[]" te_logical_address "tz_ecus z" zone_ecu_of] by (simp add: zone_config_of_def)
  qed
  have ze_name: "ze_ecu_name (zone_ecu_of e) = te_ecu_name e" for e by (simp add: zone_ecu_of_def)
  let ?entry = "\<lambda>z e. (zone_config_of t z, (te_logical_address e, zone_ecu_of e))"
  let ?pairs = "concat (map (\<lambda>z. map (Pair z) (tz_ecus z)) (tp_zones t))"
  have "concat (map (\<lambda>(_, z). map (Pair z) (zc_ecus z)) (build_zone_registry t)) =
      concat (map (\<lambda>z. map (\<lambda>e. ?entry z e) (tz_ecus z)) (tp_zones t))"
    unfolding zones by (intro arg_cong [where f = concat]) (simp add: ecus)
  also have "\<dots> = map (\<lambda>(z, e). ?entry z e) ?pairs"
    by (simp add: map_concat comp_def)
  finally have reg: "ecu_registry t = foldl (\<lambda>d (z, e). AList.update (te_ecu_name e)
      (registration_of (zone_config_of t z) (te_logical_address e, zone_ecu_of e)) d) [] ?pairs"
    by (simp add: ecu_registry_def foldl_map case_prod_unfold ze_name)
  have "distinct (map (\<lambda>(z, e). te_ecu_name e) ?pairs)"
    using assms(3) by (simp add: map_concat comp_def)
  then have "ecu_registry t = map (\<lambda>(z, e). (te_ecu_name e,
      registration_of (zone_config_of t z) (te_logical_address e, zone_ecu_of e))) ?pairs"
    unfolding reg
    using foldl_update_fresh [of "[]" "\<lambda>(z, e). te_ecu_name e" ?pairs
        "\<lambda>(z, e). registration_of (zone_config_of t z) (te_logical_address e, zone_ecu_of e)"]
    by (simp add: case_prod_unfold)
  also have "\<dots> = map (\<lambda>(n, p). (n, (case p of (z, e) \<Rightarrow> registration_of (zone_config_of t z)
      (te_logical_address e, zone_ecu_of e)))) (concat (map (\<lambda>z. map (\<lambda>e. (te_ecu_name e, (z, e))) (tz_ecus z)) (tp_zones t)))"
    by (simp add: map_concat comp_def)
  finally show ?thesis by (simp only: map_of_map comp_def)
qed

lemma policy_dependencies:
  assumes "distinct (map tz_zone_id (tp_zones t))" and "distinct (map te_logical_address (all_ecus t))"
    and "distinct (map te_ecu_name (all_ecus t))"
  shows "pol_dependencies (policy_for t n) =
    dependencies_of (map (\<lambda>e. (te_ecu_name e, te_dependencies e)) (all_ecus t)) n"
proof -
  let ?pairs = "concat (map (\<lambda>z. map (\<lambda>e. (te_ecu_name e, (z, e))) (tz_ecus z)) (tp_zones t))"
  have "map (\<lambda>e. (te_ecu_name e, te_dependencies e)) (all_ecus t) = map (\<lambda>(n, p). (n, te_dependencies (snd p))) ?pairs"
    by (simp add: map_concat comp_def)
  then have "map_of (map (\<lambda>e. (te_ecu_name e, te_dependencies e)) (all_ecus t)) n =
      map_option (\<lambda>p. te_dependencies (snd p)) (map_of ?pairs n)"
    by (simp add: map_of_map comp_def)
  then show ?thesis
    using registry_of_distinct [OF assms, of n]
    by (cases "map_of ?pairs n")
      (auto simp: policy_for_def dependencies_of_def or_default_def registration_of_def zone_ecu_of_def)
qed


text \<open>The ECUs of the shipped topology.\<close>

definition demo_ecu_entry :: "string \<Rightarrow> nat \<Rightarrow> nat \<Rightarrow> string list \<Rightarrow> string \<Rightarrow> topology_ecu" where
  "demo_ecu_entry n a c ds crit =
     \<lparr>te_ecu_name = n, te_logical_address = a, te_can_id = c, te_dependencies = ds,
      te_criticality = Some crit, te_on_unavailable = None, te_on_dependency_failed = None\<rparr>"

definition demo_topology :: topology where
  "demo_topology =
     \<lparr>tp_ota_allowed_services = [0x10, 0x22, 0x27, 0x31, 0x34, 0x36, 0x37, 0x11, 0x3E],
      tp_zones =
       [\<lparr>tz_zone_id = ''central'', tz_display_name = ''Central'', tz_channel = ''vcan0'', tz_service_port = 15001,
         tz_default_health = None, tz_programming_allowed = None, tz_allowed_services = OtaDefault,
         tz_ecus = [demo_ecu_entry ''Gateway ECU'' 0x1001 0x201 [] ''critical'']\<rparr>,
        \<lparr>tz_zone_id = ''body'', tz_display_name = ''Body'', tz_channel = ''vcan1'', tz_service_port = 15002,
         tz_default_health = None, tz_programming_allowed = None, tz_allowed_services = OtaDefault,
         tz_ecus = [demo_ecu_entry ''BCM ECU'' 0x1002 0x202 [''Gateway ECU''] ''critical'',
                    demo_ecu_entry ''Cluster ECU'' 0x1003 0x203 [''BCM ECU''] ''optional'']\<rparr>]\<rparr>"

lemmas demo_topology_defs = demo_topology_def demo_ecu_entry_def zone_config_of_def zone_ecu_of_def or_default_def

lemma demo_registry:
  "ecu_registry demo_topology =
     map (\<lambda>(n, a, c, z, ch, ds, crit). (n, \<lparr>er_logical_address = a, er_can_id = c, er_zone_id = z, er_can_channel = ch,
        er_dependencies = ds, er_criticality = crit, er_on_unavailable = ''skip'', er_on_dependency_failed = ''skip''\<rparr>))
      [(''Gateway ECU'', 0x1001, 0x201, ''central'', ''vcan0'', [], ''critical''),
       (''BCM ECU'', 0x1002, 0x202, ''body'', ''vcan1'', [''Gateway ECU''], ''critical''),
       (''Cluster ECU'', 0x1003, 0x203, ''body'', ''vcan1'', [''BCM ECU''], ''optional'')]"
  by (simp add: ecu_registry_def build_zone_registry_def registration_of_def demo_topology_defs)

lemma demo_policy:
  "policy_for demo_topology ''Gateway ECU'' = \<lparr>pol_ecu_name = ''Gateway ECU'', pol_dependencies = [],
     pol_criticality = ''critical'', pol_on_unavailable = ''skip'', pol_on_dependency_failed = ''skip''\<rparr>"
  "policy_for demo_topology ''BCM ECU'' = \<lparr>pol_ecu_name = ''BCM ECU'', pol_dependencies = [''Gateway ECU''],
     pol_criticality = ''critical'', pol_on_unavailable = ''skip'', pol_on_dependency_failed = ''skip''\<rparr>"
  "policy_for demo_topology ''Cluster ECU'' = \<lparr>pol_ecu_name = ''Cluster ECU'', pol_dependencies = [''BCM ECU''],
     pol_criticality = ''optional'', pol_on_unavailable = ''skip'', pol_on_dependency_failed = ''skip''\<rparr>"
  by (simp_all add: policy_for_def demo_registry)


end
