(* ===== verification/Update_Planner.thy ===== *)
theory Update_Planner
  imports Dependency_Graph Vehicle_Topology Versions
begin

text \<open>
  From a campaign and the discovered vehicle to the plan of an update: \<open>tcu/models/campaign.py\<close>,
  \<open>tcu/models/ecu.py\<close> and \<open>tcu/dynamic_update_planner.py\<close> (\<open>DynamicUpdatePlanner\<close>).

  Dicts are association lists in insertion order; Python sets are lists of which only the elements
  matter: the code sorts them or tests membership, except for the order of error texts, which
  the iteration order of a set leaves open.
\<close>

section \<open>Campaigns and vehicles\<close>

record campaign_target =
  ct_ecu_name :: string
  ct_target_version :: string
  ct_minimum_supported_version :: string
  ct_hardware_variant :: string
  ct_minimum_bootloader :: string
  ct_mandatory :: bool
  ct_priority :: int
  ct_skip_if_unavailable :: bool
  ct_skip_if_incompatible :: bool

record campaign =
  cg_campaign_id :: string
  cg_vehicle_model :: string
  cg_release_version :: string
  cg_transport :: string
  cg_targets :: "campaign_target list"
  cg_dependency_overrides :: "(string \<times> string list) list"
  cg_approved_targets :: "string list"
  cg_skipped_optional_targets :: "(string \<times> string) list"

record ecu =
  ecu_id :: nat
  ecu_name :: string
  ecu_current_version :: string
  ecu_transport :: string
  ecu_dependencies :: "string list"
  ecu_hardware_variant :: string
  ecu_bootloader_version :: string
  ecu_rollback_supported :: bool
  ecu_target_version :: string
  ecu_run_state :: string
  ecu_health :: string
  ecu_update_status :: string

type_synonym vehicle = "ecu list"

definition dict_of :: "('a \<Rightarrow> 'k) \<Rightarrow> 'a list \<Rightarrow> ('k \<times> 'a) list" where
  "dict_of key xs = foldl (\<lambda>d x. AList.update (key x) x d) [] xs"

section \<open>The plan\<close>

datatype classification =
  Eligible | SkippedOptional string | AbortRequired string | AlreadySatisfied | BlockedByDependency string

datatype planning_error =
  NotDiscovered string | NotEligible string | UnknownEcu string string | CycleDetected string |
  BlockingDependencies string "string list"

record update_plan =
  up_update_order :: "string list"
  up_dependency_map :: "(string \<times> string list) list"
  up_dependency_sources :: "(string \<times> string) list"
  up_classifications :: "(string \<times> classification) list"
  up_blocking_errors :: "planning_error list"

definition executable :: "update_plan \<Rightarrow> bool" where
  "executable p \<longleftrightarrow> up_blocking_errors p = []"

definition version_matches :: "string \<Rightarrow> string \<Rightarrow> bool" where
  "version_matches current target =
     (if current = [] \<or> target = [] then False
      else case version_eq (VersionText current) (VersionText target) of
        Inr b \<Rightarrow> b | Inl _ \<Rightarrow> current = target)"

text \<open>The body of the first loop of \<open>plan\<close>.\<close>

definition classify ::
    "topology \<Rightarrow> vehicle \<Rightarrow> campaign \<Rightarrow> string list \<Rightarrow> string \<times> campaign_target \<Rightarrow>
     classification \<times> planning_error list" where
  "classify topo vehicle camp eligible entry =
     (let (name, target) = entry; policy = policy_for topo name in
      if name \<in> set eligible then (Eligible, [])
      else case map_of (dict_of fst (cg_skipped_optional_targets camp)) name of
        Some (_, reason) \<Rightarrow> (SkippedOptional reason, [])
      | None \<Rightarrow>
          (case map_of (dict_of ecu_name vehicle) name of
             None \<Rightarrow>
               if ct_mandatory target \<and> \<not> ct_skip_if_unavailable target \<and> unavailable_aborts_campaign policy
               then (AbortRequired ''ECU_NOT_FOUND'', [NotDiscovered name])
               else (SkippedOptional ''ECU_NOT_FOUND'', [])
           | Some e \<Rightarrow>
               if version_matches (ecu_current_version e) (ct_target_version target)
               then (AlreadySatisfied, [])
               else if (ct_mandatory target \<and> \<not> ct_skip_if_incompatible target) \<or>
                       (unavailable_aborts_campaign policy \<and> \<not> ct_skip_if_incompatible target)
               then (AbortRequired ''NOT_ELIGIBLE'', [NotEligible name])
               else (SkippedOptional ''NOT_ELIGIBLE'', [])))"

section \<open>Dependencies\<close>

definition dependency_lookup :: "(string \<times> string list) list \<Rightarrow> string \<Rightarrow> string list" where
  "dependency_lookup d n = or_default (map_of d n) []"

definition resolve_one ::
    "topology \<Rightarrow> campaign \<Rightarrow> string \<Rightarrow> string list \<times> string" where
  "resolve_one topo camp name =
     (case map_of (cg_dependency_overrides camp) name of
        Some ds \<Rightarrow> (remdups ds, ''campaign_overrides'')
      | None \<Rightarrow>
          (let ds = remdups (pol_dependencies (policy_for topo name))
           in (ds, if ds \<noteq> [] then ''vehicle_topology'' else ''none'')))"

definition graph_of :: "string list \<Rightarrow> (string \<times> string list) list \<Rightarrow> dep_graph" where
  "graph_of names dependency_map =
     foldl (\<lambda>g (parent, child). add_dependency parent child g)
       (foldl (\<lambda>g n. add_node n g) empty_graph names)
       (concat (map (\<lambda>n. map (\<lambda>d. (d, n)) (filter (\<lambda>d. d \<in> set names) (dependency_lookup dependency_map n))) names))"

definition validate_cycle :: "(string \<times> string list) list \<Rightarrow> planning_error list" where
  "validate_cycle dependency_map =
     (case topological_plan (graph_of (map fst dependency_map) dependency_map) (\<lambda>_. None) of
        Inr _ \<Rightarrow> [] | Inl (RuntimeError m) \<Rightarrow> [CycleDetected m] | Inl _ \<Rightarrow> [])"

definition resolve_dependencies ::
    "topology \<Rightarrow> string list \<Rightarrow> campaign \<Rightarrow>
     (string \<times> string list) list \<times> (string \<times> string) list \<times> planning_error list" where
  "resolve_dependencies topo names camp =
     (let known = map fst (ecu_registry topo) @ names;
          dependency_map = map (\<lambda>n. (n, fst (resolve_one topo camp n))) names;
          sources = map (\<lambda>n. (n, snd (resolve_one topo camp n))) names;
          errors = concat (map (\<lambda>(n, ds). map (UnknownEcu n) (filter (\<lambda>d. d \<notin> set known) ds)) dependency_map)
      in (dependency_map, sources, if errors = [] then validate_cycle dependency_map else errors))"

section \<open>Blocked ECUs\<close>

definition is_skipped :: "classification \<Rightarrow> bool" where
  "is_skipped c \<longleftrightarrow> (case c of
     SkippedOptional _ \<Rightarrow> True | BlockedByDependency _ \<Rightarrow> True | AbortRequired _ \<Rightarrow> True | _ \<Rightarrow> False)"

definition names_with :: "(classification \<Rightarrow> bool) \<Rightarrow> (string \<times> classification) list \<Rightarrow> string list" where
  "names_with P cs = map fst (filter (\<lambda>(_, c). P c) cs)"

definition missing_dependencies ::
    "(string \<times> string list) list \<Rightarrow> string list \<Rightarrow> string list \<Rightarrow> string \<Rightarrow> string list" where
  "missing_dependencies dependency_map names satisfied n =
     filter (\<lambda>d. d \<notin> set names \<and> d \<notin> set satisfied) (dependency_lookup dependency_map n)"

text \<open>
  The \<open>while changed\<close> loop: each round removes the first blocked ECU in sorted order.
  \<open>names\<close> are the executable names, \<open>cs\<close> the classifications, \<open>es\<close> the blocking errors.
\<close>

function block_loop ::
    "topology \<Rightarrow> (string \<times> string list) list \<Rightarrow> string list \<Rightarrow>
     string list \<Rightarrow> (string \<times> classification) list \<Rightarrow> planning_error list \<Rightarrow>
     string list \<times> (string \<times> classification) list \<times> planning_error list" where
  "block_loop topo dm satisfied names cs es =
     (case List.find (\<lambda>n. missing_dependencies dm names satisfied n \<noteq> []) (sort names) of
        None \<Rightarrow> (names, cs, es)
      | Some n \<Rightarrow>
          let missing = missing_dependencies dm names satisfied n;
              reason = (if \<exists>d \<in> set missing. d \<in> set (names_with is_skipped cs)
                        then ''DEPENDENCY_SKIPPED'' else ''DEPENDENCY_UNAVAILABLE'')
          in block_loop topo dm satisfied (removeAll n names)
               (AList.update n (BlockedByDependency reason) cs)
               (es @ (if dependency_failure_aborts_campaign (policy_for topo n)
                      then [BlockingDependencies n (sort missing)] else [])))"
  by pat_completeness auto
termination
proof (relation "measure (\<lambda>(_, _, _, names, _, _). length names)")
  fix topo dm satisfied names cs es n missing reason
  assume "List.find (\<lambda>n. missing_dependencies dm names satisfied n \<noteq> []) (sort names) = Some n"
  then have "n \<in> set names" by (auto simp: find_Some_iff) (metis nth_mem set_sort length_sort)
  then have "length (removeAll n names) < length names" by (simp add: length_removeAll_less)
  then show "((topo, dm, satisfied, removeAll n names, AList.update n (BlockedByDependency reason) cs,
      es @ (if dependency_failure_aborts_campaign (policy_for topo n)
            then [BlockingDependencies n (sort missing)] else [])), topo, dm, satisfied, names, cs, es)
    \<in> measure (\<lambda>(_, _, _, names, _, _). length names)"
    by simp
qed simp

declare block_loop.simps [simp del]

definition plan_classifications ::
    "topology \<Rightarrow> vehicle \<Rightarrow> campaign \<Rightarrow> string list \<Rightarrow> (string \<times> classification) list" where
  "plan_classifications topo vehicle camp eligible =
     map (\<lambda>entry. (fst entry, fst (classify topo vehicle camp eligible entry)))
       (dict_of ct_ecu_name (cg_targets camp))"

definition target_priority :: "campaign \<Rightarrow> priorities" where
  "target_priority camp n = map_option ct_priority (map_of (dict_of ct_ecu_name (cg_targets camp)) n)"

text \<open>\<open>plan\<close>; the last topological sort may raise.\<close>

definition dynamic_plan :: "topology \<Rightarrow> vehicle \<Rightarrow> campaign \<Rightarrow> string list \<Rightarrow> update_plan result" where
  "dynamic_plan topo vehicle camp eligible =
     (let targets = dict_of ct_ecu_name (cg_targets camp);
          cs = plan_classifications topo vehicle camp eligible;
          es = concat (map (\<lambda>entry. snd (classify topo vehicle camp eligible entry)) targets);
          (dm, sources, dependency_errors) = resolve_dependencies topo (map fst targets) camp;
          (names, cs', es') = block_loop topo dm (names_with (\<lambda>c. c = AlreadySatisfied) cs)
             (names_with (\<lambda>c. c = Eligible) cs) cs (es @ dependency_errors)
      in bindE (if names = [] then Inr []
                else topological_plan (graph_of names dm) (target_priority camp))
           (\<lambda>order. Inr \<lparr>up_update_order = order, up_dependency_map = dm, up_dependency_sources = sources,
              up_classifications = cs', up_blocking_errors = es'\<rparr>))"

section \<open>The graph of a set of names\<close>

lemma graph_of_facts:
  "graph_ok (graph_of names dm) \<and> set (dg_nodes (graph_of names dm)) = set names \<and>
   edges (graph_of names dm) = {(d, n). n \<in> set names \<and> d \<in> set names \<and> d \<in> set (dependency_lookup dm n)}"
proof -
  let ?base = "foldl (\<lambda>g n. add_node n g) empty_graph"
  have base: "graph_ok (?base ns) \<and> set (dg_nodes (?base ns)) = set ns \<and> edges (?base ns) = {}" for ns
    by (induction ns rule: rev_induct)
      (auto simp: graph_ok_empty graph_ok_add_node)
  have fold: "graph_ok (foldl (\<lambda>g (p, c). add_dependency p c g) g es) \<and>
      set (dg_nodes (foldl (\<lambda>g (p, c). add_dependency p c g) g es)) = set (dg_nodes g) \<union> fst ` set es \<union> snd ` set es \<and>
      edges (foldl (\<lambda>g (p, c). add_dependency p c g) g es) = edges g \<union> set es" if "graph_ok g" for g es
  proof (induction es rule: rev_induct)
    case Nil
    with that show ?case by simp
  next
    case (snoc e es)
    obtain p c where e: "e = (p, c)" by (cases e)
    let ?g = "foldl (\<lambda>g (p, c). add_dependency p c g) g es"
    have ok: "graph_ok ?g" "graph_ok (add_dependency p c ?g)" using snoc graph_ok_add_dependency by auto
    have "edges (add_dependency p c ?g) = insert (p, c) (edges ?g)"
      using ok edges_iff_children [of ?g] edges_iff_children [of "add_dependency p c ?g"]
      by (auto simp: edges_def graph_ok_def dg_children_add split: if_splits)
    with snoc ok show ?case by (auto simp: e nodes_add_dependency)
  qed
  show ?thesis
    using fold [of "?base names"] base [of names] by (auto simp: graph_of_def)
qed

section \<open>What the loop leaves\<close>

definition closed_under ::
    "(string \<times> string list) list \<Rightarrow> string list \<Rightarrow> string set \<Rightarrow> bool" where
  "closed_under dm satisfied N \<longleftrightarrow> (\<forall>n \<in> N. set (dependency_lookup dm n) \<subseteq> N \<union> set satisfied)"

lemma missing_Nil_iff:
  "missing_dependencies dm names satisfied n = [] \<longleftrightarrow>
     set (dependency_lookup dm n) \<subseteq> set names \<union> set satisfied"
  by (auto simp: missing_dependencies_def filter_empty_conv)

text \<open>The loop ends with the largest part of the names that is closed under dependencies.\<close>

lemma block_loop_result:
  "block_loop topo dm satisfied names cs es = (names', cs', es') \<Longrightarrow>
     set names' \<subseteq> set names \<and> closed_under dm satisfied (set names') \<and>
     (\<forall>N \<subseteq> set names. closed_under dm satisfied N \<longrightarrow> N \<subseteq> set names')"
proof (induction topo dm satisfied names cs es rule: block_loop.induct)
  case (1 topo dm satisfied names cs es)
  show ?case
  proof (cases "List.find (\<lambda>n. missing_dependencies dm names satisfied n \<noteq> []) (sort names)")
    case None
    with "1.prems" have "names' = names" by (simp add: block_loop.simps)
    moreover have "\<forall>n \<in> set names. missing_dependencies dm names satisfied n = []"
      using None by (simp add: find_None_iff)
    ultimately show ?thesis by (simp add: closed_under_def missing_Nil_iff)
  next
    case (Some n)
    then have n: "n \<in> set names" "missing_dependencies dm names satisfied n \<noteq> []"
      by (auto simp: find_Some_iff) (metis nth_mem set_sort length_sort)
    have rest: "set names' \<subseteq> set (removeAll n names)" "closed_under dm satisfied (set names')"
      "\<And>N. N \<subseteq> set (removeAll n names) \<Longrightarrow> closed_under dm satisfied N \<Longrightarrow> N \<subseteq> set names'"
      using "1.IH" [OF Some refl refl] "1.prems" Some by (simp_all add: block_loop.simps [of topo dm satisfied names] Let_def)
    have "N \<subseteq> set names'" if N: "N \<subseteq> set names" "closed_under dm satisfied N" for N
    proof -
      have "n \<notin> N" using n(2) N unfolding missing_Nil_iff closed_under_def by blast
      with N rest(3) show ?thesis by auto
    qed
    with rest show ?thesis by auto
  qed
qed

lemma names_with_iff:
  assumes "distinct (map fst cs)"
  shows "n \<in> set (names_with P cs) \<longleftrightarrow> (\<exists>c. map_of cs n = Some c \<and> P c)"
  using assms by (force simp: names_with_def dest: map_of_SomeD intro: map_of_is_SomeI)

lemma block_loop_find:
  assumes "List.find (\<lambda>n. missing_dependencies dm names satisfied n \<noteq> []) (sort names) = Some n"
  shows "n \<in> set names" and "missing_dependencies dm names satisfied n \<noteq> []"
  using assms by (auto simp: find_Some_iff) (metis nth_mem set_sort length_sort)

lemma block_loop_classifications:
  "block_loop topo dm satisfied names cs es = (names', cs', es') \<Longrightarrow> distinct (map fst cs) \<Longrightarrow>
     distinct (map fst cs') \<and>
     (\<forall>m. (m \<in> set names' \<or> m \<notin> set names) \<longrightarrow> map_of cs' m = map_of cs m) \<and>
     (\<forall>m \<in> set names - set names'. \<exists>r. map_of cs' m = Some (BlockedByDependency r))"
proof (induction topo dm satisfied names cs es rule: block_loop.induct)
  case (1 topo dm satisfied names cs es)
  show ?case
  proof (cases "List.find (\<lambda>n. missing_dependencies dm names satisfied n \<noteq> []) (sort names)")
    case None
    with "1.prems" show ?thesis by (simp add: block_loop.simps)
  next
    case (Some n)
    define missing where "missing = missing_dependencies dm names satisfied n"
    define reason where "reason = (if \<exists>d \<in> set missing. d \<in> set (names_with is_skipped cs)
        then ''DEPENDENCY_SKIPPED'' else ''DEPENDENCY_UNAVAILABLE'')"
    define es1 where "es1 = es @ (if dependency_failure_aborts_campaign (policy_for topo n)
        then [BlockingDependencies n (sort missing)] else [])"
    have run: "block_loop topo dm satisfied (removeAll n names)
        (AList.update n (BlockedByDependency reason) cs) es1 = (names', cs', es')"
      using "1.prems"(1)
      by (simp only: block_loop.simps [of topo dm satisfied names] Some option.case Let_def missing_def
          reason_def es1_def)
    have "set names' \<subseteq> set (removeAll n names)" using block_loop_result [OF run] by blast
    then have gone: "n \<notin> set names'" by auto
    have IH: "distinct (map fst cs') \<and>
        (\<forall>m. (m \<in> set names' \<or> m \<notin> set (removeAll n names)) \<longrightarrow>
           map_of cs' m = map_of (AList.update n (BlockedByDependency reason) cs) m) \<and>
        (\<forall>m \<in> set (removeAll n names) - set names'. \<exists>r. map_of cs' m = Some (BlockedByDependency r))"
      by (rule "1.IH" [OF Some missing_def reason_def])
        (use run "1.prems"(2) in \<open>simp_all add: es1_def distinct_update\<close>)
    note n = block_loop_find(1) [OF Some]
    have "map_of cs' m = map_of cs m" if "m \<in> set names' \<or> m \<notin> set names" for m
    proof -
      have "m \<noteq> n" using that gone n by blast
      with IH that show ?thesis by (auto simp: update_conv)
    qed
    moreover have "\<exists>r. map_of cs' m = Some (BlockedByDependency r)" if "m \<in> set names - set names'" for m
    proof (cases "m = n")
      case True
      with IH gone show ?thesis by (simp add: update_conv)
    next
      case False
      with that have "m \<in> set (removeAll n names) - set names'" by simp
      with IH show ?thesis by blast
    qed
    ultimately show ?thesis using IH by blast
  qed
qed

text \<open>The errors only grow.\<close>

lemma block_loop_errors:
  "block_loop topo dm satisfied names cs es = (names', cs', es') \<Longrightarrow> \<exists>more. es' = es @ more"
proof (induction topo dm satisfied names cs es rule: block_loop.induct)
  case (1 topo dm satisfied names cs es)
  then show ?case
    by (cases "List.find (\<lambda>n. missing_dependencies dm names satisfied n \<noteq> []) (sort names)")
      (fastforce simp: block_loop.simps [of topo dm satisfied names] Let_def)+
qed

section \<open>Plans\<close>

lemma dict_of_keys: "distinct (map fst (dict_of key xs))"
proof -
  have "distinct (map fst d) \<Longrightarrow> distinct (map fst (foldl (\<lambda>d x. AList.update (key x) x d) d xs))" for d
    by (induction xs arbitrary: d) (simp_all add: distinct_update)
  then show ?thesis by (simp add: dict_of_def)
qed

text \<open>What a plan consists of.\<close>

lemma dynamic_plan_parts:
  assumes "dynamic_plan topo vehicle camp eligible = Inr p"
  obtains names cs es where
    "cs = plan_classifications topo vehicle camp eligible" and "distinct (map fst cs)"
    and "block_loop topo (up_dependency_map p) (names_with (\<lambda>c. c = AlreadySatisfied) cs)
        (names_with (\<lambda>c. c = Eligible) cs) cs es = (names, up_classifications p, up_blocking_errors p)"
    and "distinct (up_update_order p)" and "set (up_update_order p) = set names"
    and "parents_first {(d, n). n \<in> set names \<and> d \<in> set names \<and> d \<in> set (dependency_lookup (up_dependency_map p) n)}
        (up_update_order p)"
proof -
  define cs where "cs = plan_classifications topo vehicle camp eligible"
  obtain dm sources errs where deps: "resolve_dependencies topo
      (map fst (dict_of ct_ecu_name (cg_targets camp))) camp = (dm, sources, errs)" by (metis prod_cases3)
  define es where "es = concat (map (\<lambda>entry. snd (classify topo vehicle camp eligible entry))
      (dict_of ct_ecu_name (cg_targets camp))) @ errs"
  obtain names cs' es' where loop: "block_loop topo dm (names_with (\<lambda>c. c = AlreadySatisfied) cs)
      (names_with (\<lambda>c. c = Eligible) cs) cs es = (names, cs', es')" by (metis prod_cases3)
  obtain order where order: "(if names = [] then Inr []
      else topological_plan (graph_of names dm) (target_priority camp)) = Inr order"
    and p: "p = \<lparr>up_update_order = order, up_dependency_map = dm, up_dependency_sources = sources,
       up_classifications = cs', up_blocking_errors = es'\<rparr>"
    using assms loop deps
    by (auto simp: dynamic_plan_def cs_def es_def Let_def bindE_Inr_iff split: if_splits)
  have "distinct (map fst cs)"
    using dict_of_keys by (simp add: cs_def plan_classifications_def comp_def)
  moreover have "distinct order \<and> set order = set names \<and>
      parents_first {(d, n). n \<in> set names \<and> d \<in> set names \<and> d \<in> set (dependency_lookup dm n)} order"
  proof (cases "names = []")
    case True
    with order show ?thesis by (simp add: parents_first_Nil)
  next
    case False
    with order topological_plan_order [of "graph_of names dm"] graph_of_facts [of names dm] show ?thesis by auto
  qed
  ultimately show ?thesis
    using that [of cs es names] loop by (simp add: cs_def p)
qed

lemma dynamic_plan_order:
  assumes "dynamic_plan topo vehicle camp eligible = Inr p"
    and "cs = plan_classifications topo vehicle camp eligible"
    and "E = set (names_with (\<lambda>c. c = Eligible) cs)" and "S = names_with (\<lambda>c. c = AlreadySatisfied) cs"
  shows "set (up_update_order p) \<subseteq> E" and "closed_under (up_dependency_map p) S (set (up_update_order p))"
    and "\<And>N. N \<subseteq> E \<Longrightarrow> closed_under (up_dependency_map p) S N \<Longrightarrow> N \<subseteq> set (up_update_order p)"
    and "\<And>n. n \<in> set (up_update_order p) \<longleftrightarrow> map_of (up_classifications p) n = Some Eligible"
    and "\<And>n. n \<in> set S \<Longrightarrow> map_of (up_classifications p) n = Some AlreadySatisfied"
proof -
  obtain names es where d: "distinct (map fst cs)" and loop:
    "block_loop topo (up_dependency_map p) S (names_with (\<lambda>c. c = Eligible) cs) cs es =
       (names, up_classifications p, up_blocking_errors p)" and names: "set (up_update_order p) = set names"
    using dynamic_plan_parts [OF assms(1)] assms(2,4) by metis
  have eligible: "m \<in> E \<longleftrightarrow> map_of cs m = Some Eligible" and satisfied: "m \<in> set S \<longleftrightarrow> map_of cs m = Some AlreadySatisfied" for m
    by (simp_all add: assms(3,4) names_with_iff [OF d])
  note result = block_loop_result [OF loop, folded assms(3)]
  note kept = block_loop_classifications [OF loop d, folded assms(3)]
  have sub: "set names \<subseteq> E" using result by (rule conjunct1)
  with names show "set (up_update_order p) \<subseteq> E" by simp
  show "closed_under (up_dependency_map p) S (set (up_update_order p))"
    unfolding names using result by (rule conjunct1 [OF conjunct2])
  show "N \<subseteq> set (up_update_order p)" if "N \<subseteq> E" "closed_under (up_dependency_map p) S N" for N
    unfolding names using conjunct2 [OF conjunct2 [OF result]] that by simp
  show "map_of (up_classifications p) n = Some AlreadySatisfied" if "n \<in> set S" for n
  proof -
    have "n \<notin> E" using that by (simp add: eligible satisfied)
    then have "map_of (up_classifications p) n = map_of cs n" using kept by simp
    with that show ?thesis by (simp add: satisfied)
  qed
  show "n \<in> set (up_update_order p) \<longleftrightarrow> map_of (up_classifications p) n = Some Eligible" for n
  proof (cases "n \<in> E - set names")
    case True
    then obtain r where "map_of (up_classifications p) n = Some (BlockedByDependency r)" using kept by blast
    with True names show ?thesis by simp
  next
    case False
    then have "map_of (up_classifications p) n = map_of cs n" using kept by blast
    with False sub eligible [of n] names show ?thesis by auto
  qed
qed

lemma plan_parents:
  assumes "dynamic_plan topo vehicle camp eligible = Inr p"
  shows "distinct (up_update_order p)"
    and "\<And>before n after q. up_update_order p = before @ n # after \<Longrightarrow> q \<in> set (up_update_order p) \<Longrightarrow>
       q \<in> set (dependency_lookup (up_dependency_map p) n) \<Longrightarrow> q \<in> set before"
proof (goal_cases)
  case 1
  show ?case by (rule dynamic_plan_parts [OF assms])
next
  case (2 before n after q)
  obtain names where names: "set (up_update_order p) = set names"
    and first: "parents_first {(d, n). n \<in> set names \<and> d \<in> set names \<and>
        d \<in> set (dependency_lookup (up_dependency_map p) n)} (up_update_order p)"
    by (rule dynamic_plan_parts [OF assms])
  have "n \<in> set names" using 2(1) names by (metis in_set_conv_decomp)
  with 2(2,3) names have "(q, n) \<in> {(d, n). n \<in> set names \<and> d \<in> set names \<and>
      d \<in> set (dependency_lookup (up_dependency_map p) n)}" by simp
  with first 2(1) show ?case unfolding parents_first_def by (elim allE impE)
qed

lemma plan_dependencies:
  assumes "dynamic_plan topo vehicle camp eligible = Inr p"
    and split: "up_update_order p = before @ n # after" and e: "e \<in> set (dependency_lookup (up_dependency_map p) n)"
  shows "e \<in> set before \<or>
    e \<in> set (names_with (\<lambda>c. c = AlreadySatisfied) (plan_classifications topo vehicle camp eligible))"
proof (cases "e \<in> set (up_update_order p)")
  case True
  with plan_parents(2) [OF assms(1) split] e show ?thesis by blast
next
  case False
  have "n \<in> set (up_update_order p)" using split by simp
  then have "set (dependency_lookup (up_dependency_map p) n) \<subseteq> set (up_update_order p) \<union>
      set (names_with (\<lambda>c. c = AlreadySatisfied) (plan_classifications topo vehicle camp eligible))"
    using dynamic_plan_order(2) [OF assms(1) refl refl refl] unfolding closed_under_def by (rule bspec [rotated])
  with False e show ?thesis by auto
qed

text \<open>An ECU counts as satisfied only when it was discovered, at its target version.\<close>

lemma satisfied_discovered:
  assumes "n \<in> set (names_with (\<lambda>c. c = AlreadySatisfied) (plan_classifications topo vehicle camp eligible))"
  shows "n \<in> ecu_name ` set vehicle \<and> n \<notin> set eligible"
proof -
  have dict: "map_of (foldl (\<lambda>d x. AList.update (key x) x d) d0 xs) k = Some v \<Longrightarrow>
      map_of d0 k = Some v \<or> k \<in> key ` set xs" for key :: "ecu \<Rightarrow> string" and xs d0 k v
  proof (induction xs arbitrary: d0)
    case Nil
    then show ?case by simp
  next
    case (Cons x xs)
    from Cons.IH [of "AList.update (key x) x d0"] Cons.prems show ?case
      by (auto simp: update_conv split: if_splits)
  qed
  have "\<exists>target. fst (classify topo vehicle camp eligible (n, target)) = AlreadySatisfied"
    using assms by (auto simp: names_with_def plan_classifications_def) metis
  then obtain target where "fst (classify topo vehicle camp eligible (n, target)) = AlreadySatisfied" ..
  then have "n \<notin> set eligible" "\<exists>e. map_of (dict_of ecu_name vehicle) n = Some e"
    by (auto simp: classify_def Let_def split: if_splits option.splits)
  then show ?thesis using dict [of _ "[]"] by (auto simp: dict_of_def)
qed

text \<open>C22: A plan never updates an ECU before what it depends on: its order lists exactly the ECUs
  classified eligible, once each, and every dependency of an ECU stands before it or is already at
  its target version.\<close>

theorem plan_respects_dependencies:
  assumes "dynamic_plan topo vehicle camp eligible = Inr p"
  shows "distinct (up_update_order p) \<and>
    (\<forall>n. n \<in> set (up_update_order p) \<longleftrightarrow> map_of (up_classifications p) n = Some Eligible) \<and>
    (\<forall>before n after. up_update_order p = before @ n # after \<longrightarrow>
       (\<forall>d \<in> set (dependency_lookup (up_dependency_map p) n).
          d \<in> set before \<or> map_of (up_classifications p) d = Some AlreadySatisfied))"
  using plan_parents(1) [OF assms] dynamic_plan_order(4,5) [OF assms refl refl refl] plan_dependencies [OF assms]
  by (intro conjI allI ballI impI) blast+

text \<open>C23: A plan leaves out no update that could be made: whatever set of targets the campaign made
  eligible, if all their dependencies are in the set or already satisfied, the order has them all.\<close>

theorem plan_is_maximal:
  assumes "dynamic_plan topo vehicle camp eligible = Inr p"
    and "cs = plan_classifications topo vehicle camp eligible"
    and "\<And>n. n \<in> N \<Longrightarrow> map_of cs n = Some Eligible"
    and "\<And>n d. n \<in> N \<Longrightarrow> d \<in> set (dependency_lookup (up_dependency_map p) n) \<Longrightarrow>
           d \<in> N \<or> map_of cs d = Some AlreadySatisfied"
  shows "N \<subseteq> set (up_update_order p)"
proof (rule dynamic_plan_order(3) [OF assms(1,2) refl refl])
  have d: "distinct (map fst cs)"
    using dict_of_keys by (simp add: assms(2) plan_classifications_def comp_def)
  show "N \<subseteq> set (names_with (\<lambda>c. c = Eligible) cs)"
    using assms(3) by (auto simp: names_with_iff [OF d])
  show "closed_under (up_dependency_map p) (names_with (\<lambda>c. c = AlreadySatisfied) cs) N"
    unfolding closed_under_def subset_iff Un_iff names_with_iff [OF d] using assms(4) by blast
qed

text \<open>C34: A dependency cycle among eligible ECUs does not become a blocking error of the plan: the
  planner raises, although \<open>_resolve_dependencies\<close> has caught the same cycle and recorded it.\<close>

theorem cyclic_dependencies_raise:
  assumes "\<And>n. n \<in> C \<Longrightarrow> map_of (plan_classifications topo vehicle camp eligible) n = Some Eligible"
    and "resolve_dependencies topo (map fst (dict_of ct_ecu_name (cg_targets camp))) camp = (dm, sources, errs)"
    and "\<And>n. n \<in> C \<Longrightarrow> set (dependency_lookup dm n) \<subseteq> C"
    and "\<not> acyclic {(d, n). n \<in> C \<and> d \<in> set (dependency_lookup dm n)}"
  shows "\<exists>m. dynamic_plan topo vehicle camp eligible = Inl (RuntimeError m)"
proof -
  define cs where "cs = plan_classifications topo vehicle camp eligible"
  define es where "es = concat (map (\<lambda>entry. snd (classify topo vehicle camp eligible entry))
      (dict_of ct_ecu_name (cg_targets camp))) @ errs"
  obtain names cs' es' where loop: "block_loop topo dm (names_with (\<lambda>c. c = AlreadySatisfied) cs)
      (names_with (\<lambda>c. c = Eligible) cs) cs es = (names, cs', es')" by (metis prod_cases3)
  have d: "distinct (map fst cs)"
    using dict_of_keys by (simp add: cs_def plan_classifications_def comp_def)
  have "C \<subseteq> set (names_with (\<lambda>c. c = Eligible) cs)"
    using assms(1) [folded cs_def] by (auto simp: names_with_iff [OF d])
  moreover have "closed_under dm (names_with (\<lambda>c. c = AlreadySatisfied) cs) C"
    using assms(3) by (auto simp: closed_under_def)
  ultimately have C: "C \<subseteq> set names" using block_loop_result [OF loop] by blast
  have "{(d, n). n \<in> C \<and> d \<in> set (dependency_lookup dm n)} \<subseteq> edges (graph_of names dm)"
    using C assms(3) graph_of_facts [of names dm] by auto
  then have cyclic: "\<not> acyclic (edges (graph_of names dm))"
    using assms(4) acyclic_subset by blast
  have "topological_plan (graph_of names dm) (target_priority camp) =
      Inl (RuntimeError ''Dependency cycle detected. Update plan cannot be generated.'')"
    using graph_of_facts cyclic cyclic_plan_raises by blast
  moreover have "names \<noteq> []"
  proof
    assume "names = []"
    with C have "C = {}" by simp
    with assms(4) show False by (simp add: acyclic_def)
  qed
  moreover have plan: "dynamic_plan topo vehicle camp eligible =
      bindE (if names = [] then Inr [] else topological_plan (graph_of names dm) (target_priority camp))
        (\<lambda>order. Inr \<lparr>up_update_order = order, up_dependency_map = dm, up_dependency_sources = sources,
           up_classifications = cs', up_blocking_errors = es'\<rparr>)"
    unfolding dynamic_plan_def Let_def assms(2) prod.case using loop unfolding cs_def es_def by simp
  ultimately show ?thesis by simp
qed

section \<open>Concrete plans\<close>

definition demo_target :: "string \<Rightarrow> campaign_target" where
  "demo_target n =
     \<lparr>ct_ecu_name = n, ct_target_version = ''2.0.0'', ct_minimum_supported_version = ''1.0.0'',
      ct_hardware_variant = ''HW'', ct_minimum_bootloader = ''1.0.0'', ct_mandatory = True,
      ct_priority = 1, ct_skip_if_unavailable = False, ct_skip_if_incompatible = False\<rparr>"

definition demo_campaign :: "(string \<times> string list) list \<Rightarrow> campaign" where
  "demo_campaign overrides =
     \<lparr>cg_campaign_id = ''C1'', cg_vehicle_model = ''VM'', cg_release_version = ''2.0.0'',
      cg_transport = ''CAN'', cg_targets = map demo_target [''Cluster ECU'', ''BCM ECU'', ''Gateway ECU''],
      cg_dependency_overrides = overrides, cg_approved_targets = [], cg_skipped_optional_targets = []\<rparr>"

definition demo_vehicle_ecu :: "nat \<Rightarrow> string \<Rightarrow> string \<Rightarrow> ecu" where
  "demo_vehicle_ecu i n v =
     \<lparr>ecu_id = i, ecu_name = n, ecu_current_version = v, ecu_transport = ''CAN'', ecu_dependencies = [],
      ecu_hardware_variant = ''HW'', ecu_bootloader_version = ''1.0.0'',
      ecu_rollback_supported = True, ecu_target_version = [],
      ecu_run_state = ''READY'', ecu_health = ''HEALTHY'', ecu_update_status = ''NOT_STARTED''\<rparr>"

definition demo_vehicle :: vehicle where
  "demo_vehicle =
     [demo_vehicle_ecu 0x201 ''Gateway ECU'' ''2.0.0'', demo_vehicle_ecu 0x202 ''BCM ECU'' ''1.0.0'',
      demo_vehicle_ecu 0x203 ''Cluster ECU'' ''1.0.0'']"

abbreviation demo_eligible :: "string list" where
  "demo_eligible \<equiv> [''Cluster ECU'', ''BCM ECU'']"

abbreviation demo_classifications :: "(string \<times> classification) list" where
  "demo_classifications \<equiv>
     [(''Cluster ECU'', Eligible), (''BCM ECU'', Eligible), (''Gateway ECU'', AlreadySatisfied)]"

abbreviation demo_dependencies :: "(string \<times> string list) list" where
  "demo_dependencies \<equiv> [(''Cluster ECU'', [''BCM ECU'']), (''BCM ECU'', [''Gateway ECU'']), (''Gateway ECU'', [])]"

lemma demo_version_matches: "version_matches ''2.0.0'' ''2.0.0''" "\<not> version_matches ''1.0.0'' ''2.0.0''"
  by code_simp+

lemma demo_classified: "plan_classifications demo_topology demo_vehicle (demo_campaign []) demo_eligible = demo_classifications"
  by (simp add: plan_classifications_def classify_def demo_policy demo_campaign_def demo_target_def dict_of_def
      demo_vehicle_def demo_vehicle_ecu_def demo_version_matches)

lemma demo_resolved:
  "resolve_dependencies demo_topology (map fst (dict_of ct_ecu_name (cg_targets (demo_campaign [])))) (demo_campaign []) =
    (demo_dependencies,
     [(''Cluster ECU'', ''vehicle_topology''), (''BCM ECU'', ''vehicle_topology''), (''Gateway ECU'', ''none'')], [])"
proof -
  have "validate_cycle demo_dependencies = []" by code_simp
  then show ?thesis
    by (simp add: resolve_dependencies_def resolve_one_def demo_policy demo_registry demo_campaign_def demo_target_def
        dict_of_def)
qed

lemma demo_no_errors:
  "concat (map (\<lambda>entry. snd (classify demo_topology demo_vehicle (demo_campaign []) demo_eligible entry))
     (dict_of ct_ecu_name (cg_targets (demo_campaign [])))) = []"
  by (simp add: classify_def demo_policy demo_campaign_def demo_target_def dict_of_def demo_vehicle_def
      demo_vehicle_ecu_def demo_version_matches)

lemma demo_loop:
  "block_loop demo_topology demo_dependencies [''Gateway ECU''] demo_eligible demo_classifications [] =
     (demo_eligible, demo_classifications, [])"
  by code_simp

lemma demo_order:
  "topological_plan (graph_of demo_eligible demo_dependencies) (target_priority (demo_campaign [])) =
     Inr [''BCM ECU'', ''Cluster ECU'']"
  by code_simp

lemma demo_dynamic_plan:
  obtains p where "dynamic_plan demo_topology demo_vehicle (demo_campaign []) demo_eligible = Inr p"
    and "up_update_order p = [''BCM ECU'', ''Cluster ECU'']" and "up_classifications p = demo_classifications"
    and "up_dependency_map p = demo_dependencies" and "up_blocking_errors p = []"
proof -
  have "names_with (\<lambda>c. c = Eligible) demo_classifications = demo_eligible"
    and "names_with (\<lambda>c. c = AlreadySatisfied) demo_classifications = [''Gateway ECU'']"
    by code_simp+
  then show ?thesis
    using that by (simp add: dynamic_plan_def Let_def demo_classified demo_resolved demo_no_errors demo_loop demo_order)
qed

theorem plan_respects_dependencies_witness:
  "\<exists>p. dynamic_plan demo_topology demo_vehicle (demo_campaign []) demo_eligible = Inr p \<and>
     up_update_order p = [''BCM ECU''] @ ''Cluster ECU'' # [] \<and>
     (\<forall>d \<in> set (dependency_lookup (up_dependency_map p) ''Cluster ECU'').
        d \<in> {''BCM ECU''} \<or> map_of (up_classifications p) d = Some AlreadySatisfied)"
proof -
  obtain p where p: "dynamic_plan demo_topology demo_vehicle (demo_campaign []) demo_eligible = Inr p"
    "up_update_order p = [''BCM ECU''] @ ''Cluster ECU'' # []"
    by (rule demo_dynamic_plan) simp
  from plan_respects_dependencies [OF p(1)] p(2)
  have "\<forall>d \<in> set (dependency_lookup (up_dependency_map p) ''Cluster ECU'').
        d \<in> set [''BCM ECU''] \<or> map_of (up_classifications p) d = Some AlreadySatisfied" by blast
  with p show ?thesis by auto
qed

theorem plan_is_maximal_witness:
  "\<exists>p. dynamic_plan demo_topology demo_vehicle (demo_campaign []) demo_eligible = Inr p \<and>
     {''BCM ECU''} \<subseteq> set (up_update_order p)"
proof -
  obtain p where p: "dynamic_plan demo_topology demo_vehicle (demo_campaign []) demo_eligible = Inr p"
    "up_dependency_map p = demo_dependencies"
    by (rule demo_dynamic_plan) simp
  have "{''BCM ECU''} \<subseteq> set (up_update_order p)"
    by (rule plan_is_maximal [OF p(1) refl])
      (simp_all add: demo_classified p(2) dependency_lookup_def or_default_def)
  with p(1) show ?thesis by blast
qed

definition demo_cycle :: "(string \<times> string list) list" where
  "demo_cycle = [(''BCM ECU'', [''Cluster ECU'']), (''Cluster ECU'', [''BCM ECU''])]"

theorem cyclic_dependencies_raise_witness:
  "\<exists>m. dynamic_plan demo_topology demo_vehicle (demo_campaign demo_cycle) demo_eligible = Inl (RuntimeError m)"
proof -
  obtain dm sources errs where r: "resolve_dependencies demo_topology
      (map fst (dict_of ct_ecu_name (cg_targets (demo_campaign demo_cycle)))) (demo_campaign demo_cycle) = (dm, sources, errs)"
    by (metis prod_cases3)
  have dm: "dm = [(''Cluster ECU'', [''BCM ECU'']), (''BCM ECU'', [''Cluster ECU'']), (''Gateway ECU'', [])]"
  proof -
    have "fst (resolve_dependencies demo_topology
        (map fst (dict_of ct_ecu_name (cg_targets (demo_campaign demo_cycle)))) (demo_campaign demo_cycle)) =
        [(''Cluster ECU'', [''BCM ECU'']), (''BCM ECU'', [''Cluster ECU'']), (''Gateway ECU'', [])]"
      by (simp add: resolve_dependencies_def resolve_one_def demo_policy demo_registry demo_campaign_def demo_target_def
        dict_of_def demo_cycle_def Let_def)
    with r show ?thesis by simp
  qed
  have cs: "plan_classifications demo_topology demo_vehicle (demo_campaign demo_cycle) demo_eligible = demo_classifications"
    by (simp add: plan_classifications_def classify_def demo_policy demo_campaign_def demo_target_def dict_of_def
      demo_vehicle_def demo_vehicle_ecu_def demo_version_matches)
  let ?E = "{(d, n). n \<in> {''BCM ECU'', ''Cluster ECU''} \<and> d \<in> set (dependency_lookup dm n)}"
  have edges: "(''BCM ECU'', ''Cluster ECU'') \<in> ?E" "(''Cluster ECU'', ''BCM ECU'') \<in> ?E"
    by (simp_all add: dm dependency_lookup_def or_default_def)
  show ?thesis
  proof (rule cyclic_dependencies_raise [where C = "{''BCM ECU'', ''Cluster ECU''}", OF _ r])
    show "\<not> acyclic ?E"
      using trancl_into_trancl [OF r_into_trancl [OF edges(1)] edges(2)] unfolding acyclic_def by blast
  qed (auto simp: cs dm dependency_lookup_def or_default_def)
qed

end
