(* ===== verification/Update_Scheduler.thy ===== *)
theory Update_Scheduler
  imports Update_Planner
begin

text \<open>
  The execution of a plan: \<open>tcu/update_scheduler.py\<close> (\<open>UpdateScheduler\<close>) with the repository
  check of \<open>tcu/firmware_manager.py\<close>.

  What the transport answers to each attempt of \<open>send_firmware\<close> is \<open>sn_send\<close>, a function of the
  ECU and the attempt; which files exist is \<open>sn_exists\<close>. The state holds what the loop's local
  variables hold, the ECU objects it writes to, and the events in their order: the reports to the
  cloud and the transmissions.
\<close>

section \<open>Repository\<close>

record package =
  pk_ecu_name :: string
  pk_file :: string
  pk_target_version :: string
  pk_hardware_variant :: string
  pk_minimum_bootloader :: string
  pk_transport :: string
  pk_transport_support :: "string list option"
  pk_sha256 :: "string option"
  pk_flash_address :: "string option"
  pk_part_number :: "string option"

definition strip_name :: "string \<Rightarrow> string" where
  "strip_name s = strip_space s"

definition selected_packages :: "package list \<Rightarrow> string list \<Rightarrow> package list" where
  "selected_packages packages target_names =
     (if target_names = [] then packages
      else filter (\<lambda>p. pk_ecu_name p \<in> set (filter (\<lambda>n. n \<noteq> []) (map strip_name target_names))) packages)"

definition verify_repository :: "(string \<Rightarrow> bool) \<Rightarrow> package list \<Rightarrow> string list \<Rightarrow> bool" where
  "verify_repository exists packages target_names \<longleftrightarrow>
     (\<forall>p \<in> set (selected_packages packages target_names). exists (pk_file p))"

section \<open>State\<close>

datatype ecu_result = Flashed | Failed | Skipped | Aborted | Satisfied

datatype scheduler_event =
  Reported string string nat string "string option" | Sent string nat bool

record scheduler_env =
  sn_topology :: topology
  sn_entries :: "(ecu \<times> package) list"
  sn_packages :: "package list"
  sn_exists :: "string \<Rightarrow> bool"
  sn_discovered :: "string list"
  sn_dependency_map :: "(string \<times> string list) list"
  sn_send :: "string \<Rightarrow> nat \<Rightarrow> bool"
  sn_flash_retry_count :: nat

record scheduler =
  ss_results :: "(string \<times> ecu_result) list"
  ss_failed :: "string list"
  ss_skipped :: "string list"
  ss_completed :: "string list"
  ss_fatal :: bool
  ss_ecus :: "ecu list"
  ss_events :: "scheduler_event list"

definition eligible_names :: "scheduler_env \<Rightarrow> string list" where
  "eligible_names env = map (\<lambda>(e, _). ecu_name e) (sn_entries env)"

definition find_entry :: "scheduler_env \<Rightarrow> string \<Rightarrow> (ecu \<times> package) option" where
  "find_entry env n = List.find (\<lambda>(e, _). ecu_name e = n) (sn_entries env)"

text \<open>The default where no dependency map is passed, or an empty one.\<close>

definition scheduled_dependencies :: "scheduler_env \<Rightarrow> string list \<Rightarrow> string \<Rightarrow> string list" where
  "scheduled_dependencies env update_order n =
     (if sn_dependency_map env \<noteq> [] then dependency_lookup (sn_dependency_map env) n
      else if n \<in> set update_order then pol_dependencies (policy_for (sn_topology env) n) else [])"

definition dependency_block_reason :: "string list \<Rightarrow> string list \<Rightarrow> string list \<Rightarrow> string" where
  "dependency_block_reason failed skipped missing =
     (if failed \<noteq> [] then ''DEPENDENCY_FAILED'' else if skipped \<noteq> [] then ''DEPENDENCY_SKIPPED''
      else if missing \<noteq> [] then ''DEPENDENCY_UNAVAILABLE'' else ''DEPENDENCY_BLOCKED'')"

definition campaign_result :: "(string \<times> ecu_result) list \<Rightarrow> string" where
  "campaign_result results =
     (if results = [] then ''NO APPLICABLE UPDATES''
      else if \<exists>r \<in> set results. snd r = Aborted then ''ABORTED_BY_POLICY''
      else if \<forall>r \<in> set results. snd r = Skipped then ''NO APPLICABLE UPDATES''
      else if \<forall>r \<in> set results. snd r \<in> {Flashed, Satisfied} then ''FLASHING COMPLETE''
      else if (\<exists>r \<in> set results. snd r = Failed) \<and> (\<exists>r \<in> set results. snd r \<in> {Flashed, Skipped})
      then ''PARTIAL_SUCCESS'' else ''FAILED'')"

section \<open>One ECU\<close>

definition record_result :: "string \<Rightarrow> ecu_result \<Rightarrow> scheduler \<Rightarrow> scheduler" where
  "record_result n r st = st\<lparr>ss_results := ss_results st @ [(n, r)]\<rparr>"

definition report :: "string \<Rightarrow> string \<Rightarrow> nat \<Rightarrow> string \<Rightarrow> string option \<Rightarrow> scheduler \<Rightarrow> scheduler" where
  "report n status progress version err st =
     st\<lparr>ss_events := ss_events st @ [Reported n status progress version err]\<rparr>"

text \<open>The attempts of \<open>for attempt in range(1, retry_count + 1)\<close>.\<close>

fun send_attempts :: "scheduler_env \<Rightarrow> string \<Rightarrow> nat list \<Rightarrow> scheduler \<Rightarrow> bool \<times> scheduler" where
  "send_attempts env n [] st = (False, st)"
| "send_attempts env n (attempt # attempts) st =
     (let ok = sn_send env n attempt;
          st = st\<lparr>ss_events := ss_events st @ [Sent n attempt ok]\<rparr>
      in if ok then (True, st) else send_attempts env n attempts st)"

fun mark_pending_commit :: "string \<Rightarrow> string \<Rightarrow> ecu list \<Rightarrow> ecu list" where
  "mark_pending_commit n v [] = []"
| "mark_pending_commit n v (e # es) =
     (if ecu_name e = n
      then e\<lparr>ecu_update_status := ''PENDING_COMMIT'', ecu_run_state := ''REBOOTING'', ecu_target_version := v\<rparr> # es
      else e # mark_pending_commit n v es)"

definition flash_ecu :: "scheduler_env \<Rightarrow> string \<Rightarrow> string \<Rightarrow> package \<Rightarrow> scheduler \<Rightarrow> scheduler" where
  "flash_ecu env n current pkg st =
     (let st = report n ''DOWNLOADING'' 0 current None st;
          (success, st) = send_attempts env n [1..<max 1 (sn_flash_retry_count env) + 1] st
      in if \<not> success then
           (let st = record_result n Failed (report n ''FAILED'' 0 current (Some ''TRANSPORT_FAILURE'') st)
            in st\<lparr>ss_failed := n # ss_failed st,
                  ss_fatal := ss_fatal st \<or> pol_criticality (policy_for (sn_topology env) n) = ''critical''\<rparr>)
         else
           (let st = report n ''VERIFYING'' 95 current None (report n ''INSTALLING'' 70 current None st);
                st = st\<lparr>ss_ecus := mark_pending_commit n (pk_target_version pkg) (ss_ecus st)\<rparr>;
                st = record_result n Flashed (report n ''PENDING_COMMIT'' 98 (pk_target_version pkg) None st)
            in st\<lparr>ss_completed := n # ss_completed st\<rparr>))"

text \<open>The boolean says whether the campaign is aborted here.\<close>

definition schedule_one :: "scheduler_env \<Rightarrow> string list \<Rightarrow> string \<Rightarrow> scheduler \<Rightarrow> bool \<times> scheduler" where
  "schedule_one env update_order n st =
     (let dependencies = scheduled_dependencies env update_order n;
          failed = filter (\<lambda>d. d \<in> set (ss_failed st)) dependencies;
          skipped = filter (\<lambda>d. d \<in> set (ss_skipped st)) dependencies;
          missing = filter (\<lambda>d. d \<notin> set update_order \<and> d \<notin> set (ss_completed st)) dependencies;
          policy = policy_for (sn_topology env) n
      in if failed \<noteq> [] \<or> skipped \<noteq> [] \<or> missing \<noteq> [] then
           (let aborts = dependency_failure_aborts_campaign policy;
                st = report n ''SKIPPED'' 0 ''unknown'' (Some (dependency_block_reason failed skipped missing)) st;
                st = record_result n (if aborts then Aborted else Skipped) st
            in (aborts, st\<lparr>ss_skipped := n # ss_skipped st\<rparr>))
         else case find_entry env n of
           None \<Rightarrow>
             if n \<in> set (ss_completed st) then (False, record_result n Satisfied st)
             else (let aborts = unavailable_aborts_campaign policy;
                       st = record_result n (if aborts then Aborted else Skipped) st
                   in (aborts, st\<lparr>ss_skipped := n # ss_skipped st\<rparr>))
         | Some (e, pkg) \<Rightarrow> (False, flash_ecu env n (ecu_current_version e) pkg st))"

fun schedule_all :: "scheduler_env \<Rightarrow> string list \<Rightarrow> string list \<Rightarrow> scheduler \<Rightarrow> bool \<times> scheduler" where
  "schedule_all env update_order [] st = (False, st)"
| "schedule_all env update_order (n # ns) st =
     (case schedule_one env update_order n st of
        (True, st) \<Rightarrow> (True, st)
      | (False, st) \<Rightarrow> schedule_all env update_order ns st)"

definition initial_scheduler :: "scheduler_env \<Rightarrow> scheduler" where
  "initial_scheduler env =
     \<lparr>ss_results = [], ss_failed = [], ss_skipped = [],
      ss_completed = filter (\<lambda>d. d \<notin> set (eligible_names env)) (sn_discovered env),
      ss_fatal = False, ss_ecus = map fst (sn_entries env), ss_events = []\<rparr>"

text \<open>\<open>execute\<close>: what it returns, \<open>last_campaign_result\<close>, and the state it ends in.\<close>

definition execute_plan :: "scheduler_env \<Rightarrow> string list \<Rightarrow> (bool \<times> string \<times> scheduler) result" where
  "execute_plan env update_order =
     (if \<not> verify_repository (sn_exists env) (sn_packages env) (eligible_names env)
      then Inl (RuntimeError ''Firmware repository verification failed.'')
      else let (aborted, st) = schedule_all env update_order update_order (initial_scheduler env)
           in Inr (\<not> aborted \<and> \<not> ss_fatal st \<and> ss_failed st = [], campaign_result (ss_results st), st))"

section \<open>The invariant of the loop\<close>

text \<open>What \<open>n\<close> needs when it is flashed after the results \<open>before\<close>.\<close>

definition dependencies_met ::
    "scheduler_env \<Rightarrow> string list \<Rightarrow> (string \<times> ecu_result) list \<Rightarrow> string \<Rightarrow> bool" where
  "dependencies_met env order before n \<longleftrightarrow>
     (\<forall>d \<in> set (scheduled_dependencies env order n).
        (\<forall>r. (d, r) \<in> set before \<longrightarrow> r \<in> {Flashed, Satisfied}) \<and>
        (d \<in> set order \<or> d \<in> set (ss_completed (initial_scheduler env))))"

text \<open>Each result has its reason in the results before it.\<close>

definition justified ::
    "scheduler_env \<Rightarrow> string list \<Rightarrow> (string \<times> ecu_result) list \<Rightarrow> string \<Rightarrow> ecu_result \<Rightarrow> bool" where
  "justified env order before n r \<longleftrightarrow>
     (if r \<in> {Flashed, Failed} then dependencies_met env order before n \<and> n \<in> set (eligible_names env)
      else if r = Satisfied then n \<notin> set (eligible_names env)
      else \<not> dependencies_met env order before n \<or> n \<notin> set (eligible_names env))"

definition results_justified :: "scheduler_env \<Rightarrow> string list \<Rightarrow> (string \<times> ecu_result) list \<Rightarrow> bool" where
  "results_justified env order results \<longleftrightarrow>
     (\<forall>before n r after. results = before @ (n, r) # after \<longrightarrow> justified env order before n r)"

lemma results_justified_snoc:
  "results_justified env order (rs @ [(n, r)]) \<longleftrightarrow> results_justified env order rs \<and> justified env order rs n r"
  (is "?l \<longleftrightarrow> ?r")
proof
  assume l: ?l
  have "justified env order before m q" if "rs = before @ (m, q) # after" for before m q after
    using l that unfolding results_justified_def by (metis append.assoc append_Cons)
  with l show ?r unfolding results_justified_def by blast
next
  assume r: ?r
  show ?l
    unfolding results_justified_def
  proof (intro allI impI)
    fix before m q after
    assume eq: "rs @ [(n, r)] = before @ (m, q) # after"
    show "justified env order before m q"
    proof (cases after rule: rev_cases)
      case Nil
      with eq r show ?thesis by simp
    next
      case (snoc xs x)
      with eq have "rs = before @ (m, q) # xs" by simp
      with r show ?thesis unfolding results_justified_def by blast
    qed
  qed
qed

definition scheduler_inv :: "scheduler_env \<Rightarrow> string list \<Rightarrow> scheduler \<Rightarrow> bool" where
  "scheduler_inv env order st \<longleftrightarrow>
     set (ss_failed st) = {n. (n, Failed) \<in> set (ss_results st)} \<and>
     set (ss_skipped st) = {n. (n, Skipped) \<in> set (ss_results st) \<or> (n, Aborted) \<in> set (ss_results st)} \<and>
     set (ss_completed st) = set (ss_completed (initial_scheduler env)) \<union> {n. (n, Flashed) \<in> set (ss_results st)} \<and>
     (ss_fatal st \<longrightarrow> ss_failed st \<noteq> []) \<and>
     set (map fst (ss_results st)) \<subseteq> set order \<and>
     results_justified env order (ss_results st)"

lemma scheduler_inv_initial: "scheduler_inv env order (initial_scheduler env)"
  by (simp add: scheduler_inv_def initial_scheduler_def results_justified_def)

lemma send_attempts_frame:
  "ss_results (snd (send_attempts env n as st)) = ss_results st \<and> ss_failed (snd (send_attempts env n as st)) = ss_failed st \<and>
   ss_skipped (snd (send_attempts env n as st)) = ss_skipped st \<and> ss_completed (snd (send_attempts env n as st)) = ss_completed st \<and>
   ss_fatal (snd (send_attempts env n as st)) = ss_fatal st"
  by (induction env n "as" st rule: send_attempts.induct) (simp_all add: Let_def)

lemma find_entry_None_iff: "find_entry env n = None \<longleftrightarrow> n \<notin> set (eligible_names env)"
  by (auto simp: find_entry_def eligible_names_def find_None_iff)

text \<open>What lets \<open>n\<close> be tried, in terms of the tables.\<close>

definition unblocked :: "scheduler_env \<Rightarrow> string list \<Rightarrow> string \<Rightarrow> scheduler \<Rightarrow> bool" where
  "unblocked env order n st \<longleftrightarrow>
     (\<forall>d \<in> set (scheduled_dependencies env order n).
       d \<notin> set (ss_failed st) \<and> d \<notin> set (ss_skipped st) \<and> (d \<in> set order \<or> d \<in> set (ss_completed st)))"

lemma schedule_one_cases:
  "\<not> unblocked env order n st \<Longrightarrow> \<exists>reason. schedule_one env order n st =
     (let aborts = dependency_failure_aborts_campaign (policy_for (sn_topology env) n)
      in (aborts, (record_result n (if aborts then Aborted else Skipped) (report n ''SKIPPED'' 0 ''unknown'' reason st))
        \<lparr>ss_skipped := n # ss_skipped st\<rparr>))"
  "unblocked env order n st \<Longrightarrow> schedule_one env order n st =
     (case find_entry env n of
        None \<Rightarrow>
          if n \<in> set (ss_completed st) then (False, record_result n Satisfied st)
          else (let aborts = unavailable_aborts_campaign (policy_for (sn_topology env) n)
                in (aborts, (record_result n (if aborts then Aborted else Skipped) st)\<lparr>ss_skipped := n # ss_skipped st\<rparr>))
      | Some (e, pkg) \<Rightarrow> (False, flash_ecu env n (ecu_current_version e) pkg st))"
proof -
  let ?deps = "scheduled_dependencies env order n"
  let ?blocked = "filter (\<lambda>d. d \<in> set (ss_failed st)) ?deps \<noteq> [] \<or> filter (\<lambda>d. d \<in> set (ss_skipped st)) ?deps \<noteq> [] \<or>
    filter (\<lambda>d. d \<notin> set order \<and> d \<notin> set (ss_completed st)) ?deps \<noteq> []"
  have blocked: "unblocked env order n st \<longleftrightarrow> \<not> ?blocked"
    by (auto simp: unblocked_def filter_empty_conv)
  show "\<exists>reason. schedule_one env order n st =
     (let aborts = dependency_failure_aborts_campaign (policy_for (sn_topology env) n)
      in (aborts, (record_result n (if aborts then Aborted else Skipped) (report n ''SKIPPED'' 0 ''unknown'' reason st))
        \<lparr>ss_skipped := n # ss_skipped st\<rparr>))" if "\<not> unblocked env order n st"
    using that unfolding blocked not_not schedule_one_def Let_def
    by (simp only: if_True) (auto simp: record_result_def report_def)
  show "schedule_one env order n st =
     (case find_entry env n of
        None \<Rightarrow>
          if n \<in> set (ss_completed st) then (False, record_result n Satisfied st)
          else (let aborts = unavailable_aborts_campaign (policy_for (sn_topology env) n)
                in (aborts, (record_result n (if aborts then Aborted else Skipped) st)\<lparr>ss_skipped := n # ss_skipped st\<rparr>))
      | Some (e, pkg) \<Rightarrow> (False, flash_ecu env n (ecu_current_version e) pkg st))" if "unblocked env order n st"
    using that unfolding blocked schedule_one_def Let_def
    by (simp only: if_False) (simp add: record_result_def cong: option.case_cong)
qed

text \<open>What one round does to the tables.\<close>

lemma schedule_one_result:
  assumes "schedule_one env order n st = (aborts, st')"
  obtains r where "ss_results st' = ss_results st @ [(n, r)]" and "aborts \<longleftrightarrow> r = Aborted"
    and "set (ss_failed st') = set (ss_failed st) \<union> (if r = Failed then {n} else {})"
    and "set (ss_skipped st') = set (ss_skipped st) \<union> (if r \<in> {Skipped, Aborted} then {n} else {})"
    and "set (ss_completed st') = set (ss_completed st) \<union> (if r = Flashed then {n} else {})"
    and "ss_fatal st' \<longrightarrow> ss_fatal st \<or> r = Failed"
    and "r \<in> {Flashed, Failed} \<longleftrightarrow> unblocked env order n st \<and> n \<in> set (eligible_names env)"
    and "r = Satisfied \<longrightarrow> n \<notin> set (eligible_names env)"
proof -
  consider "\<not> unblocked env order n st" | "unblocked env order n st" "find_entry env n = None" "n \<in> set (ss_completed st)"
    | "unblocked env order n st" "find_entry env n = None" "n \<notin> set (ss_completed st)"
    | e pkg where "unblocked env order n st" "find_entry env n = Some (e, pkg)" by force
  then show ?thesis
  proof cases
    case 1
    then obtain reason where "schedule_one env order n st =
        (let aborts = dependency_failure_aborts_campaign (policy_for (sn_topology env) n)
         in (aborts, (record_result n (if aborts then Aborted else Skipped) (report n ''SKIPPED'' 0 ''unknown'' reason st))
           \<lparr>ss_skipped := n # ss_skipped st\<rparr>))" using schedule_one_cases(1) by blast
    with assms have "st' = (record_result n (if aborts then Aborted else Skipped) (report n ''SKIPPED'' 0 ''unknown'' reason st))
           \<lparr>ss_skipped := n # ss_skipped st\<rparr>" by (auto simp: Let_def)
    with 1 show ?thesis
      by (cases aborts) (intro that [of Aborted] that [of Skipped]; simp add: record_result_def report_def)+
  next
    case 2
    then have "\<not> aborts" "st' = record_result n Satisfied st" using assms by (simp_all add: schedule_one_cases(2))
    with 2 find_entry_None_iff [of env n] show ?thesis by (intro that [of Satisfied]) (simp_all add: record_result_def)
  next
    case 3
    with assms have "st' = (record_result n (if aborts then Aborted else Skipped) st)\<lparr>ss_skipped := n # ss_skipped st\<rparr>"
      by (auto simp: schedule_one_cases(2) Let_def)
    with 3 find_entry_None_iff [of env n] show ?thesis
      by (cases aborts) (intro that [of Aborted] that [of Skipped]; simp add: record_result_def)+
  next
    case 4
    then have elig: "n \<in> set (eligible_names env)" using find_entry_None_iff [of env n] by simp
    define current where "current = ecu_current_version e"
    have st': "\<not> aborts" "st' = flash_ecu env n current pkg st"
      using assms 4 by (simp_all add: schedule_one_cases(2) current_def)
    obtain ok st2 where sent: "send_attempts env n [1..<max 1 (sn_flash_retry_count env) + 1]
        (report n ''DOWNLOADING'' 0 current None st) = (ok, st2)" by (cases rule: prod.exhaust)
    note frame = send_attempts_frame [of env n "[1..<max 1 (sn_flash_retry_count env) + 1]"
        "report n ''DOWNLOADING'' 0 current None st", unfolded sent]
    show ?thesis
    proof (cases ok)
      case True
      with st' sent frame elig 4(1) show ?thesis
        by (intro that [of Flashed]) (simp_all add: flash_ecu_def record_result_def report_def Let_def)
    next
      case False
      with st' sent frame elig 4(1) show ?thesis
        by (intro that [of Failed]) (simp_all add: flash_ecu_def record_result_def report_def Let_def)
    qed
  qed
qed

lemma unblocked_met:
  assumes "scheduler_inv env order st"
  shows "unblocked env order n st \<longleftrightarrow> dependencies_met env order (ss_results st) n"
proof -
  have inv: "set (ss_failed st) = {n. (n, Failed) \<in> set (ss_results st)}"
    "set (ss_skipped st) = {n. (n, Skipped) \<in> set (ss_results st) \<or> (n, Aborted) \<in> set (ss_results st)}"
    "set (ss_completed st) = set (ss_completed (initial_scheduler env)) \<union> {n. (n, Flashed) \<in> set (ss_results st)}"
    "set (map fst (ss_results st)) \<subseteq> set order"
    using assms by (simp_all add: scheduler_inv_def)
  have "d \<notin> set (ss_failed st) \<and> d \<notin> set (ss_skipped st) \<longleftrightarrow> (\<forall>r. (d, r) \<in> set (ss_results st) \<longrightarrow> r \<in> {Flashed, Satisfied})"
    for d unfolding inv(1,2) by (auto intro: ecu_result.exhaust)
  moreover have "d \<in> set order \<or> d \<in> set (ss_completed st) \<longleftrightarrow> d \<in> set order \<or> d \<in> set (ss_completed (initial_scheduler env))"
    for d unfolding inv(3) using inv(4) by force
  ultimately show ?thesis unfolding unblocked_def dependencies_met_def by blast
qed

lemma scheduler_inv_step:
  assumes inv: "scheduler_inv env order st" and step: "schedule_one env order n st = (aborts, st')"
    and n: "n \<in> set order" "n \<notin> set (map fst (ss_results st))"
  shows "scheduler_inv env order st' \<and> (\<exists>r. ss_results st' = ss_results st @ [(n, r)] \<and> (aborts \<longleftrightarrow> r = Aborted))"
proof -
  obtain r where res: "ss_results st' = ss_results st @ [(n, r)]" and ab: "aborts \<longleftrightarrow> r = Aborted"
    and sets: "set (ss_failed st') = set (ss_failed st) \<union> (if r = Failed then {n} else {})"
      "set (ss_skipped st') = set (ss_skipped st) \<union> (if r \<in> {Skipped, Aborted} then {n} else {})"
      "set (ss_completed st') = set (ss_completed st) \<union> (if r = Flashed then {n} else {})"
    and fatal: "ss_fatal st' \<longrightarrow> ss_fatal st \<or> r = Failed"
    and met: "r \<in> {Flashed, Failed} \<longleftrightarrow> unblocked env order n st \<and> n \<in> set (eligible_names env)"
      "r = Satisfied \<longrightarrow> n \<notin> set (eligible_names env)"
    by (rule schedule_one_result [OF step])
  have old: "set (ss_failed st) = {n. (n, Failed) \<in> set (ss_results st)}"
    "set (ss_skipped st) = {n. (n, Skipped) \<in> set (ss_results st) \<or> (n, Aborted) \<in> set (ss_results st)}"
    "set (ss_completed st) = set (ss_completed (initial_scheduler env)) \<union> {n. (n, Flashed) \<in> set (ss_results st)}"
    "set (map fst (ss_results st)) \<subseteq> set order" "results_justified env order (ss_results st)"
    "ss_fatal st \<longrightarrow> ss_failed st \<noteq> []"
    using inv by (simp_all add: scheduler_inv_def)
  have "justified env order (ss_results st) n r"
    using met unfolding unblocked_met [OF inv] justified_def by presburger
  then have "results_justified env order (ss_results st')" unfolding res results_justified_snoc using old(5) by blast
  moreover have "ss_fatal st' \<longrightarrow> ss_failed st' \<noteq> []"
    using fatal sets(1) old(6) by (metis empty_iff insert_not_empty set_empty sup_eq_bot_iff)
  ultimately have "scheduler_inv env order st'"
    unfolding scheduler_inv_def res sets old(1-3) using old(4) n(1)
    by (cases r) auto
  with res ab show ?thesis by blast
qed

lemma scheduler_inv_all:
  "scheduler_inv env order st \<Longrightarrow> set ns \<subseteq> set order \<Longrightarrow> distinct (map fst (ss_results st) @ ns) \<Longrightarrow>
   \<forall>q \<in> set (ss_results st). snd q \<noteq> Aborted \<Longrightarrow> schedule_all env order ns st = (aborted, st') \<Longrightarrow>
   scheduler_inv env order st' \<and> (aborted \<longleftrightarrow> (\<exists>q \<in> set (ss_results st'). snd q = Aborted)) \<and>
   (\<exists>more. map fst (ss_results st) @ ns = map fst (ss_results st') @ more \<and> (\<not> aborted \<longrightarrow> more = []))"
proof (induction ns arbitrary: st)
  case Nil
  then show ?case by auto
next
  case (Cons n ns)
  obtain aborts st1 where step: "schedule_one env order n st = (aborts, st1)" by fastforce
  have new: "n \<in> set order" "n \<notin> set (map fst (ss_results st))" using Cons.prems by auto
  obtain r where inv: "scheduler_inv env order st1" and res: "ss_results st1 = ss_results st @ [(n, r)]"
    and ab: "aborts \<longleftrightarrow> r = Aborted"
    using scheduler_inv_step [OF Cons.prems(1) step new] by blast
  show ?case
  proof (cases aborts)
    case True
    with Cons.prems step inv res ab show ?thesis by auto
  next
    case False
    have rest: "schedule_all env order ns st1 = (aborted, st')" using Cons.prems(5) step False by simp
    have prems: "set ns \<subseteq> set order" "distinct (map fst (ss_results st1) @ ns)"
      "\<forall>q \<in> set (ss_results st1). snd q \<noteq> Aborted"
      using Cons.prems(2-4) res ab False by auto
    have eq: "map fst (ss_results st1) @ ns = map fst (ss_results st) @ n # ns" by (simp add: res)
    show ?thesis using Cons.IH [OF inv prems rest] unfolding eq .
  qed
qed

text \<open>The results of a whole execution.\<close>

lemma execute_plan_result:
  assumes "execute_plan env order = Inr (ok, summary, st)" and "distinct order"
  shows "scheduler_inv env order st" and "summary = campaign_result (ss_results st)"
    and "\<exists>more. order = map fst (ss_results st) @ more"
    and "ok \<longleftrightarrow> (\<forall>q \<in> set (ss_results st). snd q \<notin> {Failed, Aborted})"
    and "ok \<Longrightarrow> map fst (ss_results st) = order"
proof -
  obtain aborted where run: "schedule_all env order order (initial_scheduler env) = (aborted, st)"
    and ok: "ok \<longleftrightarrow> \<not> aborted \<and> \<not> ss_fatal st \<and> ss_failed st = []" and "summary = campaign_result (ss_results st)"
    using assms(1) by (auto simp: execute_plan_def Let_def split: if_splits prod.splits)
  then show "summary = campaign_result (ss_results st)" by simp
  note all = scheduler_inv_all [OF scheduler_inv_initial order.refl _ _ run]
  then have inv: "scheduler_inv env order st"
    and ab: "aborted \<longleftrightarrow> (\<exists>q \<in> set (ss_results st). snd q = Aborted)"
    and more: "\<exists>more. order = map fst (ss_results st) @ more"
    and all: "\<not> aborted \<longrightarrow> map fst (ss_results st) = order"
    using assms(2) by (auto simp: initial_scheduler_def)
  show "map fst (ss_results st) = order" if ok using all ok that by blast
  show "scheduler_inv env order st" "\<exists>more. order = map fst (ss_results st) @ more" by (fact inv, fact more)
  have "ss_failed st = [] \<longleftrightarrow> (\<forall>q \<in> set (ss_results st). snd q \<noteq> Failed)"
    using inv unfolding scheduler_inv_def by (metis (mono_tags, lifting) Collect_empty_eq prod.collapse set_empty snd_conv)
  moreover have "ss_fatal st \<longrightarrow> ss_failed st \<noteq> []" using inv by (simp add: scheduler_inv_def)
  ultimately show "ok \<longleftrightarrow> (\<forall>q \<in> set (ss_results st). snd q \<notin> {Failed, Aborted})"
    using ok ab by auto
qed

section \<open>Transmissions\<close>

definition sends :: "string \<Rightarrow> scheduler_event list \<Rightarrow> bool list" where
  "sends n evs = concat (map (\<lambda>ev. case ev of Sent m _ ok \<Rightarrow> if m = n then [ok] else [] | _ \<Rightarrow> []) evs)"

lemma sends_simps [simp]:
  "sends n [] = []" "sends n (xs @ ys) = sends n xs @ sends n ys"
  "sends n [Reported m s p v err] = []" "sends n [Sent m k ok] = (if m = n then [ok] else [])"
  "sends n (Reported m s p v err # evs) = sends n evs"
  "sends n (Sent m k ok # evs) = (if m = n then ok # sends n evs else sends n evs)"
  by (simp_all add: sends_def)

text \<open>What an ECU with result \<open>r\<close> has been sent, with \<open>retries\<close> attempts at most.\<close>

definition attempts_match :: "nat \<Rightarrow> ecu_result option \<Rightarrow> bool list \<Rightarrow> bool" where
  "attempts_match retries r bs \<longleftrightarrow>
     (case r of Some Flashed \<Rightarrow> (\<exists>k < retries. bs = replicate k False @ [True])
      | Some Failed \<Rightarrow> bs = replicate retries False | _ \<Rightarrow> bs = [])"

lemma send_attempts_sends:
  "\<exists>bs. attempts_match (length as) (Some (if fst (send_attempts env n as st) then Flashed else Failed)) bs \<and>
     (\<forall>m. sends m (ss_events (snd (send_attempts env n as st))) = sends m (ss_events st) @ (if m = n then bs else []))"
proof (induction env n "as" st rule: send_attempts.induct)
  case (1 env n st)
  then show ?case by (simp add: attempts_match_def)
next
  case (2 env n attempt attempts st)
  let ?st = "st\<lparr>ss_events := ss_events st @ [Sent n attempt (sn_send env n attempt)]\<rparr>"
  show ?case
  proof (cases "sn_send env n attempt")
    case True
    then show ?thesis by (intro exI [of _ "[True]"]) (auto simp: attempts_match_def)
  next
    case False
    with 2 obtain bs where bs: "attempts_match (length attempts) (Some (if fst (send_attempts env n attempts ?st) then Flashed else Failed)) bs"
      "\<forall>m. sends m (ss_events (snd (send_attempts env n attempts ?st))) = sends m (ss_events ?st) @ (if m = n then bs else [])"
      by auto
    have "attempts_match (length (attempt # attempts)) (Some (if fst (send_attempts env n attempts ?st) then Flashed else Failed)) (False # bs)"
      using bs(1) unfolding attempts_match_def
      by (cases "fst (send_attempts env n attempts ?st)") (auto intro: exI [of _ "Suc _"])
    then show ?thesis using bs(2) False by (intro exI [of _ "False # bs"]) (simp add: Let_def)
  qed
qed

definition transmissions_ok :: "scheduler_env \<Rightarrow> scheduler \<Rightarrow> bool" where
  "transmissions_ok env st \<longleftrightarrow>
     (\<forall>n. attempts_match (max 1 (sn_flash_retry_count env)) (map_of (ss_results st) n) (sends n (ss_events st)))"

lemma flash_ecu_events:
  "\<exists>r bs. ss_results (flash_ecu env n current pkg st) = ss_results st @ [(n, r)] \<and>
     attempts_match (max 1 (sn_flash_retry_count env)) (Some r) bs \<and>
     (\<forall>m. sends m (ss_events (flash_ecu env n current pkg st)) = sends m (ss_events st) @ (if m = n then bs else []))"
proof -
  let ?as = "[1..<max 1 (sn_flash_retry_count env) + 1]" and ?st = "report n ''DOWNLOADING'' 0 current None st"
  obtain bs where "attempts_match (length ?as) (Some (if fst (send_attempts env n ?as ?st) then Flashed else Failed)) bs"
    "\<forall>m. sends m (ss_events (snd (send_attempts env n ?as ?st))) = sends m (ss_events ?st) @ (if m = n then bs else [])"
    using send_attempts_sends by blast
  then show ?thesis
    using send_attempts_frame [of env n ?as ?st]
    by (intro exI [of _ "if fst (send_attempts env n ?as ?st) then Flashed else Failed"] exI [of _ bs])
      (simp add: flash_ecu_def record_result_def report_def split_beta Let_def del: upt_Suc)
qed

lemma schedule_one_events:
  assumes "schedule_one env order n st = (aborts, st')"
  shows "\<exists>r bs. ss_results st' = ss_results st @ [(n, r)] \<and>
     attempts_match (max 1 (sn_flash_retry_count env)) (Some r) bs \<and>
     (\<forall>m. sends m (ss_events st') = sends m (ss_events st) @ (if m = n then bs else []))"
proof (cases "unblocked env order n st \<and> (\<exists>e pkg. find_entry env n = Some (e, pkg))")
  case True
  then obtain e pkg where "find_entry env n = Some (e, pkg)" "unblocked env order n st" by blast
  with assms have "st' = flash_ecu env n (ecu_current_version e) pkg st" by (simp add: schedule_one_cases(2))
  then show ?thesis using flash_ecu_events [of env n "ecu_current_version e" pkg st] by (simp only:)
next
  case False
  have "\<exists>r. ss_results st' = ss_results st @ [(n, r)] \<and> r \<notin> {Flashed, Failed} \<and>
      (\<forall>m. sends m (ss_events st') = sends m (ss_events st))"
  proof (cases "unblocked env order n st")
    case True
    with False have "find_entry env n = None" by (cases "find_entry env n") auto
    with assms True show ?thesis
      by (auto simp: schedule_one_cases(2) record_result_def Let_def split: if_splits)
  next
    case blocked: False
    obtain reason where "schedule_one env order n st =
        (let aborts = dependency_failure_aborts_campaign (policy_for (sn_topology env) n)
         in (aborts, (record_result n (if aborts then Aborted else Skipped) (report n ''SKIPPED'' 0 ''unknown'' reason st))
           \<lparr>ss_skipped := n # ss_skipped st\<rparr>))" using schedule_one_cases(1) [OF blocked] by blast
    with assms show ?thesis by (auto simp: record_result_def report_def Let_def)
  qed
  then obtain r where "ss_results st' = ss_results st @ [(n, r)]" "r \<notin> {Flashed, Failed}"
    "\<forall>m. sends m (ss_events st') = sends m (ss_events st)" by blast
  then show ?thesis by (intro exI [of _ r] exI [of _ "[]"]) (cases r; simp add: attempts_match_def)
qed

lemma transmissions_step:
  assumes "transmissions_ok env st" and "schedule_one env order n st = (aborts, st')"
    and "n \<notin> set (map fst (ss_results st))"
  shows "transmissions_ok env st' \<and> map fst (ss_results st') = map fst (ss_results st) @ [n]"
proof -
  obtain r bs where step: "ss_results st' = ss_results st @ [(n, r)]"
    "attempts_match (max 1 (sn_flash_retry_count env)) (Some r) bs"
    "\<forall>m. sends m (ss_events st') = sends m (ss_events st) @ (if m = n then bs else [])"
    using schedule_one_events [OF assms(2)] by blast
  have new: "map_of (ss_results st) n = None" using assms(3) by (simp add: map_of_eq_None_iff)
  have old: "attempts_match (max 1 (sn_flash_retry_count env)) (map_of (ss_results st) m) (sends m (ss_events st))" for m
    using assms(1) unfolding transmissions_ok_def by (rule spec)
  from old [of n] have none: "sends n (ss_events st) = []" unfolding new attempts_match_def by simp
  have "attempts_match (max 1 (sn_flash_retry_count env)) (map_of (ss_results st') m) (sends m (ss_events st'))" for m
  proof (cases "m = n")
    case True
    have "map_of (ss_results st') n = Some r" unfolding step(1) map_of_append using new by (simp add: map_add_def)
    moreover have "sends n (ss_events st') = bs" using step(3) none by simp
    ultimately show ?thesis using step(2) True by (simp only:)
  next
    case False
    have "map_of (ss_results st') m = map_of (ss_results st) m"
      unfolding step(1) map_of_append using False by (simp add: map_add_def split: option.split)
    moreover have "sends m (ss_events st') = sends m (ss_events st)" using step(3) False by simp
    ultimately show ?thesis using old [of m] by (simp only:)
  qed
  then show ?thesis unfolding transmissions_ok_def step(1) by simp
qed

lemma transmissions_all:
  "transmissions_ok env st \<Longrightarrow> distinct (map fst (ss_results st) @ ns) \<Longrightarrow>
   schedule_all env order ns st = (aborted, st') \<Longrightarrow> transmissions_ok env st'"
proof (induction ns arbitrary: st)
  case Nil
  then show ?case by simp
next
  case (Cons n ns)
  obtain aborts st1 where step: "schedule_one env order n st = (aborts, st1)" by fastforce
  have "n \<notin> set (map fst (ss_results st))" using Cons.prems(2) by auto
  from transmissions_step [OF Cons.prems(1) step this]
  have st1: "transmissions_ok env st1" "map fst (ss_results st1) = map fst (ss_results st) @ [n]" by blast+
  show ?case
  proof (cases aborts)
    case True
    then show ?thesis using Cons.prems(3) step st1(1) by simp
  next
    case False
    have "distinct (map fst (ss_results st1) @ ns)" unfolding st1(2) using Cons.prems(2) by simp
    moreover have "schedule_all env order ns st1 = (aborted, st')" using Cons.prems(3) step False by simp
    ultimately show ?thesis using Cons.IH st1(1) by blast
  qed
qed

section \<open>Campaigns that follow a plan\<close>

text \<open>
  How \<open>tcu/main.py\<close> calls \<open>execute\<close>: with the dependency map of the plan, the discovered vehicle and
  an entry for each ECU of the order (the campaign is aborted when artifact verification drops one).
\<close>

definition follows_plan :: "scheduler_env \<Rightarrow> vehicle \<Rightarrow> update_plan \<Rightarrow> bool" where
  "follows_plan env vehicle p \<longleftrightarrow>
     sn_dependency_map env = up_dependency_map p \<and> sn_discovered env = map ecu_name vehicle \<and>
     set (eligible_names env) = set (up_update_order p)"

lemma scheduled_dependencies_plan:
  assumes "dynamic_plan topo vehicle camp eligible = Inr p" and "follows_plan env vehicle p"
    and "n \<in> set (up_update_order p)"
  shows "scheduled_dependencies env (up_update_order p) n = dependency_lookup (up_dependency_map p) n"
proof -
  have "map fst (up_dependency_map p) = map fst (plan_classifications topo vehicle camp eligible)"
    using assms(1)
    by (auto simp: dynamic_plan_def resolve_dependencies_def plan_classifications_def comp_def Let_def
        bindE_Inr_iff split: prod.splits if_splits)
  moreover have "n \<in> set (names_with (\<lambda>c. c = Eligible) (plan_classifications topo vehicle camp eligible))"
    using dynamic_plan_order(1) [OF assms(1) refl refl refl] assms(3) by blast
  ultimately have "up_dependency_map p \<noteq> []" by (auto simp: names_with_def)
  then show ?thesis using assms(2) by (simp add: scheduled_dependencies_def follows_plan_def)
qed

text \<open>The state after a planned campaign.\<close>

lemma planned_dependencies:
  assumes "dynamic_plan topo vehicle camp eligible = Inr p" and "follows_plan env vehicle p"
    and "execute_plan env (up_update_order p) = Inr (ok, summary, st)"
    and "ss_results st = before @ (n, r) # after" and "d \<in> set (dependency_lookup (up_dependency_map p) n)"
  shows "d \<in> fst ` set before \<or> d \<in> set (ss_completed (initial_scheduler env)) \<and>
      d \<in> set (names_with (\<lambda>c. c = AlreadySatisfied) (plan_classifications topo vehicle camp eligible))"
proof -
  note facts = execute_plan_result [OF assms(3) plan_parents(1) [OF assms(1)]]
  obtain more where split: "up_update_order p = map fst before @ n # (map fst after @ more)"
    using facts(3) assms(4) by auto
  from plan_dependencies [OF assms(1) split assms(5)] show ?thesis
  proof
    assume s: "d \<in> set (names_with (\<lambda>c. c = AlreadySatisfied) (plan_classifications topo vehicle camp eligible))"
    have "d \<notin> set (up_update_order p)"
    proof
      assume "d \<in> set (up_update_order p)"
      then show False
        using dynamic_plan_order(4,5) [OF assms(1) refl refl refl, of d] s by simp
    qed
    moreover have "d \<in> ecu_name ` set vehicle" using satisfied_discovered [OF s] by blast
    ultimately show ?thesis using s assms(2) by (auto simp: follows_plan_def initial_scheduler_def)
  qed simp
qed

lemma planned_results:
  assumes "dynamic_plan topo vehicle camp eligible = Inr p" and "follows_plan env vehicle p"
    and "execute_plan env (up_update_order p) = Inr (ok, summary, st)"
    and "ss_results st = before @ (n, r) # after"
  shows "n \<in> set (eligible_names env)" and "justified env (up_update_order p) before n r"
    and "scheduled_dependencies env (up_update_order p) n = dependency_lookup (up_dependency_map p) n"
proof -
  note facts = execute_plan_result [OF assms(3) plan_parents(1) [OF assms(1)]]
  have n: "n \<in> set (up_update_order p)" using facts(3) assms(4) by auto
  then show "n \<in> set (eligible_names env)" using assms(2) by (simp add: follows_plan_def)
  show "justified env (up_update_order p) before n r"
    using facts(1) assms(4) unfolding scheduler_inv_def results_justified_def by blast
  show "scheduled_dependencies env (up_update_order p) n = dependency_lookup (up_dependency_map p) n"
    by (rule scheduled_dependencies_plan [OF assms(1,2) n])
qed

text \<open>C17: In a planned campaign nothing is sent to an ECU before all it depends on has been updated:
  when an ECU was flashed, or tried without success, each of its dependencies either was flashed
  earlier in the same campaign, or had been found at its target version when planning.\<close>

theorem campaign_respects_dependencies:
  assumes "dynamic_plan topo vehicle camp eligible = Inr p" and "follows_plan env vehicle p"
    and "execute_plan env (up_update_order p) = Inr (ok, summary, st)"
    and "ss_results st = before @ (n, r) # after" and "r \<in> {Flashed, Failed}"
    and "d \<in> set (dependency_lookup (up_dependency_map p) n)"
  shows "(d, Flashed) \<in> set before \<or>
    map_of (plan_classifications topo vehicle camp eligible) d = Some AlreadySatisfied"
proof -
  note here = planned_results [OF assms(1-4)]
  have met: "dependencies_met env (up_update_order p) before n"
    using here(2) assms(5) by (simp add: justified_def)
  from planned_dependencies [OF assms(1-4,6)] show ?thesis
  proof
    assume "d \<in> fst ` set before"
    then obtain q where q: "(d, q) \<in> set before" by auto
    with met assms(6) have "q \<in> {Flashed, Satisfied}" by (auto simp: dependencies_met_def here(3))
    moreover have "q \<noteq> Satisfied"
    proof
      assume "q = Satisfied"
      obtain xs ys where "before = xs @ (d, q) # ys" using q by (meson split_list)
      then have "ss_results st = xs @ (d, q) # (ys @ (n, r) # after)" using assms(4) by simp
      from planned_results(1,2) [OF assms(1-3) this] show False
        using \<open>q = Satisfied\<close> by (simp add: justified_def)
    qed
    ultimately show ?thesis using q by auto
  next
    have "distinct (map fst (plan_classifications topo vehicle camp eligible))"
      using dict_of_keys by (simp add: plan_classifications_def comp_def)
    moreover assume "d \<in> set (ss_completed (initial_scheduler env)) \<and>
      d \<in> set (names_with (\<lambda>c. c = AlreadySatisfied) (plan_classifications topo vehicle camp eligible))"
    ultimately show ?thesis by (auto simp: names_with_iff)
  qed
qed

lemma no_failure_all_flashed:
  assumes "dynamic_plan topo vehicle camp eligible = Inr p" and "follows_plan env vehicle p"
    and "execute_plan env (up_update_order p) = Inr (ok, summary, st)" and ok
  shows "ss_results st = before @ (n, r) # after \<Longrightarrow> r = Flashed"
proof (induction "length before" arbitrary: before n r after rule: less_induct)
  case less
  note here = planned_results [OF assms(1-3) less.prems]
  have "r \<notin> {Failed, Aborted}"
    using execute_plan_result(4) [OF assms(3) plan_parents(1) [OF assms(1)]] assms(4) less.prems by auto
  moreover have "r \<noteq> Satisfied" using here(1,2) by (auto simp: justified_def)
  moreover have "dependencies_met env (up_update_order p) before n"
    unfolding dependencies_met_def here(3)
  proof (intro ballI conjI allI impI)
    fix d q assume "d \<in> set (dependency_lookup (up_dependency_map p) n)" and "(d, q) \<in> set before"
    then obtain xs ys where "before = xs @ (d, q) # ys" by (meson split_list)
    then have "q = Flashed" using less.prems by (intro less.hyps [of xs d q "ys @ (n, r) # after"]) simp_all
    then show "q \<in> {Flashed, Satisfied}" by simp
  next
    fix d assume "d \<in> set (dependency_lookup (up_dependency_map p) n)"
    from planned_dependencies [OF assms(1-3) less.prems this]
    show "d \<in> set (up_update_order p) \<or> d \<in> set (ss_completed (initial_scheduler env))"
    proof
      assume "d \<in> fst ` set before"
      moreover have "fst ` set before \<subseteq> set (up_update_order p)"
        using execute_plan_result(3) [OF assms(3) plan_parents(1) [OF assms(1)]] less.prems
        by (force simp: set_eq_iff)
      ultimately show ?thesis by blast
    qed simp
  qed
  ultimately show ?case using here(1,2) by (cases r) (auto simp: justified_def)
qed

lemma planned_campaign_result:
  assumes "dynamic_plan topo vehicle camp eligible = Inr p" and "follows_plan env vehicle p"
    and "execute_plan env (up_update_order p) = Inr (ok, summary, st)" and "up_update_order p \<noteq> []"
  shows "(ok \<longleftrightarrow> ss_results st = map (\<lambda>n. (n, Flashed)) (up_update_order p)) \<and>
    (ok \<longleftrightarrow> summary = ''FLASHING COMPLETE'')"
proof -
  note facts = execute_plan_result [OF assms(3) plan_parents(1) [OF assms(1)]]
  have all: "ss_results st = map (\<lambda>n. (n, Flashed)) (up_update_order p)" if ok
  proof -
    have "\<forall>q \<in> set (ss_results st). snd q = Flashed"
    proof
      fix q assume "q \<in> set (ss_results st)"
      then obtain before after where "ss_results st = before @ (fst q, snd q) # after" by (metis split_list prod.collapse)
      then show "snd q = Flashed" by (rule no_failure_all_flashed [OF assms(1-3) that])
    qed
    then have "ss_results st = map (\<lambda>n. (n, Flashed)) (map fst (ss_results st))"
      unfolding map_map by (intro map_idI [symmetric]) (auto simp: prod_eq_iff)
    then show ?thesis using facts(5) [OF that] by simp
  qed
  have conv: ok if "ss_results st = map (\<lambda>n. (n, Flashed)) (up_update_order p)"
    using facts(4) unfolding that by simp
  have results: "ok \<longleftrightarrow> ss_results st = map (\<lambda>n. (n, Flashed)) (up_update_order p)" using all conv by blast
  have "ok" if "summary = ''FLASHING COMPLETE''"
    using facts(2,4) that by (auto simp: campaign_result_def split: if_splits)
  moreover have "summary = ''FLASHING COMPLETE''" if ok
    using facts(2) assms(4) unfolding all [OF that] by (auto simp: campaign_result_def)
  ultimately show ?thesis using results by blast
qed

text \<open>C19: A planned campaign succeeds exactly when every ECU of the plan has been flashed, in the
  order of the plan; the summary then says so.\<close>

theorem campaign_succeeds_iff_all_flashed:
  assumes "dynamic_plan topo vehicle camp eligible = Inr p" and "follows_plan env vehicle p"
    and "execute_plan env (up_update_order p) = Inr (ok, summary, st)" and "up_update_order p \<noteq> []"
  shows "(ok \<longleftrightarrow> ss_results st = map (\<lambda>n. (n, Flashed)) (up_update_order p)) \<and>
    (ok \<longleftrightarrow> summary = ''FLASHING COMPLETE'')"
  by (rule planned_campaign_result [OF assms])

text \<open>C30: Each ECU is tried at most \<open>OTA_ECU_FLASH_RETRY_COUNT\<close> times (once if that is zero): a
  flashed ECU has been sent some failing attempts and then one that succeeded, a failed one only
  failing attempts, as many as allowed, and no other ECU has been sent anything.\<close>

theorem transmissions_match_results:
  assumes "execute_plan env order = Inr (ok, summary, st)" and "distinct order"
  shows "attempts_match (max 1 (sn_flash_retry_count env)) (map_of (ss_results st) n) (sends n (ss_events st))"
proof -
  obtain aborted where run: "schedule_all env order order (initial_scheduler env) = (aborted, st)"
    using assms(1) by (auto simp: execute_plan_def Let_def split: if_splits prod.splits)
  have "transmissions_ok env (initial_scheduler env)"
    by (simp add: transmissions_ok_def initial_scheduler_def attempts_match_def)
  from transmissions_all [OF this _ run] assms(2) show ?thesis
    by (simp add: transmissions_ok_def initial_scheduler_def)
qed

section \<open>A concrete campaign\<close>

definition demo_package :: "string \<Rightarrow> package" where
  "demo_package n =
     \<lparr>pk_ecu_name = n, pk_file = ''fw.bin'', pk_target_version = ''2.0.0'', pk_hardware_variant = ''HW'',
      pk_minimum_bootloader = ''1.0.0'', pk_transport = ''CAN'', pk_transport_support = None,
      pk_sha256 = None, pk_flash_address = None, pk_part_number = None\<rparr>"

text \<open>The first attempt on every ECU fails.\<close>

definition demo_env :: scheduler_env where
  "demo_env =
     \<lparr>sn_topology = demo_topology,
      sn_entries = map (\<lambda>n. (demo_vehicle_ecu 0x202 n ''1.0.0'', demo_package n)) demo_eligible,
      sn_packages = map demo_package demo_eligible, sn_exists = (\<lambda>_. True),
      sn_discovered = map ecu_name demo_vehicle, sn_dependency_map = demo_dependencies,
      sn_send = (\<lambda>n attempt. attempt = 2), sn_flash_retry_count = 2\<rparr>"

lemma demo_execution:
  "\<exists>st. execute_plan demo_env [''BCM ECU'', ''Cluster ECU''] = Inr (True, ''FLASHING COMPLETE'', st) \<and>
     ss_results st = [(''BCM ECU'', Flashed), (''Cluster ECU'', Flashed)] \<and>
     sends ''BCM ECU'' (ss_events st) = [False, True]"
  by (simp add: execute_plan_def verify_repository_def demo_env_def initial_scheduler_def eligible_names_def
      demo_vehicle_ecu_def demo_vehicle_def schedule_one_def scheduled_dependencies_def dependency_lookup_def
      or_default_def find_entry_def flash_ecu_def report_def record_result_def Let_def campaign_result_def sends_def
      upt_rec_numeral)

lemma demo_follows:
  "up_update_order p = [''BCM ECU'', ''Cluster ECU''] \<Longrightarrow> up_dependency_map p = demo_dependencies \<Longrightarrow>
   follows_plan demo_env demo_vehicle p"
  by (auto simp: follows_plan_def demo_env_def eligible_names_def demo_vehicle_ecu_def)

theorem transmissions_match_results_witness:
  "\<exists>st. execute_plan demo_env [''BCM ECU'', ''Cluster ECU''] = Inr (True, ''FLASHING COMPLETE'', st) \<and>
     attempts_match 2 (Some Flashed) (sends ''BCM ECU'' (ss_events st))"
proof -
  obtain st where st: "execute_plan demo_env [''BCM ECU'', ''Cluster ECU''] = Inr (True, ''FLASHING COMPLETE'', st)"
    "ss_results st = [(''BCM ECU'', Flashed), (''Cluster ECU'', Flashed)]"
    using demo_execution by blast
  with transmissions_match_results [OF st(1), where n = "''BCM ECU''"]
  have "attempts_match 2 (Some Flashed) (sends ''BCM ECU'' (ss_events st))"
    by (simp add: demo_env_def numeral_2_eq_2)
  with st(1) show ?thesis by blast
qed

theorem campaign_succeeds_iff_all_flashed_witness:
  "\<exists>st. execute_plan demo_env [''BCM ECU'', ''Cluster ECU''] = Inr (True, ''FLASHING COMPLETE'', st) \<and>
     ss_results st = map (\<lambda>n. (n, Flashed)) [''BCM ECU'', ''Cluster ECU'']"
proof -
  obtain p where p: "dynamic_plan demo_topology demo_vehicle (demo_campaign []) demo_eligible = Inr p"
    "up_update_order p = [''BCM ECU'', ''Cluster ECU'']" "up_dependency_map p = demo_dependencies"
    by (rule demo_dynamic_plan)
  obtain st where st: "execute_plan demo_env [''BCM ECU'', ''Cluster ECU''] = Inr (True, ''FLASHING COMPLETE'', st)"
    using demo_execution by blast
  from campaign_succeeds_iff_all_flashed [OF p(1) demo_follows [OF p(2,3)], unfolded p(2), OF st] st
  show ?thesis by simp
qed

theorem campaign_respects_dependencies_witness:
  "\<exists>st. execute_plan demo_env [''BCM ECU'', ''Cluster ECU''] = Inr (True, ''FLASHING COMPLETE'', st) \<and>
     ss_results st = [(''BCM ECU'', Flashed)] @ (''Cluster ECU'', Flashed) # [] \<and>
     ((''BCM ECU'', Flashed) \<in> set [(''BCM ECU'', Flashed)] \<or>
      map_of (plan_classifications demo_topology demo_vehicle (demo_campaign []) demo_eligible) ''BCM ECU'' =
        Some AlreadySatisfied)"
proof -
  obtain p where p: "dynamic_plan demo_topology demo_vehicle (demo_campaign []) demo_eligible = Inr p"
    "up_update_order p = [''BCM ECU'', ''Cluster ECU'']" "up_dependency_map p = demo_dependencies"
    by (rule demo_dynamic_plan)
  obtain st where st: "execute_plan demo_env [''BCM ECU'', ''Cluster ECU''] = Inr (True, ''FLASHING COMPLETE'', st)"
    "ss_results st = [(''BCM ECU'', Flashed)] @ (''Cluster ECU'', Flashed) # []"
    using demo_execution by auto
  have "''BCM ECU'' \<in> set (dependency_lookup (up_dependency_map p) ''Cluster ECU'')"
    by (simp add: p(3) dependency_lookup_def or_default_def)
  from campaign_respects_dependencies [OF p(1) demo_follows [OF p(2,3)], unfolded p(2), OF st _ this] st
  show ?thesis by blast
qed

end
