(* ===== verification/JSON_Text.thy ===== *)
theory JSON_Text
  imports Versions "HOL-Library.List_Lexorder" "HOL-Library.Char_ord"
begin

text \<open>
  JSON values as \<open>json.load\<close> gives them, the access the code makes to them, and the text that
  \<open>json.dumps(obj, sort_keys=True, separators=(",", ":"))\<close> writes, which is what the trust metadata
  is signed and hashed over.

  Numbers are integers: the metadata holds no others. A text is a list of characters below 256.
\<close>

datatype json =
    JsNull
  | JsBool bool
  | JsInt int
  | JsStr string
  | JsArr "json list"
  | JsObj "(string \<times> json) list"

section \<open>Access\<close>

text \<open>\<open>v[k]\<close>, \<open>v.get(k, d)\<close> and \<open>k in v\<close> on a dict; on any other value they raise or have no key.\<close>

fun js_get :: "json \<Rightarrow> string \<Rightarrow> json result" where
  "js_get (JsObj kvs) k = (case map_of kvs k of None \<Rightarrow> Inl (KeyError k) | Some v \<Rightarrow> Inr v)"
| "js_get _ k = Inl TypeError"

fun js_get_or :: "json \<Rightarrow> string \<Rightarrow> json \<Rightarrow> json result" where
  "js_get_or (JsObj kvs) k d = Inr (case map_of kvs k of None \<Rightarrow> d | Some v \<Rightarrow> v)"
| "js_get_or _ k d = Inl TypeError"

fun js_keys :: "json \<Rightarrow> string list result" where
  "js_keys (JsObj kvs) = Inr (map fst kvs)"
| "js_keys _ = Inl TypeError"

fun js_items :: "json \<Rightarrow> (string \<times> json) list result" where
  "js_items (JsObj kvs) = Inr kvs"
| "js_items _ = Inl TypeError"

fun js_list :: "json \<Rightarrow> json list result" where
  "js_list (JsArr xs) = Inr xs"
| "js_list _ = Inl TypeError"

fun js_str :: "json \<Rightarrow> string result" where
  "js_str (JsStr s) = Inr s"
| "js_str _ = Inl TypeError"

text \<open>A number in a comparison, and \<open>int(v)\<close>, which also reads a decimal text.\<close>

fun js_num :: "json \<Rightarrow> int result" where
  "js_num (JsInt n) = Inr n"
| "js_num (JsBool b) = Inr (if b then 1 else 0)"
| "js_num _ = Inl TypeError"

fun int_digits :: "string \<Rightarrow> bool" where
  "int_digits [] = False"
| "int_digits [c] = is_digit c"
| "int_digits (c # d # ds) \<longleftrightarrow> is_digit c \<and> (if d = CHR ''_'' then int_digits ds else int_digits (d # ds))"

definition int_of_text :: "string \<Rightarrow> int result" where
  "int_of_text s =
     (let t = strip_space s;
          (negative, ds) = (case t of c # cs \<Rightarrow> if c = CHR ''-'' then (True, cs)
                                        else if c = CHR ''+'' then (False, cs) else (False, t) | [] \<Rightarrow> (False, t));
          n = int (number (filter is_digit ds))
      in if int_digits ds then Inr (if negative then - n else n)
         else Inl (ValueError ''invalid literal for int()''))"

fun js_int :: "json \<Rightarrow> int result" where
  "js_int (JsStr s) = int_of_text s"
| "js_int v = js_num v"

section \<open>\<open>dumps\<close>\<close>

text \<open>Equality of Python values, where a boolean equals the number it stands for.\<close>

definition js_eq :: "json \<Rightarrow> json \<Rightarrow> bool" where
  "js_eq a b \<longleftrightarrow> (case (js_num a, js_num b) of (Inr m, Inr n) \<Rightarrow> m = n | _ \<Rightarrow> a = b)"

definition js_hex :: "nat \<Rightarrow> char" where
  "js_hex n = char_of (if n < 10 then 48 + n else 87 + n)"

definition js_escape :: "char \<Rightarrow> string" where
  "js_escape c =
     (let n = (of_char c :: nat) in
      if n = 34 then [CHR 0x5C, CHR 0x22]
      else if n = 92 then [CHR 0x5C, CHR 0x5C]
      else if n = 10 then [CHR 0x5C, CHR ''n'']
      else if n = 13 then [CHR 0x5C, CHR ''r'']
      else if n = 9 then [CHR 0x5C, CHR ''t'']
      else if n = 12 then [CHR 0x5C, CHR ''f'']
      else if n = 8 then [CHR 0x5C, CHR ''b'']
      else if 32 \<le> n \<and> n \<le> 126 then [c]
      else [CHR 0x5C, CHR ''u'', CHR ''0'', CHR ''0'', js_hex (n div 16), js_hex (n mod 16)])"

definition js_quote :: "string \<Rightarrow> string" where
  "js_quote s = [CHR 0x22] @ concat (map js_escape s) @ [CHR 0x22]"

fun js_join :: "string \<Rightarrow> string list \<Rightarrow> string" where
  "js_join sep [] = []"
| "js_join sep [s] = s"
| "js_join sep (s # t # ts) = s @ sep @ js_join sep (t # ts)"

definition show_int :: "int \<Rightarrow> string" where
  "show_int n = (if n < 0 then CHR ''-'' # show_nat (nat (- n)) else show_nat (nat n))"

fun dumps :: "json \<Rightarrow> string" where
  "dumps JsNull = ''null''"
| "dumps (JsBool b) = (if b then ''true'' else ''false'')"
| "dumps (JsInt n) = show_int n"
| "dumps (JsStr s) = js_quote s"
| "dumps (JsArr xs) = ''['' @ js_join '','' (map dumps xs) @ '']''"
| "dumps (JsObj kvs) =
     ''{'' @ js_join '','' (map (\<lambda>(k, t). js_quote k @ '':'' @ t)
       (sort_key fst (map (\<lambda>(k, v). (k, dumps v)) kvs))) @ ''}''"

definition canonical_json_bytes :: "json \<Rightarrow> bytes" where
  "canonical_json_bytes v = bytes_of (dumps v)"

section \<open>Facts\<close>

lemma js_get_Inr_iff: "js_get v k = Inr x \<longleftrightarrow> (\<exists>kvs. v = JsObj kvs \<and> map_of kvs k = Some x)"
  by (cases v) (auto split: option.splits)

end
