(* ===== verification/Trust_Metadata.thy ===== *)
theory Trust_Metadata
  imports JSON_Text Firmware_Image "HOL-Library.AList"
begin

text \<open>
  The trust gate of a release: \<open>tcu/trust/uptane_verifier.py\<close> (\<open>UptaneVerifier\<close>).

  The release directory is two functions: the parsed metadata files and the bytes of the
  artifacts; a missing file is \<open>None\<close>. The clock and the reading of an ISO 8601 timestamp are
  parameters (\<open>tr_now\<close>, \<open>tr_timestamp\<close>), in seconds. The state file holds, per role, the highest
  version accepted. Python dicts are association lists; the set of required roles is walked in a
  fixed order, which only decides which of several errors is raised.
\<close>

record trust_env =
  tr_files :: "string \<Rightarrow> json option"
  tr_artifacts :: "string \<Rightarrow> bytes option"
  tr_now :: clock
  tr_timestamp :: "string \<Rightarrow> clock result"

record trusted_role =
  tro_version :: int
  tro_expires :: json
  tro_sha256 :: string

type_synonym trust_state = "(string \<times> trusted_role) list"

record trusted_target =
  tt_file :: string
  tt_length :: nat
  tt_sha256 :: string
  tt_custom :: json

section \<open>Roles\<close>

definition js_has :: "json \<Rightarrow> string \<Rightarrow> bool" where
  "js_has v k \<longleftrightarrow> (case v of JsObj kvs \<Rightarrow> k \<in> fst ` set kvs | _ \<Rightarrow> False)"

definition load_role :: "trust_env \<Rightarrow> string \<Rightarrow> bool \<Rightarrow> json result" where
  "load_role env filename require_signatures =
     (case tr_files env filename of
        None \<Rightarrow> Inl (FileNotFoundError ''Trust metadata missing'')
      | Some role \<Rightarrow>
          if \<not> js_has role ''signed'' then Inl (ValueError ''Trust metadata missing signed section'')
          else if require_signatures \<and> \<not> js_has role ''signatures''
          then Inl (ValueError ''Trust metadata missing signatures'')
          else Inr role)"

definition required_roles :: "string list" where
  "required_roles = [''root'', ''snapshot'', ''targets'', ''timestamp'']"

definition validate_root_role :: "json \<Rightarrow> json \<Rightarrow> string \<Rightarrow> unit result" where
  "validate_root_role roles keys role_name =
     bindE (js_get roles role_name) (\<lambda>rule.
     bindE (bindE (js_get_or rule ''threshold'' (JsInt 0)) js_int) (\<lambda>threshold.
     bindE (bindE (js_get_or rule ''keyids'' (JsArr [])) js_list) (\<lambda>keyids.
       if threshold < 1 then Inl (RuntimeError ''metadata threshold must be >= 1'')
       else if int (length keyids) < threshold then Inl (RuntimeError ''metadata key threshold cannot be met'')
       else forE keyids (\<lambda>keyid _. bindE (js_str keyid) (\<lambda>k.
              if js_has keys k then Inr () else Inl (RuntimeError ''metadata references unknown key''))) ())))"

definition validate_root :: "json \<Rightarrow> unit result" where
  "validate_root body =
     bindE (js_get_or body ''roles'' (JsObj [])) (\<lambda>roles.
     bindE (js_get_or body ''keys'' (JsObj [])) (\<lambda>keys.
     bindE (js_keys roles) (\<lambda>names.
       if \<not> set required_roles \<subseteq> set names then Inl (RuntimeError ''root metadata missing required roles'')
       else forE required_roles (\<lambda>role_name _. validate_root_role roles keys role_name) ())))"

definition validate_role :: "json \<Rightarrow> string \<Rightarrow> unit result" where
  "validate_role body role_name =
     bindE (js_get_or body ''role'' JsNull) (\<lambda>r.
       if r \<noteq> JsStr role_name then Inl (RuntimeError ''metadata role name mismatch'')
       else bindE (bindE (js_get_or body ''version'' (JsInt 0)) js_int) (\<lambda>version.
         if version < 1 then Inl (RuntimeError ''metadata version must be >= 1'') else Inr ()))"

definition check_expiry :: "trust_env \<Rightarrow> json \<Rightarrow> unit result" where
  "check_expiry env body =
     bindE (bindE (js_get body ''expires'') js_str) (\<lambda>value.
     bindE (tr_timestamp env value) (\<lambda>expires_at.
       if expires_at \<le> tr_now env then Inl (RuntimeError ''metadata expired'') else Inr ()))"

section \<open>Signatures\<close>

text \<open>\<open>hmac.compare_digest\<close> refuses texts that are not ASCII.\<close>

definition compare_digest :: "string \<Rightarrow> json \<Rightarrow> bool result" where
  "compare_digest a b =
     bindE (js_str b) (\<lambda>b.
       if list_all (\<lambda>c. (of_char c :: nat) < 128) a \<and> list_all (\<lambda>c. (of_char c :: nat) < 128) b
       then Inr (a = b) else Inl TypeError)"

text \<open>The body of the loop over the signatures: the valid key ids so far, each once.\<close>

definition check_signature ::
    "json \<Rightarrow> json \<Rightarrow> bytes \<Rightarrow> json \<Rightarrow> string list \<Rightarrow> string list result" where
  "check_signature trusted_keys role_rule signed_bytes signature valid =
     bindE (bindE (js_get signature ''keyid'') js_str) (\<lambda>keyid.
     bindE (bindE (js_get role_rule ''keyids'') js_list) (\<lambda>keyids.
       if JsStr keyid \<notin> set keyids then Inr valid
       else bindE (js_get_or trusted_keys keyid JsNull) (\<lambda>key_entry.
         if key_entry = JsNull then Inr valid
         else bindE (js_get_or key_entry ''algorithm'' JsNull) (\<lambda>algorithm.
           if algorithm \<noteq> JsStr ''hmac-sha256'' then Inr valid
           else bindE (bindE (js_get key_entry ''key'') js_str) (\<lambda>key.
                bindE (fromhex key) (\<lambda>key_bytes.
                bindE (js_get signature ''sig'') (\<lambda>sig.
                bindE (compare_digest (hex_of (hmac_sha256 key_bytes signed_bytes)) sig) (\<lambda>ok.
                  Inr (if ok then List.insert keyid valid else valid)))))))))"

definition verify_signatures :: "json \<Rightarrow> json \<Rightarrow> json \<Rightarrow> unit result" where
  "verify_signatures role trusted_keys role_rule =
     bindE (bindE (js_get_or role ''signatures'' (JsArr [])) js_list) (\<lambda>signatures.
     bindE (bindE (js_get role_rule ''threshold'') js_num) (\<lambda>threshold.
       if int (length signatures) < threshold then Inl (RuntimeError ''metadata has insufficient signatures'')
       else bindE (js_get role ''signed'') (\<lambda>body.
            bindE (forE signatures (check_signature trusted_keys role_rule (canonical_json_bytes body)) [])
              (\<lambda>valid_keyids.
                if int (length valid_keyids) < threshold
                then Inl (RuntimeError ''metadata signature verification failed'') else Inr ()))))"

definition load_and_verify_role ::
    "trust_env \<Rightarrow> string \<Rightarrow> string \<Rightarrow> json \<Rightarrow> json \<Rightarrow> json result" where
  "load_and_verify_role env filename role_name trusted_keys trusted_roles =
     bindE (load_role env filename True) (\<lambda>role.
     bindE (js_get role ''signed'') (\<lambda>body.
     bindE (validate_role body role_name) (\<lambda>_.
     bindE (check_expiry env body) (\<lambda>_.
     bindE (js_get trusted_roles role_name) (\<lambda>rule.
     bindE (verify_signatures role trusted_keys rule) (\<lambda>_. Inr role))))))"

section \<open>Rollback and bindings\<close>

definition trusted_version :: "trust_state \<Rightarrow> string \<Rightarrow> int" where
  "trusted_version state role_name = (case map_of state role_name of None \<Rightarrow> 0 | Some r \<Rightarrow> tro_version r)"

definition check_rollback :: "json \<Rightarrow> string \<Rightarrow> trust_state \<Rightarrow> unit result" where
  "check_rollback body role_name state =
     bindE (bindE (js_get_or body ''version'' (JsInt 0)) js_int) (\<lambda>current.
       if current < trusted_version state role_name then Inl (RuntimeError ''metadata rollback detected'')
       else Inr ())"

definition check_meta_binding :: "json \<Rightarrow> string \<Rightarrow> json \<Rightarrow> unit result" where
  "check_meta_binding meta filename role =
     (if \<not> js_has meta filename then Inl (RuntimeError ''Metadata binding missing'')
      else bindE (js_get meta filename) (\<lambda>expected.
           bindE (js_get expected ''version'') (\<lambda>expected_version.
           bindE (bindE (js_get role ''signed'') (\<lambda>body. js_get body ''version'')) (\<lambda>version.
             if \<not> js_eq expected_version version then Inl (RuntimeError ''version mismatch'')
             else bindE (js_get expected ''length'') (\<lambda>len.
               if \<not> js_eq len (JsInt (int (length (canonical_json_bytes role))))
               then Inl (RuntimeError ''length mismatch'')
               else bindE (bindE (js_get expected ''hashes'') (\<lambda>h. js_get h ''sha256'')) (\<lambda>sha256.
                 if sha256 \<noteq> JsStr (hexdigest (canonical_json_bytes role))
                 then Inl (RuntimeError ''hash mismatch'') else Inr ()))))))"

section \<open>Artifacts\<close>

definition required_custom :: "string list" where
  "required_custom =
     [''ecu_name'', ''hardware_variant'', ''target_version'', ''minimum_bootloader'', ''transport_support'']"

definition validate_target_metadata :: "json \<Rightarrow> unit result" where
  "validate_target_metadata entry =
     bindE (js_get_or entry ''custom'' (JsObj [])) (\<lambda>custom.
     bindE (js_keys custom) (\<lambda>names.
       if \<not> set required_custom \<subseteq> set names then Inl (RuntimeError ''missing trusted custom metadata'')
       else bindE (js_get_or custom ''transport_support'' JsNull) (\<lambda>support.
         case support of JsArr (_ # _) \<Rightarrow> Inr ()
         | _ \<Rightarrow> Inl (RuntimeError ''transport_support must be a non-empty list''))))"

definition verify_artifact ::
    "trust_env \<Rightarrow> string \<times> json \<Rightarrow> (string \<times> trusted_target) list \<Rightarrow> (string \<times> trusted_target) list result" where
  "verify_artifact env item trusted =
     (let (filename, entry) = item in
      case tr_artifacts env filename of
        None \<Rightarrow> Inl (FileNotFoundError ''Trusted artifact missing'')
      | Some content \<Rightarrow>
          bindE (js_get entry ''length'') (\<lambda>len.
            if \<not> js_eq len (JsInt (int (length content))) then Inl (RuntimeError ''trusted length mismatch'')
            else bindE (bindE (js_get entry ''hashes'') (\<lambda>h. js_get h ''sha256'')) (\<lambda>sha256.
              if sha256 \<noteq> JsStr (hexdigest content) then Inl (RuntimeError ''trusted hash mismatch'')
              else bindE (validate_target_metadata entry) (\<lambda>_.
                   bindE (js_get_or entry ''custom'' (JsObj [])) (\<lambda>custom.
                     Inr (AList.update filename \<lparr>tt_file = filename, tt_length = length content,
                          tt_sha256 = hexdigest content, tt_custom = custom\<rparr> trusted))))))"

definition verify_artifacts :: "trust_env \<Rightarrow> json \<Rightarrow> (string \<times> trusted_target) list result" where
  "verify_artifacts env targets =
     bindE (js_items targets) (\<lambda>items. forE items (verify_artifact env) [])"

section \<open>\<open>verify\<close>\<close>

definition store_role :: "string \<times> json \<Rightarrow> trust_state \<Rightarrow> trust_state result" where
  "store_role entry state =
     (let (role_name, role) = entry in
      bindE (js_get role ''signed'') (\<lambda>body.
      bindE (bindE (js_get body ''version'') js_int) (\<lambda>version.
      bindE (js_get body ''expires'') (\<lambda>expires.
        Inr (AList.update role_name
          \<lparr>tro_version = max (trusted_version state role_name) version, tro_expires = expires,
           tro_sha256 = hexdigest (canonical_json_bytes role)\<rparr> state)))))"

definition verify_release ::
    "trust_env \<Rightarrow> trust_state \<Rightarrow> ((string \<times> trusted_target) list \<times> trust_state) result" where
  "verify_release env state =
     bindE (load_role env ''root.json'' True) (\<lambda>root.
     bindE (js_get root ''signed'') (\<lambda>root_body.
     bindE (validate_root root_body) (\<lambda>_.
     bindE (check_expiry env root_body) (\<lambda>_.
     bindE (js_get root_body ''keys'') (\<lambda>trusted_keys.
     bindE (js_get root_body ''roles'') (\<lambda>trusted_roles.
     bindE (js_get trusted_roles ''root'') (\<lambda>root_rule.
     bindE (verify_signatures root trusted_keys root_rule) (\<lambda>_.
     bindE (check_rollback root_body ''root'' state) (\<lambda>_.
     bindE (load_and_verify_role env ''timestamp.json'' ''timestamp'' trusted_keys trusted_roles) (\<lambda>timestamp.
     bindE (load_and_verify_role env ''snapshot.json'' ''snapshot'' trusted_keys trusted_roles) (\<lambda>snapshot.
     bindE (load_and_verify_role env ''targets.json'' ''targets'' trusted_keys trusted_roles) (\<lambda>targets.
     bindE (forE [(''timestamp'', timestamp), (''snapshot'', snapshot), (''targets'', targets)]
       (\<lambda>(role_name, role) _. bindE (js_get role ''signed'') (\<lambda>body. check_rollback body role_name state)) ()) (\<lambda>_.
     bindE (bindE (bindE (js_get timestamp ''signed'') (\<lambda>body. js_get body ''meta''))
       (\<lambda>meta. check_meta_binding meta ''snapshot.json'' snapshot)) (\<lambda>_.
     bindE (bindE (bindE (js_get snapshot ''signed'') (\<lambda>body. js_get body ''meta''))
       (\<lambda>meta. check_meta_binding meta ''targets.json'' targets)) (\<lambda>_.
     bindE (bindE (bindE (js_get targets ''signed'') (\<lambda>body. js_get body ''targets''))
       (verify_artifacts env)) (\<lambda>trusted_targets.
     bindE (forE [(''root'', root), (''timestamp'', timestamp), (''snapshot'', snapshot), (''targets'', targets)]
       store_role state) (\<lambda>state'.
       Inr (trusted_targets, state'))))))))))))))))))"

section \<open>What a signature check establishes\<close>

text \<open>\<open>k\<close> is a key id of the rule, and one of the signatures of \<open>role\<close> is its HMAC of the signed part.\<close>

definition signed_by :: "json \<Rightarrow> json \<Rightarrow> json \<Rightarrow> string \<Rightarrow> bool" where
  "signed_by role trusted_keys role_rule k \<longleftrightarrow>
     (\<exists>body keyids entry key key_bytes signatures s.
        js_get role ''signed'' = Inr body \<and>
        js_get role_rule ''keyids'' = Inr (JsArr keyids) \<and> JsStr k \<in> set keyids \<and>
        js_get trusted_keys k = Inr entry \<and> js_get entry ''key'' = Inr (JsStr key) \<and> fromhex key = Inr key_bytes \<and>
        js_get role ''signatures'' = Inr (JsArr signatures) \<and> s \<in> set signatures \<and>
        js_get s ''keyid'' = Inr (JsStr k) \<and>
        js_get s ''sig'' = Inr (JsStr (hex_of (hmac_sha256 key_bytes (canonical_json_bytes body)))))"

definition threshold_signed :: "json \<Rightarrow> json \<Rightarrow> json \<Rightarrow> bool" where
  "threshold_signed role trusted_keys role_rule \<longleftrightarrow>
     (\<exists>threshold ks. bindE (js_get role_rule ''threshold'') js_num = Inr threshold \<and> distinct ks \<and>
        threshold \<le> int (length ks) \<and> (\<forall>k \<in> set ks. signed_by role trusted_keys role_rule k))"

lemma js_str_Inr_iff: "js_str v = Inr s \<longleftrightarrow> v = JsStr s" by (cases v) auto
lemma js_list_Inr_iff: "js_list v = Inr xs \<longleftrightarrow> v = JsArr xs" by (cases v) auto
lemma js_items_Inr_iff: "js_items v = Inr kvs \<longleftrightarrow> v = JsObj kvs" by (cases v) auto
lemma js_keys_Inr_iff: "js_keys v = Inr ks \<longleftrightarrow> (\<exists>kvs. v = JsObj kvs \<and> ks = map fst kvs)" by (cases v) auto

lemma js_get_or_Inr_iff: "js_get_or v k d = Inr x \<longleftrightarrow>
    js_get v k = Inr x \<or> (\<exists>kvs. v = JsObj kvs \<and> map_of kvs k = None \<and> x = d)"
  by (cases v) (auto split: option.splits)

lemmas js_iffs = js_str_Inr_iff js_list_Inr_iff js_items_Inr_iff js_keys_Inr_iff bindE_Inr_iff

lemma check_signature_adds:
  assumes "check_signature keys rule (canonical_json_bytes body) s valid = Inr valid'"
    and "js_get role ''signed'' = Inr body" "js_get role ''signatures'' = Inr (JsArr signatures)" "s \<in> set signatures"
  shows "valid' = valid \<or> (\<exists>k. signed_by role keys rule k \<and> valid' = List.insert k valid)"
proof (cases "valid' = valid")
  case False
  obtain k where k: "js_get s ''keyid'' = Inr (JsStr k)"
    using assms(1) by (auto simp: check_signature_def js_iffs)
  obtain keyids where keyids: "js_get rule ''keyids'' = Inr (JsArr keyids)" "JsStr k \<in> set keyids"
    using assms(1) False k by (auto simp: check_signature_def js_iffs split: if_splits)
  obtain entry where entry: "js_get_or keys k JsNull = Inr entry" "entry \<noteq> JsNull"
    using assms(1) False k keyids by (auto simp: check_signature_def js_iffs split: if_splits)
  then have entry': "js_get keys k = Inr entry" by (auto simp: js_get_or_Inr_iff)
  obtain key kb sig ok where key: "js_get entry ''key'' = Inr (JsStr key)" "fromhex key = Inr kb"
    and sig: "js_get s ''sig'' = Inr sig"
    and ok: "compare_digest (hex_of (hmac_sha256 kb (canonical_json_bytes body))) sig = Inr ok"
    and v: "valid' = (if ok then List.insert k valid else valid)"
    using assms(1) False k keyids entry by (auto simp: check_signature_def js_iffs split: if_splits)
  from v False have "ok" by (auto split: if_splits)
  with ok have "sig = JsStr (hex_of (hmac_sha256 kb (canonical_json_bytes body)))"
    by (auto simp: compare_digest_def js_iffs split: if_splits)
  with sig have "signed_by role keys rule k"
    unfolding signed_by_def using assms(2-4) keyids entry' key k by blast
  with v \<open>ok\<close> show ?thesis by auto
qed simp

lemma check_signatures_all:
  "forE ss (check_signature keys rule (canonical_json_bytes body)) valid = Inr valid' \<Longrightarrow>
   js_get role ''signed'' = Inr body \<Longrightarrow> js_get role ''signatures'' = Inr (JsArr signatures) \<Longrightarrow>
   set ss \<subseteq> set signatures \<Longrightarrow> distinct valid \<Longrightarrow> \<forall>k \<in> set valid. signed_by role keys rule k \<Longrightarrow>
   distinct valid' \<and> (\<forall>k \<in> set valid'. signed_by role keys rule k)"
proof (induction ss arbitrary: valid)
  case Nil
  then show ?case by simp
next
  case (Cons s ss)
  obtain v1 where v1: "check_signature keys rule (canonical_json_bytes body) s valid = Inr v1"
    and rest: "forE ss (check_signature keys rule (canonical_json_bytes body)) v1 = Inr valid'"
    using Cons.prems(1) by (auto simp: bindE_Inr_iff)
  have "v1 = valid \<or> (\<exists>k. signed_by role keys rule k \<and> v1 = List.insert k valid)"
    using check_signature_adds [OF v1 Cons.prems(2,3)] Cons.prems(4) by simp
  then have "distinct v1 \<and> (\<forall>k \<in> set v1. signed_by role keys rule k)"
    using Cons.prems(5,6) by auto
  with Cons.IH [OF rest Cons.prems(2,3)] Cons.prems(4) show ?case by simp
qed

lemma verify_signatures_threshold:
  assumes "verify_signatures role keys rule = Inr u"
  shows "threshold_signed role keys rule"
proof -
  obtain signatures threshold body valid where
    sigs: "js_get_or role ''signatures'' (JsArr []) = Inr (JsArr signatures)"
    and thr: "bindE (js_get rule ''threshold'') js_num = Inr threshold"
    and body: "js_get role ''signed'' = Inr body"
    and run: "forE signatures (check_signature keys rule (canonical_json_bytes body)) [] = Inr valid"
    and enough: "\<not> int (length valid) < threshold"
    using assms by (auto simp: verify_signatures_def js_iffs split: if_splits)
  have "distinct valid \<and> (\<forall>k \<in> set valid. signed_by role keys rule k)"
  proof (cases "js_get role ''signatures'' = Inr (JsArr signatures)")
    case True
    then show ?thesis using check_signatures_all [OF run body] by simp
  next
    case False
    with sigs have "signatures = []" by (auto simp: js_get_or_Inr_iff)
    with run show ?thesis by simp
  qed
  with thr enough show ?thesis unfolding threshold_signed_def by (metis not_less)
qed

lemma load_and_verify_role_parts:
  assumes "load_and_verify_role env filename role_name keys roles = Inr role"
  shows "tr_files env filename = Some role" and "\<exists>rule. js_get roles role_name = Inr rule \<and> threshold_signed role keys rule"
  using assms verify_signatures_threshold
  by (auto simp: load_and_verify_role_def load_role_def bindE_Inr_iff split: option.splits if_splits)

section \<open>What verified artifacts are\<close>

lemma verify_artifact_result:
  assumes "verify_artifact env (f, entry) trusted = Inr trusted'"
  shows "\<exists>content custom. tr_artifacts env f = Some content \<and>
     trusted' = AList.update f \<lparr>tt_file = f, tt_length = length content, tt_sha256 = hexdigest content, tt_custom = custom\<rparr> trusted \<and>
     bindE (js_get entry ''hashes'') (\<lambda>h. js_get h ''sha256'') = Inr (JsStr (hexdigest content)) \<and>
     js_get_or entry ''custom'' (JsObj []) = Inr custom"
  using assms
  by (auto simp: verify_artifact_def bindE_Inr_iff split: option.splits if_splits)

text \<open>A trusted target is an artifact on disk with the hash and the custom data of its signed entry.\<close>

definition target_of_entry :: "trust_env \<Rightarrow> string \<Rightarrow> json \<Rightarrow> trusted_target \<Rightarrow> bool" where
  "target_of_entry env f entry t \<longleftrightarrow>
     (\<exists>content. tr_artifacts env f = Some content \<and> tt_file t = f \<and> tt_length t = length content \<and>
        tt_sha256 t = hexdigest content \<and>
        bindE (js_get entry ''hashes'') (\<lambda>h. js_get h ''sha256'') = Inr (JsStr (hexdigest content)) \<and>
        js_get_or entry ''custom'' (JsObj []) = Inr (tt_custom t))"

lemma verify_artifacts_result:
  "forE items (verify_artifact env) trusted = Inr trusted' \<Longrightarrow>
   \<forall>f t. map_of trusted f = Some t \<longrightarrow> (\<exists>entry. (f, entry) \<in> set all \<and> target_of_entry env f entry t) \<Longrightarrow>
   set items \<subseteq> set all \<Longrightarrow>
   \<forall>f t. map_of trusted' f = Some t \<longrightarrow> (\<exists>entry. (f, entry) \<in> set all \<and> target_of_entry env f entry t)"
proof (induction items arbitrary: trusted)
  case Nil
  then show ?case by simp
next
  case (Cons item items)
  obtain f entry where item: "item = (f, entry)" by fastforce
  obtain t1 where t1: "verify_artifact env (f, entry) trusted = Inr t1"
    and rest: "forE items (verify_artifact env) t1 = Inr trusted'"
    using Cons.prems(1) by (auto simp: bindE_Inr_iff item)
  have "\<exists>e. (g, e) \<in> set all \<and> target_of_entry env g e t" if "map_of t1 g = Some t" for g t
  proof (cases "g = f")
    case True
    with verify_artifact_result [OF t1] that have "target_of_entry env f entry t"
      by (auto simp: update_conv target_of_entry_def)
    with True Cons.prems(3) item show ?thesis by auto
  next
    case False
    with verify_artifact_result [OF t1] that Cons.prems(2) show ?thesis by (auto simp: update_conv)
  qed
  with Cons.IH [OF rest] Cons.prems(3) show ?case by simp
qed

section \<open>Accepted releases\<close>

lemma forE_simps3:
  "forE [] f s = Inr s" "forE (x # xs) f s = bindE (f x s) (forE xs f)"
  by simp_all

lemma load_role_file: "load_role env f b = Inr role \<Longrightarrow> tr_files env f = Some role"
  by (auto simp: load_role_def split: option.splits if_splits)

text \<open>The version of a role in the metadata of a release.\<close>

definition role_version :: "trust_env \<Rightarrow> string \<Rightarrow> int result" where
  "role_version env filename =
     (case tr_files env filename of
        None \<Rightarrow> Inl (FileNotFoundError ''Trust metadata missing'')
      | Some role \<Rightarrow> bindE (bindE (js_get role ''signed'') (\<lambda>body. js_get body ''version'')) js_int)"

definition trusted_files :: "(string \<times> string) list" where
  "trusted_files = [(''root'', ''root.json''), (''timestamp'', ''timestamp.json''),
     (''snapshot'', ''snapshot.json''), (''targets'', ''targets.json'')]"

lemma check_rollback_iff:
  assumes "bindE (js_get body ''version'') js_int = Inr v"
  shows "check_rollback body r state = Inr () \<longleftrightarrow> trusted_version state r \<le> v"
proof -
  obtain j where "js_get body ''version'' = Inr j" "js_int j = Inr v" using assms by (auto simp: bindE_Inr_iff)
  moreover from this have "js_get_or body ''version'' (JsInt 0) = Inr j" by (cases body) (auto split: option.splits)
  ultimately show ?thesis by (simp add: check_rollback_def not_less)
qed

lemma store_role_Inr_iff:
  "store_role (r, role) state = Inr state' \<longleftrightarrow>
    (\<exists>body v x. js_get role ''signed'' = Inr body \<and> bindE (js_get body ''version'') js_int = Inr v \<and>
       js_get body ''expires'' = Inr x \<and>
       state' = AList.update r \<lparr>tro_version = max (trusted_version state r) v, tro_expires = x,
         tro_sha256 = hexdigest (canonical_json_bytes role)\<rparr> state)"
  by (auto simp: store_role_def bindE_Inr_iff)

lemma trusted_version_update:
  "trusted_version (AList.update r x state) q = (if q = r then tro_version x else trusted_version state q)"
  by (simp add: trusted_version_def update_conv)

lemma store_roleD:
  assumes "store_role (r, role) state = Inr state'" and "js_get role ''signed'' = Inr body"
  obtains v where "bindE (js_get body ''version'') js_int = Inr v"
    and "\<And>q. trusted_version state' q = (if q = r then max (trusted_version state r) v else trusted_version state q)"
  using assms by (auto simp: store_role_Inr_iff trusted_version_update)

lemma verify_release_parts:
  assumes "verify_release env state = Inr (trusted, state')"
  obtains root root_body keys roles root_rule timestamp snapshot targets where
    "load_role env ''root.json'' True = Inr root" and "js_get root ''signed'' = Inr root_body"
    and "validate_root root_body = Inr ()" and "check_expiry env root_body = Inr ()"
    and "js_get root_body ''keys'' = Inr keys" and "js_get root_body ''roles'' = Inr roles"
    and "js_get roles ''root'' = Inr root_rule" and "verify_signatures root keys root_rule = Inr ()"
    and "check_rollback root_body ''root'' state = Inr ()"
    and "load_and_verify_role env ''timestamp.json'' ''timestamp'' keys roles = Inr timestamp"
    and "load_and_verify_role env ''snapshot.json'' ''snapshot'' keys roles = Inr snapshot"
    and "load_and_verify_role env ''targets.json'' ''targets'' keys roles = Inr targets"
    and "forE [(''timestamp'', timestamp), (''snapshot'', snapshot), (''targets'', targets)]
       (\<lambda>(role_name, role) _. bindE (js_get role ''signed'') (\<lambda>body. check_rollback body role_name state)) () = Inr ()"
    and "bindE (bindE (js_get timestamp ''signed'') (\<lambda>body. js_get body ''meta''))
       (\<lambda>meta. check_meta_binding meta ''snapshot.json'' snapshot) = Inr ()"
    and "bindE (bindE (js_get snapshot ''signed'') (\<lambda>body. js_get body ''meta''))
       (\<lambda>meta. check_meta_binding meta ''targets.json'' targets) = Inr ()"
    and "bindE (bindE (js_get targets ''signed'') (\<lambda>body. js_get body ''targets'')) (verify_artifacts env) = Inr trusted"
    and "forE [(''root'', root), (''timestamp'', timestamp), (''snapshot'', snapshot), (''targets'', targets)]
       store_role state = Inr state'"
  using assms unfolding verify_release_def bindE_Inr_iff [where f = "\<lambda>_. bindE m f" for m f]
    bindE_Inr_iff [where f = "\<lambda>x. bindE (m x) (f x)" for m f] bindE_Inr_iff [where f = "\<lambda>x. Inr (h x)" for h]
  by (elim exE conjE) (simp only: unit_eq sum.inject prod.inject)

lemma store_roles:
  assumes "forE [a, b, c, d] store_role state = Inr state'"
  obtains s1 s2 s3 where "store_role a state = Inr s1" "store_role b s1 = Inr s2" "store_role c s2 = Inr s3"
    "store_role d s3 = Inr state'"
proof -
  have "\<exists>s1. store_role a state = Inr s1 \<and> (\<exists>s2. store_role b s1 = Inr s2 \<and> (\<exists>s3. store_role c s2 = Inr s3 \<and>
      store_role d s3 = Inr state'))"
    using assms by (simp add: bindE_Inr_iff)
  with that show ?thesis by blast
qed

lemma rollback_checks:
  assumes "forE [(r1, a), (r2, b), (r3, c)]
    (\<lambda>(role_name, role) _. bindE (js_get role ''signed'') (\<lambda>body. check_rollback body role_name state)) () = Inr ()"
  obtains x y z where "js_get a ''signed'' = Inr x" "js_get b ''signed'' = Inr y" "js_get c ''signed'' = Inr z"
    "check_rollback x r1 state = Inr ()" "check_rollback y r2 state = Inr ()" "check_rollback z r3 state = Inr ()"
proof -
  have "(\<exists>x. js_get a ''signed'' = Inr x \<and> check_rollback x r1 state = Inr ()) \<and>
      (\<exists>x. js_get b ''signed'' = Inr x \<and> check_rollback x r2 state = Inr ()) \<and>
      (\<exists>x. js_get c ''signed'' = Inr x \<and> check_rollback x r3 state = Inr ())"
    using assms by (simp add: bindE_Inr_iff)
  with that show ?thesis by blast
qed

lemma accepted_versions:
  assumes "verify_release env state = Inr (trusted, state')" and "(r, f) \<in> set trusted_files"
  shows "\<exists>v. role_version env f = Inr v \<and> trusted_version state r \<le> v \<and> trusted_version state' r = v"
proof -
  obtain root root_body keys roles root_rule timestamp snapshot targets where
    root: "load_role env ''root.json'' True = Inr root" "js_get root ''signed'' = Inr root_body"
    and root_rb: "check_rollback root_body ''root'' state = Inr ()"
    and roles: "load_and_verify_role env ''timestamp.json'' ''timestamp'' keys roles = Inr timestamp"
      "load_and_verify_role env ''snapshot.json'' ''snapshot'' keys roles = Inr snapshot"
      "load_and_verify_role env ''targets.json'' ''targets'' keys roles = Inr targets"
    and rb: "forE [(''timestamp'', timestamp), (''snapshot'', snapshot), (''targets'', targets)]
       (\<lambda>(role_name, role) _. bindE (js_get role ''signed'') (\<lambda>body. check_rollback body role_name state)) () = Inr ()"
    and st: "forE [(''root'', root), (''timestamp'', timestamp), (''snapshot'', snapshot), (''targets'', targets)]
       store_role state = Inr state'"
    using assms(1) by (rule verify_release_parts)
  note files = load_role_file [OF root(1)] load_and_verify_role_parts(1) [OF roles(1)]
    load_and_verify_role_parts(1) [OF roles(2)] load_and_verify_role_parts(1) [OF roles(3)]
  obtain s1 s2 s3 where s: "store_role (''root'', root) state = Inr s1" "store_role (''timestamp'', timestamp) s1 = Inr s2"
    "store_role (''snapshot'', snapshot) s2 = Inr s3" "store_role (''targets'', targets) s3 = Inr state'"
    using st by (rule store_roles)
  obtain tb sb gb where bodies: "js_get timestamp ''signed'' = Inr tb" "js_get snapshot ''signed'' = Inr sb"
    "js_get targets ''signed'' = Inr gb" and
    rbs: "check_rollback tb ''timestamp'' state = Inr ()" "check_rollback sb ''snapshot'' state = Inr ()"
    "check_rollback gb ''targets'' state = Inr ()"
    using rb by (rule rollback_checks)
  obtain v1 where v1: "bindE (js_get root_body ''version'') js_int = Inr v1"
    "\<And>q. trusted_version s1 q = (if q = ''root'' then max (trusted_version state ''root'') v1 else trusted_version state q)"
    using store_roleD [OF s(1) root(2)] by blast
  obtain v2 where v2: "bindE (js_get tb ''version'') js_int = Inr v2"
    "\<And>q. trusted_version s2 q = (if q = ''timestamp'' then max (trusted_version s1 ''timestamp'') v2 else trusted_version s1 q)"
    using store_roleD [OF s(2) bodies(1)] by blast
  obtain v3 where v3: "bindE (js_get sb ''version'') js_int = Inr v3"
    "\<And>q. trusted_version s3 q = (if q = ''snapshot'' then max (trusted_version s2 ''snapshot'') v3 else trusted_version s2 q)"
    using store_roleD [OF s(3) bodies(2)] by blast
  obtain v4 where v4: "bindE (js_get gb ''version'') js_int = Inr v4"
    "\<And>q. trusted_version state' q = (if q = ''targets'' then max (trusted_version s3 ''targets'') v4 else trusted_version s3 q)"
    using store_roleD [OF s(4) bodies(3)] by blast
  note v = v1(1) v2(1) v3(1) v4(1)
  have st': "trusted_version state' ''root'' = max (trusted_version state ''root'') v1"
    "trusted_version state' ''timestamp'' = max (trusted_version state ''timestamp'') v2"
    "trusted_version state' ''snapshot'' = max (trusted_version state ''snapshot'') v3"
    "trusted_version state' ''targets'' = max (trusted_version state ''targets'') v4"
    by (simp_all add: v1(2) v2(2) v3(2) v4(2))
  have le: "trusted_version state ''root'' \<le> v1" "trusted_version state ''timestamp'' \<le> v2"
    "trusted_version state ''snapshot'' \<le> v3" "trusted_version state ''targets'' \<le> v4"
    using root_rb rbs v by (simp_all add: check_rollback_iff)
  have rv: "role_version env ''root.json'' = Inr v1" "role_version env ''timestamp.json'' = Inr v2"
    "role_version env ''snapshot.json'' = Inr v3" "role_version env ''targets.json'' = Inr v4"
    using files v root(2) bodies by (simp_all add: role_version_def)
  let ?P = "\<lambda>r f. \<exists>v. role_version env f = Inr v \<and> trusted_version state r \<le> v \<and> trusted_version state' r = v"
  have "?P ''root'' ''root.json''" "?P ''timestamp'' ''timestamp.json''" "?P ''snapshot'' ''snapshot.json''"
    "?P ''targets'' ''targets.json''"
    unfolding st' using rv le by (blast intro: max_absorb2)+
  with assms(2) show ?thesis
    unfolding trusted_files_def list.set insert_iff empty_iff prod.inject
    by (elim disjE conjE) (simp_all only:)
qed

text \<open>A vehicle that is offered one release after another; a refused one leaves the state as it was.\<close>

fun offer_releases :: "trust_env list \<Rightarrow> trust_state \<Rightarrow> trust_state" where
  "offer_releases [] state = state"
| "offer_releases (env # envs) state =
     (case verify_release env state of Inl _ \<Rightarrow> offer_releases envs state
      | Inr (_, state') \<Rightarrow> offer_releases envs state')"

lemma offer_releases_mono:
  "(r, f) \<in> set trusted_files \<Longrightarrow> trusted_version state r \<le> trusted_version (offer_releases envs state) r"
proof (induction envs arbitrary: state)
  case Nil
  then show ?case by simp
next
  case (Cons env envs)
  show ?case
  proof (cases "verify_release env state")
    case (Inr p)
    obtain trusted state' where p: "p = (trusted, state')" by fastforce
    have "trusted_version state r \<le> trusted_version state' r"
      using accepted_versions [OF _ Cons.prems] Inr p by fastforce
    also have "\<dots> \<le> trusted_version (offer_releases envs state') r" by (rule Cons.IH [OF Cons.prems])
    finally show ?thesis by (simp add: Inr p)
  qed (simp add: Cons.IH [OF Cons.prems])
qed

text \<open>C20: Metadata never rolls back: once a release has been accepted, whatever releases are offered
  after it, none is ever accepted whose root, timestamp, snapshot or targets metadata has a lower
  version.\<close>

theorem accepted_versions_never_decrease:
  assumes "verify_release old state = Inr (trusted, state')"
    and "verify_release new (offer_releases envs state') = Inr (trusted', state'')"
    and "(r, f) \<in> set trusted_files"
  shows "\<exists>v v'. role_version old f = Inr v \<and> role_version new f = Inr v' \<and> v \<le> v'"
proof -
  obtain v where v: "role_version old f = Inr v" "trusted_version state' r = v"
    using accepted_versions [OF assms(1,3)] by blast
  obtain v' where "role_version new f = Inr v'" "trusted_version (offer_releases envs state') r \<le> v'"
    using accepted_versions [OF assms(2,3)] by blast
  with v offer_releases_mono [OF assms(3), of state' envs] show ?thesis by (metis order_trans)
qed

lemma forE_unit: "forE xs (\<lambda>x _. f x) u = Inr v \<Longrightarrow> x \<in> set xs \<Longrightarrow> \<exists>w. f x = Inr w"
  by (induction xs arbitrary: u) (auto simp: bindE_Inr_iff)

lemma validate_root_threshold:
  assumes "validate_root body = Inr ()" and "js_get body ''roles'' = Inr roles" and "js_get roles r = Inr rule"
    and "r \<in> set required_roles" and "bindE (js_get rule ''threshold'') js_num = Inr threshold"
  shows "1 \<le> threshold"
proof -
  obtain keys where "forE required_roles (\<lambda>role_name _. validate_root_role roles keys role_name) () = Inr ()"
    using assms(1,2) by (auto simp: validate_root_def bindE_Inr_iff js_get_or_Inr_iff split: if_splits)
  then have "validate_root_role roles keys r = Inr ()" using forE_unit [OF _ assms(4)] by fastforce
  then obtain j t where "js_get_or rule ''threshold'' (JsInt 0) = Inr j" "js_int j = Inr t" "1 \<le> t"
    using assms(3) by (auto simp: validate_root_role_def bindE_Inr_iff split: if_splits)
  moreover obtain j' where "js_get rule ''threshold'' = Inr j'" "js_num j' = Inr threshold"
    using assms(5) by (auto simp: bindE_Inr_iff)
  ultimately show ?thesis by (cases j') (auto simp: js_get_Inr_iff split: if_splits)
qed

text \<open>
  \<open>entries\<close> are the targets of a release, signed as its root asks: the root names a rule for the
  role, and at least one and at least the threshold of different keys of the rule have a valid HMAC.
\<close>

definition signed_targets :: "trust_env \<Rightarrow> (string \<times> json) list \<Rightarrow> bool" where
  "signed_targets env entries \<longleftrightarrow>
     (\<exists>rt root_body keys roles rule targets body threshold ks.
        tr_files env ''root.json'' = Some rt \<and> js_get rt ''signed'' = Inr root_body \<and>
        js_get root_body ''keys'' = Inr keys \<and> js_get root_body ''roles'' = Inr roles \<and>
        js_get roles ''targets'' = Inr rule \<and> bindE (js_get rule ''threshold'') js_num = Inr threshold \<and>
        tr_files env ''targets.json'' = Some targets \<and> js_get targets ''signed'' = Inr body \<and>
        js_get body ''targets'' = Inr (JsObj entries) \<and> distinct ks \<and> 1 \<le> threshold \<and> threshold \<le> int (length ks) \<and>
        (\<forall>k \<in> set ks. signed_by targets keys rule k))"

lemma trusted_targets_signed:
  assumes "verify_release env state = Inr (trusted, state')"
  shows "\<exists>entries. signed_targets env entries \<and>
    (\<forall>f t. map_of trusted f = Some t \<longrightarrow> (\<exists>entry. (f, entry) \<in> set entries \<and> target_of_entry env f entry t))"
proof -
  obtain rt root_body keys roles targets where
    root: "load_role env ''root.json'' True = Inr rt" "js_get rt ''signed'' = Inr root_body"
      "validate_root root_body = Inr ()" "js_get root_body ''keys'' = Inr keys" "js_get root_body ''roles'' = Inr roles"
    and targets: "load_and_verify_role env ''targets.json'' ''targets'' keys roles = Inr targets"
    and artifacts: "bindE (bindE (js_get targets ''signed'') (\<lambda>body. js_get body ''targets'')) (verify_artifacts env) = Inr trusted"
    using assms by (rule verify_release_parts)
  obtain body entries where body: "js_get targets ''signed'' = Inr body" "js_get body ''targets'' = Inr (JsObj entries)"
    and run: "forE entries (verify_artifact env) [] = Inr trusted"
    using artifacts by (auto simp: bindE_Inr_iff verify_artifacts_def js_items_Inr_iff)
  have all: "\<forall>f t. map_of trusted f = Some t \<longrightarrow> (\<exists>entry. (f, entry) \<in> set entries \<and> target_of_entry env f entry t)"
    by (rule verify_artifacts_result [OF run]) simp_all
  obtain rule threshold ks where rule: "js_get roles ''targets'' = Inr rule"
    and ks: "bindE (js_get rule ''threshold'') js_num = Inr threshold" "distinct ks" "threshold \<le> int (length ks)"
      "\<forall>k \<in> set ks. signed_by targets keys rule k"
    using load_and_verify_role_parts(2) [OF targets] unfolding threshold_signed_def by blast
  have "1 \<le> threshold"
    by (rule validate_root_threshold [OF root(3,5) rule _ ks(1)]) (simp add: required_roles_def)
  with load_role_file [OF root(1)] root(2,4,5) rule ks(1) load_and_verify_role_parts(1) [OF targets] body ks(2-4)
  have "signed_targets env entries" unfolding signed_targets_def
    by - (rule exI [of _ rt], rule exI [of _ root_body], rule exI [of _ keys], rule exI [of _ roles], rule exI [of _ rule],
      rule exI [of _ targets], rule exI [of _ body], rule exI [of _ threshold], rule exI [of _ ks], simp)
  with all show ?thesis by blast
qed

text \<open>C21: What the gate passes on is signed and present: each trusted target is an artifact of the
  release whose length and SHA-256 are reported truly, and whose hash and custom data are those of
  an entry in the signed part of \<open>targets.json\<close>, which carries valid HMACs of at least one key and
  of as many different keys as the root's threshold for the role asks.\<close>

theorem trusted_targets_are_signed:
  assumes "verify_release env state = Inr (trusted, state')"
  shows "\<exists>entries. signed_targets env entries \<and>
    (\<forall>f t. map_of trusted f = Some t \<longrightarrow> (\<exists>entry. (f, entry) \<in> set entries \<and> target_of_entry env f entry t))"
  using assms by (rule trusted_targets_signed)

section \<open>The root is not pinned\<close>

lemma verify_releaseI:
  assumes "load_role env ''root.json'' True = Inr rt" and "js_get rt ''signed'' = Inr root_body"
    and "validate_root root_body = Inr ()" and "check_expiry env root_body = Inr ()"
    and "js_get root_body ''keys'' = Inr keys" and "js_get root_body ''roles'' = Inr roles"
    and "js_get roles ''root'' = Inr root_rule" and "verify_signatures rt keys root_rule = Inr ()"
    and "load_and_verify_role env ''timestamp.json'' ''timestamp'' keys roles = Inr timestamp"
    and "load_and_verify_role env ''snapshot.json'' ''snapshot'' keys roles = Inr snapshot"
    and "load_and_verify_role env ''targets.json'' ''targets'' keys roles = Inr targets"
    and "bindE (bindE (js_get timestamp ''signed'') (\<lambda>body. js_get body ''meta''))
       (\<lambda>meta. check_meta_binding meta ''snapshot.json'' snapshot) = Inr ()"
    and "bindE (bindE (js_get snapshot ''signed'') (\<lambda>body. js_get body ''meta''))
       (\<lambda>meta. check_meta_binding meta ''targets.json'' targets) = Inr ()"
    and "bindE (bindE (js_get targets ''signed'') (\<lambda>body. js_get body ''targets'')) (verify_artifacts env) = Inr trusted"
    and "js_get timestamp ''signed'' = Inr tb" "js_get snapshot ''signed'' = Inr sb" "js_get targets ''signed'' = Inr gb"
    and "check_rollback root_body ''root'' state = Inr ()" "check_rollback tb ''timestamp'' state = Inr ()"
      "check_rollback sb ''snapshot'' state = Inr ()" "check_rollback gb ''targets'' state = Inr ()"
    and "store_role (''root'', rt) state = Inr o1" "store_role (''timestamp'', timestamp) o1 = Inr o2"
      "store_role (''snapshot'', snapshot) o2 = Inr o3" "store_role (''targets'', targets) o3 = Inr o4"
  shows "verify_release env state = Inr (trusted, o4)"
  unfolding verify_release_def using assms by simp

lemma store_role_any: "store_role e state = Inr state' \<Longrightarrow> \<exists>s. store_role e other = Inr s"
  by (cases e) (auto simp: store_role_Inr_iff)

lemma check_rollback_any:
  assumes "check_rollback body r state = Inr ()" and "bindE (js_get body ''version'') js_int = Inr v"
    and "trusted_version other r \<le> v"
  shows "check_rollback body r other = Inr ()"
  using check_rollback_iff [OF assms(2)] assms(3) by blast

lemma role_version_eq:
  assumes "tr_files env f = Some role" and "js_get role ''signed'' = Inr body"
    and "bindE (js_get body ''version'') js_int = Inr v"
  shows "role_version env f = Inr v"
  using assms by (simp add: role_version_def)

text \<open>C32: Trust is not anchored: whether a vehicle accepts a release depends on what it accepted
  before only through the version numbers. A release that one device accepts, signed with whatever
  keys its own \<open>root.json\<close> declares, is accepted with the same targets by every vehicle whose
  recorded versions are not higher.\<close>

theorem acceptance_ignores_earlier_keys:
  assumes "verify_release env state = Inr (trusted, state')"
    and "\<And>r f v. (r, f) \<in> set trusted_files \<Longrightarrow> role_version env f = Inr v \<Longrightarrow> trusted_version other r \<le> v"
  shows "\<exists>other'. verify_release env other = Inr (trusted, other')"
proof -
  obtain root root_body keys roles root_rule timestamp snapshot targets where
    root: "load_role env ''root.json'' True = Inr root" "js_get root ''signed'' = Inr root_body"
      "validate_root root_body = Inr ()" "check_expiry env root_body = Inr ()"
      "js_get root_body ''keys'' = Inr keys" "js_get root_body ''roles'' = Inr roles"
      "js_get roles ''root'' = Inr root_rule" "verify_signatures root keys root_rule = Inr ()"
    and root_rb: "check_rollback root_body ''root'' state = Inr ()"
    and roles: "load_and_verify_role env ''timestamp.json'' ''timestamp'' keys roles = Inr timestamp"
      "load_and_verify_role env ''snapshot.json'' ''snapshot'' keys roles = Inr snapshot"
      "load_and_verify_role env ''targets.json'' ''targets'' keys roles = Inr targets"
    and rb: "forE [(''timestamp'', timestamp), (''snapshot'', snapshot), (''targets'', targets)]
       (\<lambda>(role_name, role) _. bindE (js_get role ''signed'') (\<lambda>body. check_rollback body role_name state)) () = Inr ()"
    and bindings: "bindE (bindE (js_get timestamp ''signed'') (\<lambda>body. js_get body ''meta''))
       (\<lambda>meta. check_meta_binding meta ''snapshot.json'' snapshot) = Inr ()"
      "bindE (bindE (js_get snapshot ''signed'') (\<lambda>body. js_get body ''meta''))
       (\<lambda>meta. check_meta_binding meta ''targets.json'' targets) = Inr ()"
      "bindE (bindE (js_get targets ''signed'') (\<lambda>body. js_get body ''targets'')) (verify_artifacts env) = Inr trusted"
    and st: "forE [(''root'', root), (''timestamp'', timestamp), (''snapshot'', snapshot), (''targets'', targets)]
       store_role state = Inr state'"
    using assms(1) by (rule verify_release_parts)
  obtain s1 s2 s3 where s: "store_role (''root'', root) state = Inr s1" "store_role (''timestamp'', timestamp) s1 = Inr s2"
    "store_role (''snapshot'', snapshot) s2 = Inr s3" "store_role (''targets'', targets) s3 = Inr state'"
    using st by (rule store_roles)
  obtain tb sb gb where bodies: "js_get timestamp ''signed'' = Inr tb" "js_get snapshot ''signed'' = Inr sb"
    "js_get targets ''signed'' = Inr gb" and
    rbs: "check_rollback tb ''timestamp'' state = Inr ()" "check_rollback sb ''snapshot'' state = Inr ()"
    "check_rollback gb ''targets'' state = Inr ()"
    using rb by (rule rollback_checks)
  note files = load_role_file [OF root(1)] load_and_verify_role_parts(1) [OF roles(1)]
    load_and_verify_role_parts(1) [OF roles(2)] load_and_verify_role_parts(1) [OF roles(3)]
  have names: "(''root'', ''root.json'') \<in> set trusted_files" "(''timestamp'', ''timestamp.json'') \<in> set trusted_files"
    "(''snapshot'', ''snapshot.json'') \<in> set trusted_files" "(''targets'', ''targets.json'') \<in> set trusted_files"
    by (simp_all add: trusted_files_def)
  obtain v1 where v1: "bindE (js_get root_body ''version'') js_int = Inr v1" by (rule store_roleD [OF s(1) root(2)])
  obtain v2 where v2: "bindE (js_get tb ''version'') js_int = Inr v2" by (rule store_roleD [OF s(2) bodies(1)])
  obtain v3 where v3: "bindE (js_get sb ''version'') js_int = Inr v3" by (rule store_roleD [OF s(3) bodies(2)])
  obtain v4 where v4: "bindE (js_get gb ''version'') js_int = Inr v4" by (rule store_roleD [OF s(4) bodies(3)])
  note ok = check_rollback_any [OF root_rb v1 assms(2) [OF names(1) role_version_eq [OF files(1) root(2) v1]]]
    check_rollback_any [OF rbs(1) v2 assms(2) [OF names(2) role_version_eq [OF files(2) bodies(1) v2]]]
    check_rollback_any [OF rbs(2) v3 assms(2) [OF names(3) role_version_eq [OF files(3) bodies(2) v3]]]
    check_rollback_any [OF rbs(3) v4 assms(2) [OF names(4) role_version_eq [OF files(4) bodies(3) v4]]]
  obtain o1 where o1: "store_role (''root'', root) other = Inr o1" using store_role_any [OF s(1)] by blast
  obtain o2 where o2: "store_role (''timestamp'', timestamp) o1 = Inr o2" using store_role_any [OF s(2)] by blast
  obtain o3 where o3: "store_role (''snapshot'', snapshot) o2 = Inr o3" using store_role_any [OF s(3)] by blast
  obtain o4 where o4: "store_role (''targets'', targets) o3 = Inr o4" using store_role_any [OF s(4)] by blast
  have "verify_release env other = Inr (trusted, o4)"
    by (rule verify_releaseI [OF root roles bindings bodies ok o1 o2 o3 o4])
  then show ?thesis by blast
qed

section \<open>A concrete release\<close>

text \<open>A release whose metadata is signed by the one key of its own root.\<close>

definition demo_key :: string where "demo_key = ''0b0b''"

definition demo_signed :: "json \<Rightarrow> json" where
  "demo_signed body = JsObj [(''signed'', body), (''signatures'', JsArr [JsObj [(''keyid'', JsStr ''k''),
     (''sig'', JsStr (hex_of (hmac_sha256 [0x0B, 0x0B] (canonical_json_bytes body))))]])]"

definition demo_rule :: json where
  "demo_rule = JsObj [(''keyids'', JsArr [JsStr ''k'']), (''threshold'', JsInt 1)]"

definition demo_keys :: json where
  "demo_keys = JsObj [(''k'', JsObj [(''algorithm'', JsStr ''hmac-sha256''), (''key'', JsStr demo_key)])]"

definition demo_roles :: json where
  "demo_roles = JsObj [(''root'', demo_rule), (''timestamp'', demo_rule), (''snapshot'', demo_rule), (''targets'', demo_rule)]"

definition demo_meta :: "string \<Rightarrow> string \<Rightarrow> int \<Rightarrow> (string \<times> json) list \<Rightarrow> json" where
  "demo_meta role_name expires version members =
     demo_signed (JsObj ([(''role'', JsStr role_name), (''version'', JsInt version), (''expires'', JsStr expires)] @ members))"

definition demo_binding :: "string \<Rightarrow> int \<Rightarrow> json \<Rightarrow> string \<times> json" where
  "demo_binding filename version role = (''meta'', JsObj [(filename, JsObj [(''version'', JsInt version),
     (''length'', JsInt (int (length (canonical_json_bytes role)))),
     (''hashes'', JsObj [(''sha256'', JsStr (hexdigest (canonical_json_bytes role)))])])])"

definition demo_targets :: "int \<Rightarrow> json" where
  "demo_targets v = demo_meta ''targets'' ''E'' v [(''targets'', JsObj [(''fw.bin'', JsObj [(''length'', JsInt (int (length demo_image))),
     (''hashes'', JsObj [(''sha256'', JsStr (hexdigest demo_image))]),
     (''custom'', JsObj [(''ecu_name'', JsStr ''BCM''), (''hardware_variant'', JsStr ''HW''),
        (''target_version'', JsStr ''2.0.0''), (''minimum_bootloader'', JsStr ''1.0.0''),
        (''transport_support'', JsArr [JsStr ''CAN''])])])])]"

definition demo_snapshot :: "int \<Rightarrow> json" where
  "demo_snapshot v = demo_meta ''snapshot'' ''E'' v [demo_binding ''targets.json'' v (demo_targets v)]"

definition demo_timestamp :: "int \<Rightarrow> json" where
  "demo_timestamp v = demo_meta ''timestamp'' ''E'' v [demo_binding ''snapshot.json'' v (demo_snapshot v)]"

definition demo_root :: "int \<Rightarrow> json" where
  "demo_root v = demo_meta ''root'' ''E'' v [(''keys'', demo_keys), (''roles'', demo_roles)]"

definition demo_release :: "int \<Rightarrow> trust_env" where
  "demo_release v =
     \<lparr>tr_files = map_of [(''root.json'', demo_root v), (''timestamp.json'', demo_timestamp v),
        (''snapshot.json'', demo_snapshot v), (''targets.json'', demo_targets v)],
      tr_artifacts = map_of [(''fw.bin'', demo_image)], tr_now = 0, tr_timestamp = (\<lambda>_. Inr 1)\<rparr>"

lemma hex_char_ascii: "n < 16 \<Longrightarrow> (of_char (hex_char n) :: nat) < 128"
  by (simp add: hex_char_def)

lemma hex_of_ascii: "list_all (\<lambda>c. (of_char c :: nat) < 128) (hex_of m)"
proof -
  have "unat b div 16 < 16" for b :: byte
    by (simp add: div_less_iff_less_mult)
  then show ?thesis by (auto simp: hex_of_def list_all_iff intro!: hex_char_ascii)
qed

lemma demo_signature: "verify_signatures (demo_signed body) demo_keys demo_rule = Inr ()"
proof -
  have "fromhex demo_key = Inr [0x0B, 0x0B]" by code_simp
  then have "check_signature demo_keys demo_rule (canonical_json_bytes body)
      (JsObj [(''keyid'', JsStr ''k''), (''sig'', JsStr (hex_of (hmac_sha256 [0x0B, 0x0B] (canonical_json_bytes body))))]) [] =
      Inr [''k'']"
    using hex_of_ascii
    by (simp add: check_signature_def demo_keys_def demo_rule_def compare_digest_def List.insert_def)
  then show ?thesis by (simp add: verify_signatures_def demo_signed_def demo_rule_def)
qed

lemma demo_role:
  assumes "tr_files env f = Some (demo_meta r ''E'' v members)" and "1 \<le> v"
    and "tr_now env = 0" "tr_timestamp env = (\<lambda>_. Inr 1)" "js_get demo_roles r = Inr demo_rule"
  shows "load_and_verify_role env f r demo_keys demo_roles = Inr (demo_meta r ''E'' v members)"
  using assms demo_signature
  by (simp add: load_and_verify_role_def load_role_def demo_meta_def demo_signed_def js_has_def validate_role_def
      check_expiry_def)

lemma demo_files:
  "tr_files (demo_release v) ''root.json'' = Some (demo_root v)"
  "tr_files (demo_release v) ''timestamp.json'' = Some (demo_timestamp v)"
  "tr_files (demo_release v) ''snapshot.json'' = Some (demo_snapshot v)"
  "tr_files (demo_release v) ''targets.json'' = Some (demo_targets v)"
  "tr_artifacts (demo_release v) ''fw.bin'' = Some demo_image"
  "tr_now (demo_release v) = 0" "tr_timestamp (demo_release v) = (\<lambda>_. Inr 1)"
  by (simp_all add: demo_release_def)

lemma demo_rules:
  "js_get demo_roles ''root'' = Inr demo_rule" "js_get demo_roles ''timestamp'' = Inr demo_rule"
  "js_get demo_roles ''snapshot'' = Inr demo_rule" "js_get demo_roles ''targets'' = Inr demo_rule"
  by (simp_all add: demo_roles_def)

lemma demo_meta_get:
  "js_get (demo_meta r x v ms) ''signed'' =
     Inr (JsObj ([(''role'', JsStr r), (''version'', JsInt v), (''expires'', JsStr x)] @ ms))"
  by (simp add: demo_meta_def demo_signed_def)

lemma demo_validate_root:
  "validate_root (JsObj [(''role'', JsStr ''root''), (''version'', JsInt v), (''expires'', JsStr ''E''),
     (''keys'', demo_keys), (''roles'', demo_roles)]) = Inr ()"
proof -
  have "validate_root_role demo_roles demo_keys r = Inr ()" if "r \<in> set required_roles" for r
  proof -
    have "js_get demo_roles r = Inr demo_rule" using that demo_rules by (auto simp: required_roles_def)
    then show ?thesis by (simp add: validate_root_role_def demo_rule_def demo_keys_def js_has_def)
  qed
  then have "forE required_roles (\<lambda>r _. validate_root_role demo_roles demo_keys r) () = Inr ()"
    by (simp add: required_roles_def)
  moreover have "js_keys demo_roles = Inr [''root'', ''timestamp'', ''snapshot'', ''targets'']"
    by (simp add: demo_roles_def)
  moreover have "set required_roles \<subseteq> set [''root'', ''timestamp'', ''snapshot'', ''targets'']"
    by (simp add: required_roles_def)
  ultimately show ?thesis by (simp add: validate_root_def del: set_simps)
qed

lemma demo_binding_ok:
  assumes "js_get role ''signed'' = Inr body" and "js_get body ''version'' = Inr (JsInt v)"
  shows "check_meta_binding (snd (demo_binding f v role)) f role = Inr ()"
  using assms by (simp add: check_meta_binding_def demo_binding_def js_has_def js_eq_def)

definition demo_trusted :: "(string \<times> trusted_target) list" where
  "demo_trusted = [(''fw.bin'', \<lparr>tt_file = ''fw.bin'', tt_length = length demo_image, tt_sha256 = hexdigest demo_image,
     tt_custom = JsObj [(''ecu_name'', JsStr ''BCM''), (''hardware_variant'', JsStr ''HW''),
        (''target_version'', JsStr ''2.0.0''), (''minimum_bootloader'', JsStr ''1.0.0''),
        (''transport_support'', JsArr [JsStr ''CAN''])]\<rparr>)]"

lemma demo_artifacts:
  "bindE (bindE (js_get (demo_targets v) ''signed'') (\<lambda>body. js_get body ''targets'')) (verify_artifacts (demo_release w)) =
     Inr demo_trusted"
  by (simp add: demo_trusted_def demo_targets_def demo_meta_get verify_artifacts_def verify_artifact_def demo_files
      js_eq_def validate_target_metadata_def required_custom_def)

lemma demo_signed_parts:
  "\<exists>ms. js_get (demo_timestamp v) ''signed'' = Inr (JsObj ([(''role'', JsStr ''timestamp''), (''version'', JsInt v), (''expires'', JsStr ''E'')] @ ms))"
  "\<exists>ms. js_get (demo_snapshot v) ''signed'' = Inr (JsObj ([(''role'', JsStr ''snapshot''), (''version'', JsInt v), (''expires'', JsStr ''E'')] @ ms))"
  "\<exists>ms. js_get (demo_targets v) ''signed'' = Inr (JsObj ([(''role'', JsStr ''targets''), (''version'', JsInt v), (''expires'', JsStr ''E'')] @ ms))"
  unfolding demo_timestamp_def demo_targets_def demo_snapshot_def demo_meta_get by blast+

lemma demo_bindings:
  "bindE (bindE (js_get (demo_timestamp v) ''signed'') (\<lambda>body. js_get body ''meta''))
     (\<lambda>meta. check_meta_binding meta ''snapshot.json'' (demo_snapshot v)) = Inr ()"
  "bindE (bindE (js_get (demo_snapshot v) ''signed'') (\<lambda>body. js_get body ''meta''))
     (\<lambda>meta. check_meta_binding meta ''targets.json'' (demo_targets v)) = Inr ()"
proof -
  obtain ms ts where "js_get (demo_snapshot v) ''signed'' =
      Inr (JsObj ([(''role'', JsStr ''snapshot''), (''version'', JsInt v), (''expires'', JsStr ''E'')] @ ms))"
    and "js_get (demo_targets v) ''signed'' =
      Inr (JsObj ([(''role'', JsStr ''targets''), (''version'', JsInt v), (''expires'', JsStr ''E'')] @ ts))"
    using demo_signed_parts by metis
  from demo_binding_ok [OF this(1), of v "''snapshot.json''"] demo_binding_ok [OF this(2), of v "''targets.json''"]
  show "bindE (bindE (js_get (demo_timestamp v) ''signed'') (\<lambda>body. js_get body ''meta''))
     (\<lambda>meta. check_meta_binding meta ''snapshot.json'' (demo_snapshot v)) = Inr ()"
    "bindE (bindE (js_get (demo_snapshot v) ''signed'') (\<lambda>body. js_get body ''meta''))
     (\<lambda>meta. check_meta_binding meta ''targets.json'' (demo_targets v)) = Inr ()"
    by (simp_all add: demo_timestamp_def demo_snapshot_def demo_meta_get demo_binding_def)
qed

lemma demo_checks:
  assumes "1 \<le> v"
  shows "load_role (demo_release v) ''root.json'' True = Inr (demo_root v)"
    and "check_expiry (demo_release v) (JsObj ([(''role'', JsStr r), (''version'', JsInt v), (''expires'', JsStr ''E'')] @ ms)) = Inr ()"
    and "trusted_version state q \<le> v \<Longrightarrow>
      check_rollback (JsObj ([(''role'', JsStr r), (''version'', JsInt v), (''expires'', JsStr ''E'')] @ ms)) q state = Inr ()"
    and "\<exists>s'. store_role (q, demo_meta r ''E'' v ms) s = Inr s'"
    and "load_and_verify_role (demo_release v) ''timestamp.json'' ''timestamp'' demo_keys demo_roles = Inr (demo_timestamp v)"
    and "load_and_verify_role (demo_release v) ''snapshot.json'' ''snapshot'' demo_keys demo_roles = Inr (demo_snapshot v)"
    and "load_and_verify_role (demo_release v) ''targets.json'' ''targets'' demo_keys demo_roles = Inr (demo_targets v)"
proof (goal_cases)
  case 1
  show ?case by (simp add: load_role_def demo_files demo_root_def demo_meta_def demo_signed_def js_has_def)
next
  case 2
  show ?case by (simp add: check_expiry_def demo_files)
next
  case 3
  then show ?case by (simp add: check_rollback_def not_less)
next
  case 4
  show ?case by (simp add: store_role_Inr_iff demo_meta_get)
next
  case 5
  show ?case unfolding demo_timestamp_def
    by (rule demo_role [OF _ assms]) (simp_all add: demo_files demo_rules demo_timestamp_def)
next
  case 6
  show ?case unfolding demo_snapshot_def
    by (rule demo_role [OF _ assms]) (simp_all add: demo_files demo_rules demo_snapshot_def)
next
  case 7
  show ?case unfolding demo_targets_def
    by (rule demo_role [OF _ assms]) (simp_all add: demo_files demo_rules demo_targets_def)
qed

lemma demo_accepted:
  assumes "1 \<le> v" and "\<And>r f. (r, f) \<in> set trusted_files \<Longrightarrow> trusted_version state r \<le> v"
  shows "\<exists>state'. verify_release (demo_release v) state = Inr (demo_trusted, state')"
proof -
  note checks = demo_checks [OF assms(1)]
  have low: "trusted_version state ''root'' \<le> v" "trusted_version state ''timestamp'' \<le> v"
    "trusted_version state ''snapshot'' \<le> v" "trusted_version state ''targets'' \<le> v"
    using assms(2) by (simp_all add: trusted_files_def)
  have root: "js_get (demo_root v) ''signed'' = Inr (JsObj ([(''role'', JsStr ''root''), (''version'', JsInt v),
      (''expires'', JsStr ''E'')] @ [(''keys'', demo_keys), (''roles'', demo_roles)]))" (is "_ = Inr ?root")
    by (simp add: demo_root_def demo_meta_get)
  obtain tms sms gms where bodies:
    "js_get (demo_timestamp v) ''signed'' = Inr (JsObj ([(''role'', JsStr ''timestamp''), (''version'', JsInt v), (''expires'', JsStr ''E'')] @ tms))"
    "js_get (demo_snapshot v) ''signed'' = Inr (JsObj ([(''role'', JsStr ''snapshot''), (''version'', JsInt v), (''expires'', JsStr ''E'')] @ sms))"
    "js_get (demo_targets v) ''signed'' = Inr (JsObj ([(''role'', JsStr ''targets''), (''version'', JsInt v), (''expires'', JsStr ''E'')] @ gms))"
    using demo_signed_parts by metis
  have keys: "validate_root ?root = Inr ()" "js_get ?root ''keys'' = Inr demo_keys" "js_get ?root ''roles'' = Inr demo_roles"
    using demo_validate_root [of v] by simp_all
  have root_sig: "verify_signatures (demo_root v) demo_keys demo_rule = Inr ()"
    unfolding demo_root_def demo_meta_def by (rule demo_signature)
  obtain s1 where s1: "store_role (''root'', demo_root v) state = Inr s1"
    using checks(4) unfolding demo_root_def by blast
  obtain s2 where s2: "store_role (''timestamp'', demo_timestamp v) s1 = Inr s2"
    using checks(4) unfolding demo_timestamp_def by blast
  obtain s3 where s3: "store_role (''snapshot'', demo_snapshot v) s2 = Inr s3"
    using checks(4) unfolding demo_snapshot_def by blast
  obtain s4 where s4: "store_role (''targets'', demo_targets v) s3 = Inr s4"
    using checks(4) unfolding demo_targets_def by blast
  have "verify_release (demo_release v) state = Inr (demo_trusted, s4)"
    by (rule verify_releaseI [OF checks(1) root keys(1) checks(2) keys(2,3) demo_rules(1) root_sig checks(5-7)
        demo_bindings demo_artifacts bodies checks(3) [OF low(1)] checks(3) [OF low(2)] checks(3) [OF low(3)]
        checks(3) [OF low(4)] s1 s2 s3 s4])
  then show ?thesis by blast
qed

theorem trusted_targets_are_signed_witness:
  "\<exists>state' entries t entry. verify_release (demo_release 1) [] = Inr (demo_trusted, state') \<and>
     map_of demo_trusted ''fw.bin'' = Some t \<and> signed_targets (demo_release 1) entries \<and>
     (''fw.bin'', entry) \<in> set entries \<and> target_of_entry (demo_release 1) ''fw.bin'' entry t"
proof -
  obtain state' where run: "verify_release (demo_release 1) [] = Inr (demo_trusted, state')"
    using demo_accepted [of 1 "[]"] by (auto simp: trusted_version_def)
  moreover have "\<exists>t. map_of demo_trusted ''fw.bin'' = Some t" by (simp add: demo_trusted_def)
  ultimately show ?thesis using trusted_targets_are_signed [OF run] by blast
qed

theorem accepted_versions_never_decrease_witness:
  "\<exists>trusted state' trusted' state''. verify_release (demo_release 1) [] = Inr (trusted, state') \<and>
     verify_release (demo_release 2) (offer_releases [] state') = Inr (trusted', state'') \<and>
     (\<exists>v v'. role_version (demo_release 1) ''targets.json'' = Inr v \<and>
        role_version (demo_release 2) ''targets.json'' = Inr v' \<and> v \<le> v')"
proof -
  obtain trusted state' where first: "verify_release (demo_release 1) [] = Inr (trusted, state')"
    using demo_accepted [of 1 "[]"] by (auto simp: trusted_version_def)
  have versions: "role_version (demo_release 1) f = Inr 1" if "(r, f) \<in> set trusted_files" for r f
    using that
    by (auto simp: trusted_files_def role_version_def demo_files demo_root_def demo_timestamp_def demo_snapshot_def
        demo_targets_def demo_meta_get)
  obtain trusted' state'' where second: "verify_release (demo_release 2) (offer_releases [] state') = Inr (trusted', state'')"
  proof -
    have "trusted_version state' r \<le> 2" if "(r, f) \<in> set trusted_files" for r f
      using accepted_versions [OF first that] versions [OF that] by auto
    with demo_accepted [of 2 state'] that show ?thesis by auto
  qed
  have "(''targets'', ''targets.json'') \<in> set trusted_files" by (simp add: trusted_files_def)
  from accepted_versions_never_decrease [OF first second this] first second show ?thesis by blast
qed

theorem acceptance_ignores_earlier_keys_witness:
  "\<exists>trusted state' other'. verify_release (demo_release 3) [] = Inr (trusted, state') \<and>
     verify_release (demo_release 3) [(''root'', \<lparr>tro_version = 2, tro_expires = JsNull, tro_sha256 = ''aa''\<rparr>)] =
       Inr (trusted, other')"
proof -
  obtain trusted state' where run: "verify_release (demo_release 3) [] = Inr (trusted, state')"
    using demo_accepted [of 3 "[]"] by (auto simp: trusted_version_def)
  have "\<exists>other'. verify_release (demo_release 3) [(''root'', \<lparr>tro_version = 2, tro_expires = JsNull, tro_sha256 = ''aa''\<rparr>)] =
       Inr (trusted, other')"
  proof (rule acceptance_ignores_earlier_keys [OF run])
    fix r f v assume "(r, f) \<in> set trusted_files" "role_version (demo_release 3) f = Inr v"
    then have "v = 3"
      by (auto simp: trusted_files_def role_version_def demo_files demo_root_def demo_timestamp_def demo_snapshot_def
        demo_targets_def demo_meta_get)
    then show "trusted_version [(''root'', \<lparr>tro_version = 2, tro_expires = JsNull, tro_sha256 = ''aa''\<rparr>)] r \<le> v"
      by (auto simp: trusted_version_def)
  qed
  with run show ?thesis by blast
qed

end
