(* ===== verification/Campaign_Checks.thy ===== *)
theory Campaign_Checks
  imports Update_Scheduler Trust_Metadata Firmware_Image
begin

text \<open>
  What a campaign must pass before it is planned and executed: \<open>tcu/validation/campaign_validator.py\<close>,
  \<open>tcu/compatibility/validator.py\<close> (\<open>CompatibilityValidator\<close>) and \<open>tcu/firmware_compatibility.py\<close>
  (\<open>FirmwareCompatibilityValidator\<close>).

  An ECU that is not eligible has a reason, of type \<open>rejection\<close>, in place of the line the code
  prints; a version text that does not parse raises and ends the validation.
\<close>

section \<open>Campaign\<close>

definition supported_transports :: "string list" where
  "supported_transports = [''VCAN'', ''CAN'', ''DOIP'', ''ETHERNET'']"

text \<open>The loop over the targets: the names and priorities so far, and whether all is well.\<close>

fun validate_targets :: "campaign_target list \<Rightarrow> string set \<Rightarrow> int set \<Rightarrow> bool \<Rightarrow> bool" where
  "validate_targets [] names priorities valid = valid"
| "validate_targets (t # ts) names priorities valid =
     validate_targets ts (insert (ct_ecu_name t) names) (insert (ct_priority t) priorities)
       (valid \<and> ct_ecu_name t \<notin> names \<and> ct_priority t \<notin> priorities \<and> ct_target_version t \<noteq> [] \<and>
        ct_minimum_supported_version t \<noteq> [] \<and> ct_minimum_bootloader t \<noteq> [])"

definition validate_campaign :: "campaign \<Rightarrow> bool" where
  "validate_campaign c =
     validate_targets (cg_targets c) {} {}
       (cg_campaign_id c \<noteq> [] \<and> cg_vehicle_model c \<noteq> [] \<and> cg_release_version c \<noteq> [] \<and> cg_targets c \<noteq> [] \<and>
        normalize_transport (Some (cg_transport c)) \<in> set supported_transports)"

lemma validate_targets_iff:
  "validate_targets ts names priorities valid \<longleftrightarrow>
     valid \<and> distinct (map ct_ecu_name ts) \<and> ct_ecu_name ` set ts \<inter> names = {} \<and>
     distinct (map ct_priority ts) \<and> ct_priority ` set ts \<inter> priorities = {} \<and>
     (\<forall>t \<in> set ts. ct_target_version t \<noteq> [] \<and> ct_minimum_supported_version t \<noteq> [] \<and> ct_minimum_bootloader t \<noteq> [])"
  by (induction ts names priorities valid rule: validate_targets.induct) auto

section \<open>Compatibility of the campaign with the vehicle\<close>

definition target_can_be_skipped :: "topology \<Rightarrow> campaign_target \<Rightarrow> string \<Rightarrow> bool" where
  "target_can_be_skipped topo target reason =
     (if reason = ''ECU_NOT_FOUND'' \<and> ct_skip_if_unavailable target then True
      else if reason = ''INCOMPATIBLE'' \<and> ct_skip_if_incompatible target then True
      else if \<not> ct_mandatory target then True
      else \<not> unavailable_aborts_campaign (policy_for topo (ct_ecu_name target)))"

definition target_failed :: "campaign \<Rightarrow> campaign_target \<Rightarrow> ecu \<Rightarrow> bool result" where
  "target_failed camp target e =
     bindE (version_lt (VersionText (ecu_current_version e)) (VersionText (ct_minimum_supported_version target))) (\<lambda>too_old.
     bindE (version_lt (VersionText (ecu_bootloader_version e)) (VersionText (ct_minimum_bootloader target))) (\<lambda>old_bootloader.
       Inr (ecu_hardware_variant e \<noteq> ct_hardware_variant target \<or> too_old \<or> old_bootloader \<or>
            normalize_transport (Some (ecu_transport e)) \<noteq> normalize_transport (Some (cg_transport camp)) \<or>
            \<not> ecu_rollback_supported e)))"

record compatibility =
  cp_overall :: bool
  cp_skipped :: "(string \<times> string) list"
  cp_approved :: "string list"

definition check_target :: "topology \<Rightarrow> vehicle \<Rightarrow> campaign \<Rightarrow> campaign_target \<Rightarrow> compatibility \<Rightarrow> compatibility result" where
  "check_target topo vehicle camp target c =
     (case List.find (\<lambda>e. ecu_name e = ct_ecu_name target) vehicle of
        None \<Rightarrow>
          if target_can_be_skipped topo target ''ECU_NOT_FOUND''
          then Inr (c\<lparr>cp_skipped := cp_skipped c @ [(ct_ecu_name target, ''ECU_NOT_FOUND'')]\<rparr>)
          else Inr (c\<lparr>cp_overall := False\<rparr>)
      | Some e \<Rightarrow>
          bindE (target_failed camp target e) (\<lambda>failed.
            if \<not> failed then Inr (c\<lparr>cp_approved := cp_approved c @ [ct_ecu_name target]\<rparr>)
            else if \<not> target_can_be_skipped topo target ''INCOMPATIBLE'' then Inr (c\<lparr>cp_overall := False\<rparr>)
            else Inr (c\<lparr>cp_skipped := cp_skipped c @ [(ct_ecu_name target, ''INCOMPATIBLE'')]\<rparr>)))"

text \<open>The verdict and the campaign, which records the approved and the skipped targets.\<close>

definition validate_compatibility :: "topology \<Rightarrow> vehicle \<Rightarrow> campaign \<Rightarrow> (bool \<times> campaign) result" where
  "validate_compatibility topo vehicle camp =
     bindE (forE (cg_targets camp) (check_target topo vehicle camp) \<lparr>cp_overall = True, cp_skipped = [], cp_approved = []\<rparr>)
       (\<lambda>c. Inr (cp_overall c, camp\<lparr>cg_approved_targets := cp_approved c, cg_skipped_optional_targets := cp_skipped c\<rparr>))"

section \<open>Firmware compatibility\<close>

datatype rejection =
    NotSelected
  | SkippedByPolicy string
  | NoPackage
  | TrustMissing
  | TrustBindingMismatch string
  | ManifestHashMismatch
  | FileMissing
  | ImageParseFailed
  | HeaderMismatch string
  | LengthMismatch
  | ArtifactHashMismatch
  | HardwareMismatch
  | BootloaderTooOld
  | TransportNotSupported
  | AlreadyAtTarget
  | DowngradeRejected
  | InvalidSize

record update_entry =
  ue_ecu :: ecu
  ue_package :: package
  ue_trusted :: trusted_target
  ue_size :: nat

text \<open>\<open>int(text, 16)\<close>: an optional sign and prefix, then hexadecimal digits.\<close>

fun hex_digits :: "string \<Rightarrow> nat \<Rightarrow> nat option" where
  "hex_digits [] acc = Some acc"
| "hex_digits (c # cs) acc =
     (case hex_digit c of
        Some d \<Rightarrow> hex_digits cs (16 * acc + d)
      | None \<Rightarrow> (case cs of d # _ \<Rightarrow> if c = CHR ''_'' \<and> hex_digit d \<noteq> None then hex_digits cs acc else None | [] \<Rightarrow> None))"

definition int_base16 :: "string \<Rightarrow> int result" where
  "int_base16 s =
     (let t = strip_space s;
          (negative, u) = (case t of c # cs \<Rightarrow> if c = CHR ''-'' then (True, cs)
                                     else if c = CHR ''+'' then (False, cs) else (False, t) | [] \<Rightarrow> (False, t));
          prefixed = (case u of c # d # cs \<Rightarrow> c = CHR ''0'' \<and> d \<in> {CHR ''x'', CHR ''X''} | _ \<Rightarrow> False);
          ds = (if prefixed then drop 2 u else u)
      in if ds = [] \<or> (\<not> prefixed \<and> hex_digit (hd ds) = None) then Inl (ValueError ''invalid literal for int()'')
         else case hex_digits ds 0 of
           None \<Rightarrow> Inl (ValueError ''invalid literal for int()'')
         | Some n \<Rightarrow> Inr (if negative then - int n else int n))"

text \<open>The bindings of a package to its signed target.\<close>

definition custom_is :: "trusted_target \<Rightarrow> string \<Rightarrow> string \<Rightarrow> bool result" where
  "custom_is t key value = bindE (js_get_or (tt_custom t) key JsNull) (\<lambda>v. Inr (v = JsStr value))"

definition check_trust :: "(string \<times> trusted_target) list \<Rightarrow> ecu \<Rightarrow> package \<Rightarrow> (rejection + trusted_target) result" where
  "check_trust trusted e pkg =
     (case map_of trusted (pk_file pkg) of
        None \<Rightarrow> Inr (Inl TrustMissing)
      | Some t \<Rightarrow>
          bindE (custom_is t ''ecu_name'' (ecu_name e)) (\<lambda>ecu_ok.
            if \<not> ecu_ok then Inr (Inl (TrustBindingMismatch ''ecu_name''))
            else bindE (custom_is t ''hardware_variant'' (pk_hardware_variant pkg)) (\<lambda>hardware_ok.
              if \<not> hardware_ok then Inr (Inl (TrustBindingMismatch ''hardware_variant''))
              else bindE (custom_is t ''target_version'' (pk_target_version pkg)) (\<lambda>version_ok.
                if \<not> version_ok then Inr (Inl (TrustBindingMismatch ''target_version''))
                else if \<exists>h. pk_sha256 pkg = Some h \<and> h \<noteq> [] \<and> tt_sha256 t \<noteq> h then Inr (Inl ManifestHashMismatch)
                else Inr (Inr t)))))"

text \<open>The file at the path of the package: its header, length and hash. The value is its length.\<close>

definition check_download :: "bytes option \<Rightarrow> package \<Rightarrow> trusted_target \<Rightarrow> (rejection + nat) result" where
  "check_download file_bytes pkg t =
     (case file_bytes of
        None \<Rightarrow> Inr (Inl FileMissing)
      | Some content \<Rightarrow>
          (case parse_firmware_image content of
             Inl _ \<Rightarrow> Inr (Inl ImageParseFailed)
           | Inr m \<Rightarrow>
               if img_ecu_name m \<noteq> pk_ecu_name pkg then Inr (Inl (HeaderMismatch ''ecu_name''))
               else if img_target_version m \<noteq> pk_target_version pkg then Inr (Inl (HeaderMismatch ''target_version''))
               else bindE (case pk_flash_address pkg of None \<Rightarrow> Inr True
                           | Some a \<Rightarrow> bindE (int_base16 a) (\<lambda>x. Inr (int (img_flash_address m) = x))) (\<lambda>address_ok.
                 if \<not> address_ok then Inr (Inl (HeaderMismatch ''flash_address''))
                 else if \<exists>p. pk_part_number pkg = Some p \<and> p \<noteq> [] \<and> img_part_number m \<noteq> p
                 then Inr (Inl (HeaderMismatch ''part_number''))
                 else if tt_length t \<noteq> length content then Inr (Inl LengthMismatch)
                 else if hexdigest content \<noteq> tt_sha256 t then Inr (Inl ArtifactHashMismatch)
                 else Inr (Inr (length content)))))"

definition package_transports :: "package \<Rightarrow> string list" where
  "package_transports pkg =
     map (\<lambda>v. normalize_transport (Some v)) (case pk_transport_support pkg of None \<Rightarrow> [pk_transport pkg] | Some vs \<Rightarrow> vs)"

definition check_vehicle_side :: "campaign \<Rightarrow> ecu \<Rightarrow> package \<Rightarrow> nat \<Rightarrow> rejection option result" where
  "check_vehicle_side camp e pkg sz =
     (if ecu_hardware_variant e \<noteq> pk_hardware_variant pkg then Inr (Some HardwareMismatch)
      else bindE (version_lt (VersionText (ecu_bootloader_version e)) (VersionText (pk_minimum_bootloader pkg))) (\<lambda>old.
        if old then Inr (Some BootloaderTooOld)
        else if normalize_transport (Some (cg_transport camp)) \<notin> set (package_transports pkg)
        then Inr (Some TransportNotSupported)
        else bindE (version_eq (VersionText (ecu_current_version e)) (VersionText (pk_target_version pkg))) (\<lambda>same.
          if same then Inr (Some AlreadyAtTarget)
          else bindE (version_gte (VersionText (ecu_current_version e)) (VersionText (pk_target_version pkg))) (\<lambda>newer.
            if newer then Inr (Some DowngradeRejected)
            else if sz \<le> 0 then Inr (Some InvalidSize) else Inr None))))"

record compatibility_env =
  fc_packages :: "package list"
  fc_trusted :: "(string \<times> trusted_target) list"
  fc_read :: "string \<Rightarrow> bytes option"
  fc_require_downloaded :: bool
  fc_target_names :: "string list"

definition selected_names :: "string list \<Rightarrow> string list" where
  "selected_names names = filter (\<lambda>n. n \<noteq> []) (map strip_space names)"

text \<open>One round of the loop over the ECUs.\<close>

definition check_ecu :: "compatibility_env \<Rightarrow> campaign \<Rightarrow> ecu \<Rightarrow> (rejection + update_entry) result" where
  "check_ecu env camp e =
     (if selected_names (fc_target_names env) \<noteq> [] \<and> ecu_name e \<notin> set (selected_names (fc_target_names env))
      then Inr (Inl NotSelected)
      else if cg_approved_targets camp \<noteq> [] \<and> ecu_name e \<notin> set (cg_approved_targets camp)
      then Inr (Inl (SkippedByPolicy (case map_of (dict_of fst (cg_skipped_optional_targets camp)) (ecu_name e) of
             None \<Rightarrow> ''NOT_APPROVED_BY_CAMPAIGN'' | Some (_, reason) \<Rightarrow> reason)))
      else case List.find (\<lambda>p. pk_ecu_name p = ecu_name e) (fc_packages env) of
        None \<Rightarrow> Inr (Inl NoPackage)
      | Some pkg \<Rightarrow>
          bindE (check_trust (fc_trusted env) e pkg) (\<lambda>trust.
            case trust of Inl r \<Rightarrow> Inr (Inl r)
            | Inr t \<Rightarrow>
                bindE (if fc_require_downloaded env then check_download (fc_read env (pk_file pkg)) pkg t
                       else Inr (Inr (tt_length t))) (\<lambda>download.
                  case download of Inl r \<Rightarrow> Inr (Inl r)
                  | Inr sz \<Rightarrow>
                      bindE (check_vehicle_side camp e pkg sz) (\<lambda>verdict.
                        case verdict of Some r \<Rightarrow> Inr (Inl r)
                        | None \<Rightarrow> Inr (Inr \<lparr>ue_ecu = e, ue_package = pkg, ue_trusted = t, ue_size = sz\<rparr>)))))"

definition validate_firmware :: "compatibility_env \<Rightarrow> campaign \<Rightarrow> vehicle \<Rightarrow> update_entry list result" where
  "validate_firmware env camp vehicle =
     forE vehicle (\<lambda>e eligible_updates.
       bindE (check_ecu env camp e) (\<lambda>outcome.
         Inr (case outcome of Inl _ \<Rightarrow> eligible_updates | Inr entry \<Rightarrow> eligible_updates @ [entry]))) []"

section \<open>What an eligible update has passed\<close>

lemma custom_is_iff: "custom_is t k v = Inr True \<longleftrightarrow> js_get_or (tt_custom t) k JsNull = Inr (JsStr v)"
  by (auto simp: custom_is_def bindE_Inr_iff)

lemma check_trust_accept:
  assumes "check_trust trusted e pkg = Inr (Inr t)"
  shows "map_of trusted (pk_file pkg) = Some t" and "js_get_or (tt_custom t) ''ecu_name'' JsNull = Inr (JsStr (ecu_name e))"
    and "js_get_or (tt_custom t) ''hardware_variant'' JsNull = Inr (JsStr (pk_hardware_variant pkg))"
    and "js_get_or (tt_custom t) ''target_version'' JsNull = Inr (JsStr (pk_target_version pkg))"
    and "\<And>h. pk_sha256 pkg = Some h \<Longrightarrow> h \<noteq> [] \<Longrightarrow> tt_sha256 t = h"
  using assms unfolding custom_is_iff [symmetric]
  by (auto simp: check_trust_def bindE_Inr_iff split: option.splits if_splits)

lemma check_download_accept:
  assumes "check_download file_bytes pkg t = Inr (Inr n)"
  obtains content m where "file_bytes = Some content" and "parse_firmware_image content = Inr m"
    and "img_ecu_name m = pk_ecu_name pkg" and "img_target_version m = pk_target_version pkg"
    and "n = length content" and "tt_length t = length content" and "hexdigest content = tt_sha256 t"
  using assms
  by (auto simp: check_download_def bindE_Inr_iff split: option.splits sum.splits if_splits)

lemma check_vehicle_side_accept:
  assumes "check_vehicle_side camp e pkg n = Inr None"
  obtains current target where "ecu_hardware_variant e = pk_hardware_variant pkg"
    and "version_lt (VersionText (ecu_bootloader_version e)) (VersionText (pk_minimum_bootloader pkg)) = Inr False"
    and "normalize_transport (Some (cg_transport camp)) \<in> set (package_transports pkg)"
    and "parse_version (VersionText (ecu_current_version e)) = Inr current"
    and "parse_version (VersionText (pk_target_version pkg)) = Inr target" and "current < target" and "0 < n"
proof -
  have "ecu_hardware_variant e = pk_hardware_variant pkg"
    and "version_lt (VersionText (ecu_bootloader_version e)) (VersionText (pk_minimum_bootloader pkg)) = Inr False"
    and "normalize_transport (Some (cg_transport camp)) \<in> set (package_transports pkg)"
    and gte: "version_gte (VersionText (ecu_current_version e)) (VersionText (pk_target_version pkg)) = Inr False"
    and "0 < n"
    using assms by (auto simp: check_vehicle_side_def bindE_Inr_iff split: if_splits)
  moreover from gte obtain a b where "parse_version (VersionText (ecu_current_version e)) = Inr a"
    "parse_version (VersionText (pk_target_version pkg)) = Inr b" "a < b"
    by (auto simp: version_gte_def bindE_Inr_iff)
  ultimately show ?thesis using that by blast
qed

lemma validate_firmware_result:
  "forE es (\<lambda>e acc. bindE (check_ecu env camp e) (\<lambda>outcome.
      Inr (case outcome of Inl _ \<Rightarrow> acc | Inr u \<Rightarrow> acc @ [u]))) acc = Inr us \<Longrightarrow>
   set us = set acc \<union> {u. \<exists>e \<in> set es. check_ecu env camp e = Inr (Inr u)}"
proof (induction es arbitrary: acc)
  case Nil
  then show ?case by simp
next
  case (Cons e es)
  then obtain out where out: "check_ecu env camp e = Inr out"
    and rest: "forE es (\<lambda>e acc. bindE (check_ecu env camp e) (\<lambda>outcome.
      Inr (case outcome of Inl _ \<Rightarrow> acc | Inr u \<Rightarrow> acc @ [u]))) (case out of Inl _ \<Rightarrow> acc | Inr u \<Rightarrow> acc @ [u]) = Inr us"
    by (auto simp: bindE_Inr_iff)
  from Cons.IH [OF rest] out show ?case by (cases out) auto
qed

lemma validate_firmware_iff:
  "validate_firmware env camp vehicle = Inr us \<Longrightarrow>
     u \<in> set us \<longleftrightarrow> (\<exists>e \<in> set vehicle. check_ecu env camp e = Inr (Inr u))"
  using validate_firmware_result [of vehicle env camp "[]" us] by (simp add: validate_firmware_def)

lemma bind_outcome_iff:
  "bindE m (\<lambda>x. case x of Inl r \<Rightarrow> Inr (Inl r) | Inr y \<Rightarrow> f y) = Inr (Inr z) \<longleftrightarrow>
     (\<exists>y. m = Inr (Inr y) \<and> f y = Inr (Inr z))"
  by (cases m) (simp, rename_tac x, case_tac x, simp_all)

lemma check_ecu_accept:
  assumes "check_ecu env camp e = Inr (Inr u)"
  obtains pkg t n where "u = \<lparr>ue_ecu = e, ue_package = pkg, ue_trusted = t, ue_size = n\<rparr>"
    and "cg_approved_targets camp \<noteq> [] \<longrightarrow> ecu_name e \<in> set (cg_approved_targets camp)"
    and "selected_names (fc_target_names env) \<noteq> [] \<longrightarrow> ecu_name e \<in> set (selected_names (fc_target_names env))"
    and "pkg \<in> set (fc_packages env)" and "pk_ecu_name pkg = ecu_name e"
    and "check_trust (fc_trusted env) e pkg = Inr (Inr t)"
    and "fc_require_downloaded env \<longrightarrow> check_download (fc_read env (pk_file pkg)) pkg t = Inr (Inr n)"
    and "check_vehicle_side camp e pkg n = Inr None"
proof -
  obtain pkg where found: "List.find (\<lambda>p. pk_ecu_name p = ecu_name e) (fc_packages env) = Some pkg"
    and sel: "selected_names (fc_target_names env) \<noteq> [] \<longrightarrow> ecu_name e \<in> set (selected_names (fc_target_names env))"
    and app: "cg_approved_targets camp \<noteq> [] \<longrightarrow> ecu_name e \<in> set (cg_approved_targets camp)"
    using assms by (auto simp: check_ecu_def split: if_splits option.splits)
  have run: "bindE (check_trust (fc_trusted env) e pkg) (\<lambda>trust. case trust of Inl r \<Rightarrow> Inr (Inl r)
      | Inr t \<Rightarrow> bindE (if fc_require_downloaded env then check_download (fc_read env (pk_file pkg)) pkg t
                  else Inr (Inr (tt_length t))) (\<lambda>download. case download of Inl r \<Rightarrow> Inr (Inl r)
          | Inr n \<Rightarrow> bindE (check_vehicle_side camp e pkg n) (\<lambda>verdict. case verdict of Some r \<Rightarrow> Inr (Inl r)
              | None \<Rightarrow> Inr (Inr \<lparr>ue_ecu = e, ue_package = pkg, ue_trusted = t, ue_size = n\<rparr>)))) = Inr (Inr u)"
    using assms found sel app unfolding check_ecu_def by (simp split: if_splits)
  obtain t n where t: "check_trust (fc_trusted env) e pkg = Inr (Inr t)"
    and n: "(if fc_require_downloaded env then check_download (fc_read env (pk_file pkg)) pkg t
                       else Inr (Inr (tt_length t))) = Inr (Inr n)"
    and side: "bindE (check_vehicle_side camp e pkg n) (\<lambda>verdict. case verdict of Some r \<Rightarrow> Inr (Inl r)
              | None \<Rightarrow> Inr (Inr \<lparr>ue_ecu = e, ue_package = pkg, ue_trusted = t, ue_size = n\<rparr>)) = Inr (Inr u)"
    using run unfolding bind_outcome_iff by blast
  have "check_vehicle_side camp e pkg n = Inr None" and "u = \<lparr>ue_ecu = e, ue_package = pkg, ue_trusted = t, ue_size = n\<rparr>"
    using side by (auto simp: bindE_Inr_iff split: option.splits)
  moreover have "pkg \<in> set (fc_packages env)" "pk_ecu_name pkg = ecu_name e"
    using found by (auto simp: find_Some_iff)
  ultimately show ?thesis using that sel app t n by (auto split: if_splits)
qed

text \<open>What passing the final artifact verification means for one update.\<close>

lemma eligible_update:
  assumes "validate_firmware env camp vehicle = Inr us" and "u \<in> set us" and "fc_require_downloaded env"
    and "e = ue_ecu u" and "pkg = ue_package u" and "t = ue_trusted u"
  shows "e \<in> set vehicle \<and> map_of (fc_trusted env) (pk_file pkg) = Some t \<and>
    js_get_or (tt_custom t) ''ecu_name'' JsNull = Inr (JsStr (ecu_name e)) \<and>
    js_get_or (tt_custom t) ''hardware_variant'' JsNull = Inr (JsStr (ecu_hardware_variant e)) \<and>
    js_get_or (tt_custom t) ''target_version'' JsNull = Inr (JsStr (pk_target_version pkg)) \<and>
    version_lt (VersionText (ecu_bootloader_version e)) (VersionText (pk_minimum_bootloader pkg)) = Inr False \<and>
    (\<exists>content m current target. fc_read env (pk_file pkg) = Some content \<and>
       length content = tt_length t \<and> hexdigest content = tt_sha256 t \<and>
       parse_firmware_image content = Inr m \<and> img_ecu_name m = ecu_name e \<and>
       img_target_version m = pk_target_version pkg \<and>
       parse_version (VersionText (ecu_current_version e)) = Inr current \<and>
       parse_version (VersionText (pk_target_version pkg)) = Inr target \<and> current < target)"
proof -
  obtain e' where e': "e' \<in> set vehicle" "check_ecu env camp e' = Inr (Inr u)"
    using validate_firmware_iff [OF assms(1)] assms(2) by blast
  obtain pkg' t' n where u: "u = \<lparr>ue_ecu = e', ue_package = pkg', ue_trusted = t', ue_size = n\<rparr>"
    and name: "pk_ecu_name pkg' = ecu_name e'" and trust: "check_trust (fc_trusted env) e' pkg' = Inr (Inr t')"
    and dl: "fc_require_downloaded env \<longrightarrow> check_download (fc_read env (pk_file pkg')) pkg' t' = Inr (Inr n)"
    and side: "check_vehicle_side camp e' pkg' n = Inr None"
    by (rule check_ecu_accept [OF e'(2)])
  have [simp]: "e' = e" "pkg' = pkg" "t' = t" using assms(4-6) u by simp_all
  obtain content m where "fc_read env (pk_file pkg) = Some content" "parse_firmware_image content = Inr m"
    "img_ecu_name m = pk_ecu_name pkg" "img_target_version m = pk_target_version pkg"
    "tt_length t = length content" "hexdigest content = tt_sha256 t"
    using dl assms(3) by (auto elim: check_download_accept)
  moreover obtain current target where "ecu_hardware_variant e = pk_hardware_variant pkg"
    "version_lt (VersionText (ecu_bootloader_version e)) (VersionText (pk_minimum_bootloader pkg)) = Inr False"
    "parse_version (VersionText (ecu_current_version e)) = Inr current"
    "parse_version (VersionText (pk_target_version pkg)) = Inr target" "current < target"
    using side by (auto elim: check_vehicle_side_accept)
  ultimately show ?thesis
    using e'(1) name check_trust_accept(1-4) [OF trust] by simp
qed

text \<open>C18: Only signed firmware is flashed, on the ECU it was signed for, and never backwards: when the
  release passed the trust gate, the file of every update that passes the final artifact
  verification has the SHA-256 of an entry in the signed part of \<open>targets.json\<close>, which carries enough
  valid signatures; the entry's custom data and the header of the file name this ECU, its hardware
  and the new version, and that version is strictly newer than the one the ECU runs.\<close>

theorem eligible_firmware_is_signed:
  assumes "verify_release rel state = Inr (fc_trusted env, state')"
    and "validate_firmware env camp vehicle = Inr us" and "u \<in> set us" and "fc_require_downloaded env"
  shows "\<exists>entries entry custom content m current target.
    signed_targets rel entries \<and> (pk_file (ue_package u), entry) \<in> set entries \<and>
    js_get_or entry ''custom'' (JsObj []) = Inr custom \<and>
    js_get_or custom ''ecu_name'' JsNull = Inr (JsStr (ecu_name (ue_ecu u))) \<and>
    js_get_or custom ''hardware_variant'' JsNull = Inr (JsStr (ecu_hardware_variant (ue_ecu u))) \<and>
    js_get_or custom ''target_version'' JsNull = Inr (JsStr (pk_target_version (ue_package u))) \<and>
    fc_read env (pk_file (ue_package u)) = Some content \<and>
    bindE (js_get entry ''hashes'') (\<lambda>h. js_get h ''sha256'') = Inr (JsStr (hexdigest content)) \<and>
    parse_firmware_image content = Inr m \<and> img_ecu_name m = ecu_name (ue_ecu u) \<and>
    img_target_version m = pk_target_version (ue_package u) \<and>
    parse_version (VersionText (ecu_current_version (ue_ecu u))) = Inr current \<and>
    parse_version (VersionText (pk_target_version (ue_package u))) = Inr target \<and> current < target"
proof -
  obtain content m current target where safe: "map_of (fc_trusted env) (pk_file (ue_package u)) = Some (ue_trusted u)"
    "js_get_or (tt_custom (ue_trusted u)) ''ecu_name'' JsNull = Inr (JsStr (ecu_name (ue_ecu u)))"
    "js_get_or (tt_custom (ue_trusted u)) ''hardware_variant'' JsNull = Inr (JsStr (ecu_hardware_variant (ue_ecu u)))"
    "js_get_or (tt_custom (ue_trusted u)) ''target_version'' JsNull = Inr (JsStr (pk_target_version (ue_package u)))"
    "fc_read env (pk_file (ue_package u)) = Some content" "hexdigest content = tt_sha256 (ue_trusted u)"
    and rest: "parse_firmware_image content = Inr m" "img_ecu_name m = ecu_name (ue_ecu u)"
    "img_target_version m = pk_target_version (ue_package u)"
    "parse_version (VersionText (ecu_current_version (ue_ecu u))) = Inr current"
    "parse_version (VersionText (pk_target_version (ue_package u))) = Inr target" "current < target"
    using eligible_update [OF assms(2-4) refl refl refl] by (elim exE conjE) (rule that)
  obtain entries where entries: "signed_targets rel entries"
    "\<forall>f t. map_of (fc_trusted env) f = Some t \<longrightarrow> (\<exists>entry. (f, entry) \<in> set entries \<and> target_of_entry rel f entry t)"
    using trusted_targets_signed [OF assms(1)] by blast
  obtain entry where entry: "(pk_file (ue_package u), entry) \<in> set entries"
    "target_of_entry rel (pk_file (ue_package u)) entry (ue_trusted u)"
    using entries(2) safe(1) by blast
  then have "bindE (js_get entry ''hashes'') (\<lambda>h. js_get h ''sha256'') = Inr (JsStr (hexdigest content))"
    and "js_get_or entry ''custom'' (JsObj []) = Inr (tt_custom (ue_trusted u))"
    using safe(6) by (auto simp: target_of_entry_def)
  with entries(1) entry(1) safe rest show ?thesis
    by - (rule exI [of _ entries], rule exI [of _ entry], rule exI [of _ "tt_custom (ue_trusted u)"],
      rule exI [of _ content], rule exI [of _ m], rule exI [of _ current], rule exI [of _ target], simp)
qed

section \<open>An approval list that is empty\<close>

lemma check_target_skips:
  assumes "forE ts (check_target topo vehicle camp) c = Inr c'"
  shows "\<forall>q \<in> set (cp_skipped c'). q \<in> set (cp_skipped c) \<or> fst q \<in> ct_ecu_name ` set ts"
  using assms
proof (induction ts arbitrary: c)
  case Nil
  then show ?case by simp
next
  case (Cons target ts)
  then obtain c1 where c1: "check_target topo vehicle camp target c = Inr c1"
    and rest: "forE ts (check_target topo vehicle camp) c1 = Inr c'" by (auto simp: bindE_Inr_iff)
  have "\<forall>q \<in> set (cp_skipped c1). q \<in> set (cp_skipped c) \<or> fst q = ct_ecu_name target"
    using c1 by (auto simp: check_target_def bindE_Inr_iff split: option.splits if_splits)
  with Cons.IH [OF rest] show ?case by auto
qed

lemma dict_of_mem:
  assumes "k \<in> key ` set xs"
  shows "\<exists>v. map_of (dict_of key xs) k = Some v"
proof -
  have keep: "map_of d k \<noteq> None \<Longrightarrow> map_of (foldl (\<lambda>d x. AList.update (key x) x d) d ys) k \<noteq> None" for d ys
    by (induction ys arbitrary: d) (simp_all add: update_conv)
  have "map_of (foldl (\<lambda>d x. AList.update (key x) x d) d xs) k \<noteq> None" for d
    using assms
  proof (induction xs arbitrary: d)
    case (Cons x xs)
    show ?case
    proof (cases "k = key x")
      case True
      then show ?thesis using keep [of "AList.update (key x) x d" xs] by (simp add: update_conv)
    next
      case False
      with Cons show ?thesis by simp
    qed
  qed simp
  then show ?thesis by (simp add: dict_of_def)
qed

lemma map_of_values: "map_of (map (\<lambda>entry. (fst entry, f entry)) xs) k = map_option (\<lambda>v. f (k, v)) (map_of xs k)"
  by (induction xs) auto


section \<open>Concrete checks\<close>

definition fresh_package :: package where
  "fresh_package =
     \<lparr>pk_ecu_name = ''BCM'', pk_file = ''fw.bin'', pk_target_version = ''2.0.0'', pk_hardware_variant = ''HW'',
      pk_minimum_bootloader = ''1.0.0'', pk_transport = ''DOIP'', pk_transport_support = Some [''can'', ''DoIP''],
      pk_sha256 = None, pk_flash_address = Some ''0x08000000'', pk_part_number = Some ''BCM-001''\<rparr>"

definition fresh_ecu :: ecu where
  "fresh_ecu = (demo_vehicle_ecu 0x202 ''BCM'' ''1.0.0'')\<lparr>ecu_rollback_supported := False\<rparr>"

definition fresh_target :: campaign_target where
  "fresh_target = (demo_target ''BCM'')\<lparr>ct_mandatory := False\<rparr>"

definition fresh_campaign :: campaign where
  "fresh_campaign = (demo_campaign [])\<lparr>cg_targets := [fresh_target]\<rparr>"

definition fresh_env :: "bool \<Rightarrow> compatibility_env" where
  "fresh_env downloaded =
     \<lparr>fc_packages = [fresh_package], fc_trusted = demo_trusted, fc_read = map_of [(''fw.bin'', demo_image)],
      fc_require_downloaded = downloaded, fc_target_names = []\<rparr>"

definition fresh_entry :: update_entry where
  "fresh_entry = \<lparr>ue_ecu = fresh_ecu, ue_package = fresh_package, ue_trusted = snd (hd demo_trusted),
     ue_size = length demo_image\<rparr>"

lemma fresh_trust: "check_trust demo_trusted fresh_ecu fresh_package = Inr (Inr (snd (hd demo_trusted)))"
  by (simp add: check_trust_def demo_trusted_def fresh_package_def fresh_ecu_def demo_vehicle_ecu_def custom_is_def)

lemma fresh_download:
  "check_download (Some demo_image) fresh_package (snd (hd demo_trusted)) = Inr (Inr (length demo_image))"
proof -
  have "parse_firmware_image demo_image = Inr (spec_metadata demo_spec [1, 2, 3])"
    by (rule parse_build_firmware_image [OF demo_image_built demo_texts_fit demo_spec_payload])
  moreover have "int_base16 ''0x08000000'' = Inr 0x08000000"
    by (simp add: int_base16_def strip_space_def is_space_def hex_digit_def)
  ultimately show ?thesis
    by (simp add: check_download_def fresh_package_def demo_trusted_def spec_metadata_def demo_spec_def)
qed

lemma fresh_vehicle_side:
  assumes "cg_transport camp = ''CAN''"
  shows "check_vehicle_side camp fresh_ecu fresh_package (length demo_image) = Inr None"
proof -
  have "0 < length demo_image" using build_payload(1) [OF demo_image_built demo_spec_payload] by simp
  moreover have "version_lt (VersionText ''1.0.0'') (VersionText ''1.0.0'') = Inr False"
    "version_eq (VersionText ''1.0.0'') (VersionText ''2.0.0'') = Inr False"
    "version_gte (VersionText ''1.0.0'') (VersionText ''2.0.0'') = Inr False"
    "normalize_transport (Some ''CAN'') \<in> set (package_transports fresh_package)"
    by code_simp+
  ultimately show ?thesis using assms
    by (simp add: check_vehicle_side_def fresh_ecu_def demo_vehicle_ecu_def) (simp add: fresh_package_def)
qed

lemma fresh_validates:
  assumes "cg_transport camp = ''CAN''" and "cg_approved_targets camp = []"
  shows "validate_firmware (fresh_env downloaded) camp [fresh_ecu] = Inr [fresh_entry]"
proof -
  have "pk_ecu_name fresh_package = ecu_name fresh_ecu" "pk_file fresh_package = ''fw.bin''"
    by (simp_all add: fresh_package_def fresh_ecu_def demo_vehicle_ecu_def)
  moreover have dl: "(if downloaded then check_download (Some demo_image) fresh_package (snd (hd demo_trusted))
      else Inr (Inr (tt_length (snd (hd demo_trusted))))) = Inr (Inr (length demo_image))"
    by (simp add: fresh_download) (simp add: demo_trusted_def)
  ultimately have "check_ecu (fresh_env downloaded) camp fresh_ecu = Inr (Inr fresh_entry)"
    using assms(2) fresh_trust fresh_vehicle_side [OF assms(1)]
    by (cases downloaded) (simp_all add: check_ecu_def fresh_env_def selected_names_def fresh_entry_def)
  then show ?thesis by (simp add: validate_firmware_def)
qed

theorem eligible_firmware_is_signed_witness:
  "\<exists>state'. verify_release (demo_release 1) [] = Inr (demo_trusted, state') \<and>
     validate_firmware (fresh_env True) fresh_campaign [fresh_ecu] = Inr [fresh_entry] \<and>
     (\<exists>entries entry. signed_targets (demo_release 1) entries \<and> (''fw.bin'', entry) \<in> set entries \<and>
        bindE (js_get entry ''hashes'') (\<lambda>h. js_get h ''sha256'') = Inr (JsStr (hexdigest demo_image)))"
proof -
  obtain state' where run: "verify_release (demo_release 1) [] = Inr (fc_trusted (fresh_env True), state')"
    using demo_accepted [of 1 "[]"] by (auto simp: trusted_version_def fresh_env_def)
  have val: "validate_firmware (fresh_env True) fresh_campaign [fresh_ecu] = Inr [fresh_entry]"
    by (rule fresh_validates) (simp_all add: fresh_campaign_def demo_campaign_def)
  have parts: "pk_file (ue_package fresh_entry) = ''fw.bin''" "fc_read (fresh_env True) ''fw.bin'' = Some demo_image"
    "fc_trusted (fresh_env True) = demo_trusted"
    by (simp_all add: fresh_entry_def fresh_package_def fresh_env_def)
  have "fresh_entry \<in> set [fresh_entry]" "fc_require_downloaded (fresh_env True)" by (simp_all add: fresh_env_def)
  from eligible_firmware_is_signed [OF run val this] obtain entries entry content where
    "signed_targets (demo_release 1) entries" "(''fw.bin'', entry) \<in> set entries"
    "fc_read (fresh_env True) ''fw.bin'' = Some content"
    "bindE (js_get entry ''hashes'') (\<lambda>h. js_get h ''sha256'') = Inr (JsStr (hexdigest content))"
    unfolding parts(1) by (elim exE conjE) (rule that)
  with run val show ?thesis unfolding parts(2,3) by auto
qed


end
