(* ===== verification/Zone_Controller.thy ===== *)
theory Zone_Controller
  imports DoIP_Gateway Vehicle_Topology JSON_Text
begin

text \<open>
  A zone controller and the ways to it: \<open>zones/base/zone_controller.py\<close>,
  \<open>zones/base/zone_service.py\<close>, \<open>zones/zone_router.py\<close>, \<open>zones/zone_registry.py\<close>,
  \<open>zones/zone_transport_client.py\<close> and \<open>tcu/zone_availability_guard.py\<close>.

  \<open>zone_controller\<close> is the state of one controller: its configuration from the topology, the
  times of the last heartbeats, written by the monitor thread, and the counters. A request is an
  operation on that state which gives the frames put on the bus and the responses. The
  environment variables are a record of their values (\<open>None\<close> where unset, numbers where the code
  calls \<open>float\<close>). The clock is read once for the health check and once for the target check.
\<close>

section \<open>Environment and state\<close>

record zone_env =
  zv_health :: "string option"
  zv_allowed_services :: "string option"
  zv_programming_allowed :: "string option"
  zv_heartbeat_monitor_enabled :: "string option"
  zv_heartbeat_timeout :: clock
  zv_heartbeat_grace :: clock
  zv_response_timeout :: clock

record zone_metrics =
  zm_requests :: nat
  zm_forwarded :: nat
  zm_rejected :: nat
  zm_timeouts :: nat
  zm_heartbeat_frames :: nat
  zm_last_error :: string
  zm_last_service_id :: string
  zm_last_latency_ms :: int

record zone_controller =
  zo_config :: zone_config
  zo_started_at :: clock
  zo_heartbeat_last_seen :: "nat \<Rightarrow> clock option"
  zo_metrics :: zone_metrics

definition new_zone_controller :: "zone_config \<Rightarrow> clock \<Rightarrow> zone_controller" where
  "new_zone_controller config now =
     \<lparr>zo_config = config, zo_started_at = now, zo_heartbeat_last_seen = (\<lambda>_. None),
      zo_metrics = \<lparr>zm_requests = 0, zm_forwarded = 0, zm_rejected = 0, zm_timeouts = 0,
        zm_heartbeat_frames = 0, zm_last_error = [], zm_last_service_id = [], zm_last_latency_ms = 0\<rparr>\<rparr>"

abbreviation zo_ecus :: "zone_controller \<Rightarrow> (nat \<times> zone_ecu) list" where
  "zo_ecus z \<equiv> zc_ecus (zo_config z)"

abbreviation count :: "(zone_metrics \<Rightarrow> zone_metrics) \<Rightarrow> zone_controller \<Rightarrow> zone_controller" where
  "count f z \<equiv> z\<lparr>zo_metrics := f (zo_metrics z)\<rparr>"

definition truthy :: "string \<Rightarrow> bool" where
  "truthy v \<longleftrightarrow> lower v \<in> {''1'', ''true'', ''yes'', ''on''}"

definition heartbeat_monitor_enabled :: "zone_env \<Rightarrow> bool" where
  "heartbeat_monitor_enabled env = truthy (getenv_or (zv_heartbeat_monitor_enabled env) ''1'')"

section \<open>Availability and health\<close>

datatype availability = Unmonitored | Starting | Online | Offline

definition ecu_availability :: "zone_env \<Rightarrow> clock \<Rightarrow> zone_controller \<Rightarrow> zone_ecu \<Rightarrow> availability" where
  "ecu_availability env now z ecu =
     (if \<not> heartbeat_monitor_enabled env then Unmonitored
      else case zo_heartbeat_last_seen z (ze_can_id ecu) of
        None \<Rightarrow> if now - zo_started_at z < zv_heartbeat_grace env then Starting else Offline
      | Some last_seen \<Rightarrow> if now - last_seen \<le> zv_heartbeat_timeout env then Online else Offline)"

record heartbeat_report =
  hb_enabled :: bool
  hb_state :: string
  hb_online_ecus :: "string list"
  hb_offline_ecus :: "string list"

definition heartbeat_health :: "zone_env \<Rightarrow> clock \<Rightarrow> zone_controller \<Rightarrow> heartbeat_report" where
  "heartbeat_health env now z =
     (if \<not> heartbeat_monitor_enabled env
      then \<lparr>hb_enabled = False, hb_state = ''UNMONITORED'', hb_online_ecus = [], hb_offline_ecus = []\<rparr>
      else
        let ecus = map snd (zo_ecus z);
            online = filter (\<lambda>e. ecu_availability env now z e \<in> {Online, Starting}) ecus;
            offline = filter (\<lambda>e. ecu_availability env now z e \<notin> {Online, Starting}) ecus;
            state = (if offline \<noteq> [] then if online \<noteq> [] then ''DEGRADED'' else ''OFFLINE'' else ''ONLINE'');
            state = (if online \<noteq> [] \<and> list_ex (\<lambda>e. ecu_availability env now z e = Starting) ecus
                     then ''STARTING'' else state)
        in \<lparr>hb_enabled = True, hb_state = state, hb_online_ecus = map ze_ecu_name online,
            hb_offline_ecus = map ze_ecu_name offline\<rparr>)"

definition health_state :: "zone_env \<Rightarrow> clock \<Rightarrow> zone_controller \<Rightarrow> string" where
  "health_state env now z =
     (let override = getenv_or (zv_health env) [];
          configured = upper (zc_default_health (zo_config z));
          heartbeat = heartbeat_health env now z
      in if override \<noteq> [] \<and> upper override \<noteq> ''AUTO'' then upper override
         else if configured \<noteq> ''AUTO'' \<and> \<not> heartbeat_monitor_enabled env then configured
         else if hb_state heartbeat = ''STARTING'' then ''STARTING''
         else if hb_offline_ecus heartbeat \<noteq> []
         then if hb_online_ecus heartbeat \<noteq> [] then ''DEGRADED'' else ''OFFLINE''
         else ''ONLINE'')"

definition health_reason :: "string \<Rightarrow> string" where
  "health_reason state =
     (case map_of
        [(''ONLINE'', []), (''DEGRADED'', ''ZONE_DEGRADED_BUT_OPERATIONAL''),
         (''STARTING'', ''WAITING_FOR_ECU_HEARTBEAT''), (''OFFLINE'', ''ZONE_OFFLINE''),
         (''BUS_OFF'', ''ZONE_CAN_BUS_OFF''), (''SECURITY_LOCKED'', ''ZONE_SECURITY_LOCKED'')] state of
        Some reason \<Rightarrow> reason | None \<Rightarrow> ''UNKNOWN_ZONE_HEALTH_'' @ state)"

definition operational :: "string \<Rightarrow> bool" where
  "operational state \<longleftrightarrow> state \<in> {''ONLINE'', ''DEGRADED'', ''STARTING''}"

definition reachable_target :: "availability \<Rightarrow> bool" where
  "reachable_target a \<longleftrightarrow> a \<in> {Online, Starting, Unmonitored}"

section \<open>Policy\<close>

text \<open>\<open>int(text, 0)\<close>: a sign, a base prefix, digits with single underscores between them.\<close>

fun radix_digits :: "nat \<Rightarrow> bool \<Rightarrow> nat \<Rightarrow> string \<Rightarrow> nat option" where
  "radix_digits base digit acc [] = (if digit then Some acc else None)"
| "radix_digits base digit acc (c # cs) =
     (if c = CHR ''_'' then if digit then radix_digits base False acc cs else None
      else case hex_digit c of
        None \<Rightarrow> None
      | Some d \<Rightarrow> if d < base then radix_digits base True (acc * base + d) cs else None)"

definition prefixed_base :: "string \<Rightarrow> nat option" where
  "prefixed_base u =
     (case u of
        z # x # _ \<Rightarrow>
          if z \<noteq> CHR ''0'' then None
          else if x \<in> {CHR ''x'', CHR ''X''} then Some 16
          else if x \<in> {CHR ''o'', CHR ''O''} then Some 8
          else if x \<in> {CHR ''b'', CHR ''B''} then Some 2
          else None
      | _ \<Rightarrow> None)"

definition int_base_0 :: "string \<Rightarrow> int result" where
  "int_base_0 text =
     (let t = strip_space text;
          negative = (t \<noteq> [] \<and> hd t = CHR ''-'');
          u = (if t \<noteq> [] \<and> hd t \<in> {CHR ''-'', CHR ''+''} then tl t else t);
          magnitude =
            (case prefixed_base u of
               Some base \<Rightarrow>
                 let ds = drop 2 u
                 in radix_digits base False 0 (if ds \<noteq> [] \<and> hd ds = CHR ''_'' then tl ds else ds)
             | None \<Rightarrow>
                 case radix_digits 10 False 0 u of
                   Some n \<Rightarrow> if hd u = CHR ''0'' \<and> n \<noteq> 0 then None else Some n
                 | None \<Rightarrow> None)
      in case magnitude of
           Some n \<Rightarrow> Inr (if negative then - int n else int n)
         | None \<Rightarrow> Inl (ValueError (''invalid literal for int() with base 0: '' @ text)))"

definition parse_services :: "string \<Rightarrow> int list result" where
  "parse_services text =
     forE (filter (\<lambda>item. item \<noteq> []) (map strip_space (split_commas text)))
       (\<lambda>item services. bindE (int_base_0 item) (\<lambda>n. Inr (services @ [n]))) []"

definition allowed_services :: "zone_env \<Rightarrow> zone_controller \<Rightarrow> int list result" where
  "allowed_services env z =
     (let configured = getenv_or (zv_allowed_services env) []
      in if configured \<noteq> [] then parse_services configured
         else Inr (map int (zc_allowed_services (zo_config z))))"

definition programming_allowed :: "zone_env \<Rightarrow> zone_controller \<Rightarrow> bool" where
  "programming_allowed env z =
     (case zv_programming_allowed env of
        None \<Rightarrow> zc_programming_allowed (zo_config z) | Some value \<Rightarrow> truthy value)"

definition zone_programming_services :: "byte set" where
  "zone_programming_services = {0x27, 0x31, 0x34, 0x36, 0x37}"

definition service_text :: "byte \<Rightarrow> string" where
  "service_text sid = ''0x'' @ upper (hex_of [sid])"

definition record_rejection :: "string \<Rightarrow> zone_controller \<Rightarrow> zone_controller" where
  "record_rejection reason z =
     count (\<lambda>m. m\<lparr>zm_rejected := zm_rejected m + 1, zm_last_error := reason\<rparr>) z"

text \<open>The checks of a request: each records its rejection and raises.\<close>

definition reject :: "string \<Rightarrow> zone_controller op" where
  "reject reason z = (Some (RuntimeError reason), record_rejection reason z)"

definition enforce_health :: "zone_env \<Rightarrow> clock \<Rightarrow> zone_controller op" where
  "enforce_health env now z =
     (let state = health_state env now z
      in if operational state then (None, z) else reject (health_reason state) z)"

definition enforce_target_online :: "zone_env \<Rightarrow> clock \<Rightarrow> zone_ecu \<Rightarrow> zone_controller op" where
  "enforce_target_online env now ecu z =
     (if reachable_target (ecu_availability env now z ecu) then (None, z)
      else reject (''ECU_HEARTBEAT_TIMEOUT:'' @ ze_ecu_name ecu) z)"

definition enforce_policy :: "zone_env \<Rightarrow> bytes \<Rightarrow> zone_controller op" where
  "enforce_policy env payload z =
     (if payload = [] then reject ''EMPTY_UDS_PAYLOAD'' z
      else case allowed_services env z of
        Inl err \<Rightarrow> (Some err, z)
      | Inr services \<Rightarrow>
          if uint (payload ! 0) \<notin> set services
          then reject (''UDS_SERVICE_'' @ service_text (payload ! 0) @ ''_BLOCKED_BY_ZONE_POLICY'') z
          else if payload ! 0 \<in> zone_programming_services \<and> \<not> programming_allowed env z
          then reject ''PROGRAMMING_BLOCKED_BY_ZONE_POLICY'' z
          else (None, z))"

section \<open>Requests\<close>

text \<open>
  What the world does during one request: the clock at the checks, at the start and end of the
  request and of the flow control waits, the frames that arrive for the sender, and the turns of
  the receive loop (the time its condition reads and what \<open>receive\<close> gave).
\<close>

record zone_io =
  zi_started_at :: clock
  zi_health_at :: clock
  zi_target_at :: clock
  zi_flow_starts :: "nat \<Rightarrow> clock"
  zi_flow_control :: bus_input
  zi_sent_at :: clock
  zi_responses :: bus_input
  zi_finished_at :: clock

fun await_responses ::
    "nat \<Rightarrow> byte \<Rightarrow> clock \<Rightarrow> bus_input \<Rightarrow> reassembler \<Rightarrow> bytes list \<Rightarrow> bytes list option" where
  "await_responses can_id sid deadline [] r responses = None"
| "await_responses can_id sid deadline ((now, message) # inp) r responses =
     (if \<not> now < deadline then None
      else case message of
        None \<Rightarrow> await_responses can_id sid deadline inp r responses
      | Some m \<Rightarrow>
          if arbitration_id m \<noteq> can_id then await_responses can_id sid deadline inp r responses
          else case reassembler_feed (can_data m) r of
            (r', None) \<Rightarrow> await_responses can_id sid deadline inp r' responses
          | (r', Some assembled) \<Rightarrow>
              if \<not> is_response_for_request assembled (Some sid)
              then await_responses can_id sid deadline inp r' responses
              else if is_response_pending assembled (Some sid)
              then await_responses can_id sid deadline inp r' (responses @ [assembled])
              else Some (responses @ [assembled]))"

definition zone_request_checks :: "zone_env \<Rightarrow> zone_io \<Rightarrow> zone_ecu \<Rightarrow> bytes \<Rightarrow> zone_controller op" where
  "zone_request_checks env io ecu payload =
     run_steps [enforce_health env (zi_health_at io), enforce_target_online env (zi_target_at io) ecu,
       enforce_policy env payload]"

definition owned_ecu :: "zone_controller \<Rightarrow> int \<Rightarrow> zone_ecu option" where
  "owned_ecu z address = (if address < 0 then None else map_of (zo_ecus z) (nat address))"

fun hex_nat :: "nat \<Rightarrow> string" where
  "hex_nat n = (if n < 16 then [hex_char n] else hex_nat (n div 16) @ [hex_char (n mod 16)])"

declare hex_nat.simps [simp del]

definition hex_text :: "int \<Rightarrow> string" where
  "hex_text n = (if n < 0 then ''-0x'' @ hex_nat (nat (- n)) else ''0x'' @ hex_nat (nat n))"

definition finish_request :: "zone_env \<Rightarrow> zone_io \<Rightarrow> zone_ecu \<Rightarrow> byte \<Rightarrow> zone_controller \<Rightarrow>
    bytes list result \<times> zone_controller" where
  "finish_request env io ecu sid z =
     (case await_responses (ze_can_id ecu) sid (zi_sent_at io + zv_response_timeout env)
             (zi_responses io) (new_reassembler 0 0) [] of
        Some responses \<Rightarrow>
          (Inr responses,
           count (\<lambda>m. m\<lparr>zm_forwarded := zm_forwarded m + 1, zm_last_error := [],
             zm_last_latency_ms := \<lfloor>(zi_finished_at io - zi_started_at io) * 1000\<rfloor>\<rparr>) z)
      | None \<Rightarrow>
          (Inl (TimeoutError (''Timed out waiting for zone '' @ zc_zone_id (zo_config z) @
             '' response from '' @ ze_ecu_name ecu)),
           count (\<lambda>m. m\<lparr>zm_timeouts := zm_timeouts m + 1, zm_last_error := ''RESPONSE_TIMEOUT''\<rparr>) z))"

definition counted_in :: "bytes \<Rightarrow> zone_controller \<Rightarrow> zone_controller" where
  "counted_in payload z = count (\<lambda>m. m\<lparr>zm_requests := zm_requests m + 1,
     zm_last_service_id := (if payload = [] then [] else service_text (payload ! 0))\<rparr>) z"

record zone_outcome =
  zr_result :: "bytes list result"
  zr_sent :: "can_message list"

definition forward_uds :: "zone_env \<Rightarrow> zone_io \<Rightarrow> int \<Rightarrow> bytes \<Rightarrow> zone_controller \<Rightarrow>
    zone_outcome \<times> zone_controller" where
  "forward_uds env io address payload z =
     (let z = counted_in payload z
      in case owned_ecu z address of
        None \<Rightarrow>
          (\<lparr>zr_result = Inl (KeyError (hex_text address @ '' is not owned by zone '' @ zc_zone_id (zo_config z))),
            zr_sent = []\<rparr>, record_rejection ''ECU_NOT_OWNED_BY_ZONE'' z)
      | Some ecu \<Rightarrow>
          (case zone_request_checks env io ecu payload z of
             (Some err, z) \<Rightarrow> (\<lparr>zr_result = Inl err, zr_sent = []\<rparr>, z)
           | (None, z) \<Rightarrow>
               (case isotp_send (ze_can_id ecu) (zi_flow_starts io) payload (zi_flow_control io) of
                  (sent, Some err) \<Rightarrow> (\<lparr>zr_result = Inl err, zr_sent = sent\<rparr>, z)
                | (sent, None) \<Rightarrow>
                    let (result, z) = finish_request env io ecu (payload ! 0) z
                    in (\<lparr>zr_result = result, zr_sent = sent\<rparr>, z))))"

text \<open>One turn of the heartbeat thread: \<open>now\<close> is the clock when a heartbeat is recorded.\<close>

definition monitor_heartbeat :: "clock \<Rightarrow> can_message \<Rightarrow> zone_controller \<Rightarrow> zone_controller" where
  "monitor_heartbeat now message z =
     (if arbitration_id message \<notin> ze_can_id ` snd ` set (zo_ecus z) then z
      else if can_data message = [] then z
      else if can_data message ! 0 \<noteq> 0x40 then z
      else count (\<lambda>m. m\<lparr>zm_heartbeat_frames := zm_heartbeat_frames m + 1\<rparr>)
        (z\<lparr>zo_heartbeat_last_seen := (zo_heartbeat_last_seen z)(arbitration_id message \<mapsto> now)\<rparr>))"

section \<open>Reports\<close>

text \<open>
  \<open>health()\<close> and \<open>inventory()\<close> as the JSON values the service sends. The fields that are times
  (\<open>timeout_seconds\<close>, \<open>grace_seconds\<close> and \<open>last_seen_age_seconds\<close>) are left out: nothing reads them.
\<close>

definition availability_text :: "availability \<Rightarrow> string" where
  "availability_text a =
     (case a of Unmonitored \<Rightarrow> ''UNMONITORED'' | Starting \<Rightarrow> ''STARTING'' | Online \<Rightarrow> ''ONLINE''
      | Offline \<Rightarrow> ''OFFLINE'')"

definition zone_health :: "zone_env \<Rightarrow> clock \<Rightarrow> zone_controller \<Rightarrow> json" where
  "zone_health env now z =
     (let state = health_state env now z; heartbeat = heartbeat_health env now z in
      JsObj [(''zone_id'', JsStr (zc_zone_id (zo_config z))), (''state'', JsStr state),
        (''can_channel'', JsStr (zc_can_channel (zo_config z))), (''reason'', JsStr (health_reason state)),
        (''heartbeat_monitor'', JsObj [(''enabled'', JsBool (hb_enabled heartbeat)),
           (''state'', JsStr (hb_state heartbeat)),
           (''online_ecus'', JsArr (map JsStr (hb_online_ecus heartbeat))),
           (''offline_ecus'', JsArr (map JsStr (hb_offline_ecus heartbeat)))])])"

definition metrics_json :: "zone_metrics \<Rightarrow> json" where
  "metrics_json m =
     JsObj [(''requests'', JsInt (int (zm_requests m))), (''forwarded'', JsInt (int (zm_forwarded m))),
       (''rejected'', JsInt (int (zm_rejected m))), (''timeouts'', JsInt (int (zm_timeouts m))),
       (''heartbeat_frames'', JsInt (int (zm_heartbeat_frames m))),
       (''last_error'', JsStr (zm_last_error m)), (''last_service_id'', JsStr (zm_last_service_id m)),
       (''last_latency_ms'', JsInt (zm_last_latency_ms m))]"

text \<open>\<open>f"0x{n:02X}"\<close>.\<close>

definition service_number_text :: "int \<Rightarrow> string" where
  "service_number_text n =
     (let digits = upper (hex_nat (nat \<bar>n\<bar>)) in
      ''0x'' @ (if n < 0 then CHR ''-'' # digits else if length digits < 2 then CHR ''0'' # digits else digits))"

definition ecu_entry :: "zone_env \<Rightarrow> clock \<Rightarrow> zone_controller \<Rightarrow> nat \<times> zone_ecu \<Rightarrow> json" where
  "ecu_entry env now z entry =
     JsObj [(''logical_address'', JsStr (hex_text (int (fst entry)))),
       (''ecu_name'', JsStr (ze_ecu_name (snd entry))),
       (''can_id'', JsStr (hex_text (int (ze_can_id (snd entry))))),
       (''availability'',
         JsObj [(''state'', JsStr (availability_text (ecu_availability env now z (snd entry))))])]"

definition inventory :: "zone_env \<Rightarrow> clock \<Rightarrow> zone_controller \<Rightarrow> json result" where
  "inventory env now z =
     bindE (allowed_services env z) (\<lambda>services. Inr
       (JsObj [(''zone_id'', JsStr (zc_zone_id (zo_config z))),
         (''display_name'', JsStr (zc_display_name (zo_config z))),
         (''can_channel'', JsStr (zc_can_channel (zo_config z))),
         (''health'', zone_health env now z),
         (''policy'', JsObj [(''programming_allowed'', JsBool (programming_allowed env z)),
            (''allowed_services'', JsArr (map (\<lambda>n. JsStr (service_number_text n)) (sort (remdups services))))]),
         (''metrics'', metrics_json (zo_metrics z)),
         (''ecus'', JsArr (map (ecu_entry env now z) (zo_ecus z)))]))"

section \<open>The service, its client and the router\<close>

text \<open>
  \<open>_dispatch\<close> and \<open>_handle_client\<close>: one request read from a connection, the reply and the state
  left behind. The text \<open>str(exc)\<close> of an exception is a parameter.
\<close>

definition service_reply :: "zone_controller \<Rightarrow> string \<Rightarrow> json \<Rightarrow> json" where
  "service_reply z key v =
     JsObj [(''status'', JsStr ''OK''), (''zone_id'', JsStr (zc_zone_id (zo_config z))), (key, v)]"

definition service_error :: "zone_controller \<Rightarrow> string \<Rightarrow> json" where
  "service_error z text =
     JsObj [(''status'', JsStr ''ERROR''), (''zone_id'', JsStr (zc_zone_id (zo_config z))),
       (''error'', JsStr text)]"

text \<open>The text of a value in a message, for the values that occur there.\<close>

definition message_text :: "json \<Rightarrow> string" where
  "message_text v = (case v of JsStr s \<Rightarrow> s | JsNull \<Rightarrow> ''None'' | _ \<Rightarrow> dumps v)"

definition forward_arguments :: "json \<Rightarrow> (int \<times> bytes) result" where
  "forward_arguments request =
     bindE (js_get request ''target_logical_address'') (\<lambda>a. bindE (js_int a) (\<lambda>address.
     bindE (js_get request ''payload_hex'') (\<lambda>p. bindE (js_str p) (\<lambda>text.
     bindE (fromhex text) (\<lambda>payload. Inr (address, payload))))))"

definition dispatch :: "zone_env \<Rightarrow> zone_io \<Rightarrow> json \<Rightarrow> zone_controller \<Rightarrow> json result \<times> zone_controller" where
  "dispatch env io request z =
     (case js_get_or request ''type'' JsNull of
        Inl err \<Rightarrow> (Inl err, z)
      | Inr request_type \<Rightarrow>
          if request_type = JsStr ''inventory''
          then (bindE (inventory env (zi_health_at io) z) (\<lambda>v. Inr (service_reply z ''inventory'' v)), z)
          else if request_type = JsStr ''health''
          then (Inr (service_reply z ''health'' (zone_health env (zi_health_at io) z)), z)
          else if request_type = JsStr ''forward_uds''
          then (case forward_arguments request of
                  Inl err \<Rightarrow> (Inl err, z)
                | Inr (address, payload) \<Rightarrow>
                    let (outcome, z) = forward_uds env io address payload z
                    in (bindE (zr_result outcome) (\<lambda>responses. Inr (service_reply z ''responses''
                         (JsArr (map (\<lambda>r. JsStr (hex_of r)) responses)))), z))
          else (Inr (service_error z (''unsupported request type '' @ message_text request_type)), z))"

definition handle_zone_client ::
    "(py_error \<Rightarrow> string) \<Rightarrow> zone_env \<Rightarrow> zone_io \<Rightarrow> json \<Rightarrow> zone_controller \<Rightarrow> json \<times> zone_controller" where
  "handle_zone_client exc_text env io request z =
     (case dispatch env io request z of
        (Inr reply, z) \<Rightarrow> (reply, z) | (Inl err, z) \<Rightarrow> (service_error z (exc_text err), z))"

definition zone_for_logical_address :: "(string \<times> zone_config) list \<Rightarrow> int \<Rightarrow> (string \<times> zone_config) option" where
  "zone_for_logical_address registry address =
     List.find (\<lambda>(_, zone). 0 \<le> address \<and> nat address \<in> fst ` set (zc_ecus zone)) registry"

type_synonym zone_controllers = "string \<Rightarrow> zone_controller option"

text \<open>\<open>ZoneRouter\<close>: the controllers in the same process.\<close>

definition router_forward_uds ::
    "(string \<Rightarrow> zone_env) \<Rightarrow> zone_io \<Rightarrow> (string \<times> zone_config) list \<Rightarrow> int \<Rightarrow> bytes \<Rightarrow> zone_controllers \<Rightarrow>
      bytes list result \<times> zone_controllers" where
  "router_forward_uds env io registry address payload cs =
     (case zone_for_logical_address registry address of
        None \<Rightarrow> (Inl (KeyError (''No zone owns logical address '' @ hex_text address)), cs)
      | Some (zone_id, _) \<Rightarrow>
          (case cs zone_id of
             None \<Rightarrow> (Inl (KeyError zone_id), cs)
           | Some z \<Rightarrow>
               let (outcome, z) = forward_uds (env zone_id) io address payload z
               in (zr_result outcome, cs(zone_id \<mapsto> z))))"

text \<open>
  \<open>ZoneTransportClient\<close>: the same over a connection to the service of the zone. \<open>exchange\<close> sends a
  request to a zone and gives its reply, or the exception of the connection.
\<close>

definition forward_request :: "string \<Rightarrow> int \<Rightarrow> bytes \<Rightarrow> json" where
  "forward_request zone_id address payload =
     JsObj [(''type'', JsStr ''forward_uds''), (''zone_id'', JsStr zone_id),
       (''target_logical_address'', JsInt address), (''payload_hex'', JsStr (hex_of payload))]"

definition decode_responses :: "json \<Rightarrow> bytes list result" where
  "decode_responses reply =
     bindE (js_get_or reply ''responses'' (JsArr [])) (\<lambda>v. bindE (js_list v) (\<lambda>items.
       forE items (\<lambda>item responses. bindE (js_str item) (\<lambda>text. bindE (fromhex text) (\<lambda>r.
         Inr (responses @ [r])))) []))"

definition read_zone_reply :: "string \<Rightarrow> json \<Rightarrow> bytes list result" where
  "read_zone_reply zone_id reply =
     bindE (js_get_or reply ''status'' JsNull) (\<lambda>status.
       if status \<noteq> JsStr ''OK''
       then bindE (js_get_or reply ''error'' (JsStr ''UNKNOWN'')) (\<lambda>e. bindE (js_str e) (\<lambda>text.
         Inl (RuntimeError (''Zone '' @ zone_id @ '' rejected request: '' @ text))))
       else decode_responses reply)"

definition client_forward_uds ::
    "(string \<Rightarrow> json \<Rightarrow> 's \<Rightarrow> json result \<times> 's) \<Rightarrow> (string \<times> zone_config) list \<Rightarrow> int \<Rightarrow> bytes \<Rightarrow> 's \<Rightarrow>
      bytes list result \<times> 's" where
  "client_forward_uds exchange registry address payload s =
     (case zone_for_logical_address registry address of
        None \<Rightarrow> (Inl (KeyError (''No zone owns logical address '' @ hex_text address)), s)
      | Some (zone_id, _) \<Rightarrow>
          (case exchange zone_id (forward_request zone_id address payload) s of
             (Inl err, s) \<Rightarrow> (Inl err, s)
           | (Inr reply, s) \<Rightarrow> (read_zone_reply zone_id reply, s)))"

text \<open>A connection that works, to the services of the given controllers.\<close>

definition service_exchange ::
    "(py_error \<Rightarrow> string) \<Rightarrow> (string \<Rightarrow> zone_env) \<Rightarrow> zone_io \<Rightarrow> string \<Rightarrow> json \<Rightarrow> zone_controllers \<Rightarrow>
      json result \<times> zone_controllers" where
  "service_exchange exc_text env io zone_id request cs =
     (case cs zone_id of
        None \<Rightarrow> (Inl (TimeoutError ''Timed out connecting to zone service''), cs)
      | Some z \<Rightarrow>
          let (reply, z) = handle_zone_client exc_text (env zone_id) io request z
          in (Inr reply, cs(zone_id \<mapsto> z)))"

section \<open>The availability guard\<close>

text \<open>
  \<open>ZoneAvailabilityGuard\<close>, which the TCU asks before it sends on the CAN bus itself: the two
  switches, and the search of the inventories of the zones, which may have raised.
\<close>

definition guard_enabled :: "string option \<Rightarrow> string option \<Rightarrow> bool" where
  "guard_enabled guard_switch zonal_switch \<longleftrightarrow>
     truthy (getenv_or guard_switch ''1'') \<and> truthy (getenv_or zonal_switch ''0'')"

record guard_availability =
  ga_state :: json
  ga_zone_state :: json
  ga_reason :: json

definition find_ecu_entry :: "string \<Rightarrow> json \<Rightarrow> json option result" where
  "find_ecu_entry ecu_name item =
     bindE (js_get_or item ''ecus'' (JsArr [])) (\<lambda>v. bindE (js_list v) (\<lambda>ecus.
       forE ecus (\<lambda>ecu found.
         case found of Some e \<Rightarrow> Inr (Some e)
         | None \<Rightarrow> bindE (js_get_or ecu ''ecu_name'' JsNull) (\<lambda>name.
             Inr (if name = JsStr ecu_name then Some ecu else None))) None))"

fun guard_ecu_availability :: "string \<Rightarrow> json list \<Rightarrow> guard_availability result" where
  "guard_ecu_availability ecu_name [] = Inl (KeyError (ecu_name @ '' not found in live zone inventory''))"
| "guard_ecu_availability ecu_name (item # items) =
     bindE (js_get_or item ''health'' (JsObj [])) (\<lambda>health.
     bindE (find_ecu_entry ecu_name item) (\<lambda>found.
       case found of
         None \<Rightarrow> guard_ecu_availability ecu_name items
       | Some ecu \<Rightarrow>
           bindE (js_get_or ecu ''availability'' (JsObj [])) (\<lambda>a.
           bindE (js_get_or a ''state'' (JsStr ''UNKNOWN'')) (\<lambda>state.
           bindE (js_get_or health ''state'' JsNull) (\<lambda>zone_state.
           bindE (js_get_or health ''reason'' JsNull) (\<lambda>reason.
             Inr \<lparr>ga_state = state, ga_zone_state = zone_state, ga_reason = reason\<rparr>))))))"

definition require_ecu_online :: "bool \<Rightarrow> json list result \<Rightarrow> string \<Rightarrow> unit result" where
  "require_ecu_online enabled inventories ecu_name =
     (if \<not> enabled then Inr ()
      else bindE inventories (\<lambda>items. bindE (guard_ecu_availability ecu_name items) (\<lambda>a.
        guardE (ga_state a \<in> {JsStr ''ONLINE'', JsStr ''STARTING'', JsStr ''UNMONITORED''})
          (RuntimeError (''Zone heartbeat gate rejected '' @ ecu_name @ '': state='' @ message_text (ga_state a) @
            '' reason='' @ message_text (ga_reason a))))))"

definition is_ecu_online :: "bool \<Rightarrow> json list result \<Rightarrow> string \<Rightarrow> bool" where
  "is_ecu_online enabled inventories ecu_name = (require_ecu_online enabled inventories ecu_name = Inr ())"

section \<open>Facts about single requests\<close>

lemma ecu_availability_metrics [simp]:
  "ecu_availability env now (z\<lparr>zo_metrics := m\<rparr>) e = ecu_availability env now z e"
  by (simp add: ecu_availability_def)

lemma heartbeat_health_metrics [simp]:
  "heartbeat_health env now (z\<lparr>zo_metrics := m\<rparr>) = heartbeat_health env now z"
  by (simp add: heartbeat_health_def)

lemma health_state_metrics [simp]:
  "health_state env now (z\<lparr>zo_metrics := m\<rparr>) = health_state env now z"
  by (simp add: health_state_def Let_def)

lemma policy_metrics [simp]:
  "allowed_services env (z\<lparr>zo_metrics := m\<rparr>) = allowed_services env z"
  "programming_allowed env (z\<lparr>zo_metrics := m\<rparr>) = programming_allowed env z"
  "owned_ecu (z\<lparr>zo_metrics := m\<rparr>) address = owned_ecu z address"
  by (simp_all add: allowed_services_def programming_allowed_def owned_ecu_def Let_def cong: option.case_cong)

lemma counted_in_keeps [simp]:
  "zo_config (counted_in p z) = zo_config z"
  "zo_started_at (counted_in p z) = zo_started_at z"
  "zo_heartbeat_last_seen (counted_in p z) = zo_heartbeat_last_seen z"
  "ecu_availability env now (counted_in p z) e = ecu_availability env now z e"
  "heartbeat_health env now (counted_in p z) = heartbeat_health env now z"
  "health_state env now (counted_in p z) = health_state env now z"
  "allowed_services env (counted_in p z) = allowed_services env z"
  "programming_allowed env (counted_in p z) = programming_allowed env z"
  "owned_ecu (counted_in p z) address = owned_ecu z address"
  by (simp_all add: counted_in_def)

text \<open>What a request must satisfy to reach the bus.\<close>

definition permitted :: "zone_env \<Rightarrow> zone_io \<Rightarrow> zone_ecu \<Rightarrow> bytes \<Rightarrow> zone_controller \<Rightarrow> bool" where
  "permitted env io ecu payload z \<longleftrightarrow>
     operational (health_state env (zi_health_at io) z) \<and>
     reachable_target (ecu_availability env (zi_target_at io) z ecu) \<and>
     payload \<noteq> [] \<and>
     (case allowed_services env z of Inl _ \<Rightarrow> False | Inr services \<Rightarrow> uint (payload ! 0) \<in> set services) \<and>
     (payload ! 0 \<in> zone_programming_services \<longrightarrow> programming_allowed env z)"

lemma checks_pass_iff:
  "zone_request_checks env io ecu payload z = (None, z') \<longleftrightarrow> permitted env io ecu payload z \<and> z' = z"
  by (auto simp: zone_request_checks_def permitted_def run_steps.simps enforce_health_def
      enforce_target_online_def enforce_policy_def reject_def Let_def split: sum.splits)

lemma checks_raise:
  assumes "zone_request_checks env io ecu payload z = (Some e, z')"
  obtains reason where "e = RuntimeError reason" and "z' = record_rejection reason z"
  | "allowed_services env z = Inl e" and "z' = z"
  using assms
  by (auto simp: zone_request_checks_def run_steps.simps enforce_health_def enforce_target_online_def
      enforce_policy_def reject_def Let_def split: sum.splits if_splits)

lemma permitted_counted_in [simp]:
  "permitted env io ecu payload (counted_in p z) = permitted env io ecu payload z"
  by (simp add: permitted_def)

text \<open>The four ways a request can end.\<close>

lemma forward_uds_not_owned:
  "owned_ecu z address = None \<Longrightarrow>
   forward_uds env io address payload z =
     (\<lparr>zr_result = Inl (KeyError (hex_text address @ '' is not owned by zone '' @ zc_zone_id (zo_config z))),
       zr_sent = []\<rparr>, record_rejection ''ECU_NOT_OWNED_BY_ZONE'' (counted_in payload z))"
  by (simp add: forward_uds_def)

lemma forward_uds_refused:
  assumes "owned_ecu z address = Some ecu" and "\<not> permitted env io ecu payload z"
  obtains e z' where "zone_request_checks env io ecu payload (counted_in payload z) = (Some e, z')"
    and "forward_uds env io address payload z = (\<lparr>zr_result = Inl e, zr_sent = []\<rparr>, z')"
proof -
  have "fst (zone_request_checks env io ecu payload (counted_in payload z)) \<noteq> None"
    using assms(2) checks_pass_iff [of env io ecu payload "counted_in payload z"]
    by (metis permitted_counted_in prod.collapse)
  then obtain e z' where c: "zone_request_checks env io ecu payload (counted_in payload z) = (Some e, z')"
    by (metis not_None_eq prod.collapse)
  with assms(1) show ?thesis
    by (intro that [OF c]) (simp add: forward_uds_def)
qed

lemma forward_uds_permitted:
  assumes "owned_ecu z address = Some ecu" and "permitted env io ecu payload z"
  shows "forward_uds env io address payload z =
    (case isotp_send (ze_can_id ecu) (zi_flow_starts io) payload (zi_flow_control io) of
       (sent, Some err) \<Rightarrow> (\<lparr>zr_result = Inl err, zr_sent = sent\<rparr>, counted_in payload z)
     | (sent, None) \<Rightarrow>
         let (result, z') = finish_request env io ecu (payload ! 0) (counted_in payload z)
         in (\<lparr>zr_result = result, zr_sent = sent\<rparr>, z'))"
proof -
  have "zone_request_checks env io ecu payload (counted_in payload z) = (None, counted_in payload z)"
    using assms(2) by (simp add: checks_pass_iff)
  then show ?thesis using assms(1)
    by (simp add: forward_uds_def Let_def split: prod.split option.split)
qed

text \<open>What the responses of an answered request are: pending responses and then a final one.\<close>

lemma await_responses_final:
  assumes "await_responses can_id sid deadline inp r done_responses = Some responses"
    and "\<forall>x \<in> set done_responses. is_response_pending x (Some sid)"
  shows "responses \<noteq> [] \<and> \<not> is_response_pending (last responses) (Some sid) \<and>
    (\<forall>x \<in> set (butlast responses). is_response_pending x (Some sid)) \<and>
    is_response_for_request (last responses) (Some sid)"
  using assms
proof (induction can_id sid deadline inp r done_responses rule: await_responses.induct)
  case (1 can_id sid deadline r responses)
  then show ?case by simp
next
  case (2 can_id sid deadline now message inp r acc)
  show ?case
  proof (cases message)
    case None
    then show ?thesis using "2.IH"(1) "2.prems" by (simp split: if_splits)
  next
    case (Some m)
    obtain r' a where feed: "reassembler_feed (can_data m) r = (r', a)" by fastforce
    show ?thesis
    proof (cases "arbitration_id m = can_id \<and> a \<noteq> None \<and> is_response_for_request (the a) (Some sid)")
      case False
      then show ?thesis using "2.IH"(2-4) "2.prems" Some feed
        by (cases a) (simp_all split: if_splits)
    next
      case True
      note reply = this
      then obtain x where a: "a = Some x" by auto
      show ?thesis
      proof (cases "is_response_pending x (Some sid)")
        case True
        then show ?thesis
          using "2.IH"(5) [OF _ Some _ feed [symmetric] a] "2.prems" Some feed a True reply
          by (simp split: if_splits)
      next
        case False
        then show ?thesis using "2.prems" Some feed a False reply by (auto split: if_splits)
      qed
    qed
  qed
qed

lemma finish_request_cases:
  obtains responses where
    "await_responses (ze_can_id ecu) sid (zi_sent_at io + zv_response_timeout env) (zi_responses io)
       (new_reassembler 0 0) [] = Some responses"
    and "fst (finish_request env io ecu sid z) = Inr responses"
    and "zo_metrics (snd (finish_request env io ecu sid z)) =
      (zo_metrics z)\<lparr>zm_forwarded := zm_forwarded (zo_metrics z) + 1, zm_last_error := [],
         zm_last_latency_ms := \<lfloor>(zi_finished_at io - zi_started_at io) * 1000\<rfloor>\<rparr>"
  | msg where "fst (finish_request env io ecu sid z) = Inl (TimeoutError msg)"
    and "zo_metrics (snd (finish_request env io ecu sid z)) =
      (zo_metrics z)\<lparr>zm_timeouts := zm_timeouts (zo_metrics z) + 1, zm_last_error := ''RESPONSE_TIMEOUT''\<rparr>"
proof (cases "await_responses (ze_can_id ecu) sid (zi_sent_at io + zv_response_timeout env)
    (zi_responses io) (new_reassembler 0 0) []")
  case None
  then show ?thesis by (intro that(2)) (simp_all add: finish_request_def)
next
  case (Some responses)
  then show ?thesis by (intro that(1)) (simp_all add: finish_request_def)
qed

text \<open>A request changes nothing but the counters.\<close>

lemma record_rejection_keeps [simp]:
  "zo_config (record_rejection reason z) = zo_config z"
  "zo_started_at (record_rejection reason z) = zo_started_at z"
  "zo_heartbeat_last_seen (record_rejection reason z) = zo_heartbeat_last_seen z"
  by (simp_all add: record_rejection_def)

definition same_zone :: "zone_controller \<Rightarrow> zone_controller \<Rightarrow> bool" where
  "same_zone z z' \<longleftrightarrow> zo_config z' = zo_config z \<and> zo_started_at z' = zo_started_at z \<and>
     zo_heartbeat_last_seen z' = zo_heartbeat_last_seen z"

lemma finish_request_keeps: "same_zone z (snd (finish_request env io ecu sid z))"
  by (simp add: same_zone_def finish_request_def split: option.split)

text \<open>The ends of a request and what each counts.\<close>

lemma forward_uds_ends:
  assumes "forward_uds env io address payload z = (outcome, z')"
  obtains (rejected) reason where "zr_sent outcome = []" and "\<exists>e. zr_result outcome = Inl e"
      and "z' = record_rejection reason (counted_in payload z)"
  | (unreadable) e where "zr_sent outcome = []" and "zr_result outcome = Inl e"
      and "allowed_services env z = Inl e" and "z' = counted_in payload z"
  | (unsent) ecu e where "owned_ecu z address = Some ecu" and "permitted env io ecu payload z"
      and "isotp_send (ze_can_id ecu) (zi_flow_starts io) payload (zi_flow_control io) =
        (zr_sent outcome, Some e)"
      and "zr_result outcome = Inl e" and "z' = counted_in payload z"
  | (sent) ecu where "owned_ecu z address = Some ecu" and "permitted env io ecu payload z"
      and "isotp_send (ze_can_id ecu) (zi_flow_starts io) payload (zi_flow_control io) =
        (zr_sent outcome, None)"
      and "(zr_result outcome, z') = finish_request env io ecu (payload ! 0) (counted_in payload z)"
proof (cases "owned_ecu z address")
  case None
  then show ?thesis using assms by (intro rejected) (auto simp: forward_uds_not_owned)
next
  case (Some ecu)
  show ?thesis
  proof (cases "permitted env io ecu payload z")
    case False
    obtain e y where c: "zone_request_checks env io ecu payload (counted_in payload z) = (Some e, y)"
      and f: "forward_uds env io address payload z = (\<lparr>zr_result = Inl e, zr_sent = []\<rparr>, y)"
      by (rule forward_uds_refused [OF Some False])
    from c show ?thesis
    proof (cases rule: checks_raise)
      case (1 reason)
      then show ?thesis using assms f by (intro rejected) auto
    next
      case 2
      then show ?thesis using assms f by (intro unreadable) auto
    qed
  next
    case True
    obtain ms err where send:
      "isotp_send (ze_can_id ecu) (zi_flow_starts io) payload (zi_flow_control io) = (ms, err)"
      by fastforce
    show ?thesis
    proof (cases err)
      case None
      then show ?thesis using assms forward_uds_permitted [OF Some True] send
        by (intro sent [OF Some True]) (auto simp: Let_def split: prod.splits)
    next
      case (Some e)
      then show ?thesis using assms forward_uds_permitted [OF \<open>owned_ecu z address = Some ecu\<close> True] send
        by (intro unsent [OF \<open>owned_ecu z address = Some ecu\<close> True]) auto
    qed
  qed
qed

section \<open>Admission\<close>

lemma permittedE:
  assumes "permitted env io ecu payload z"
  obtains services where "operational (health_state env (zi_health_at io) z)"
    and "reachable_target (ecu_availability env (zi_target_at io) z ecu)" and "payload \<noteq> []"
    and "allowed_services env z = Inr services" and "uint (payload ! 0) \<in> set services"
    and "payload ! 0 \<in> zone_programming_services \<longrightarrow> programming_allowed env z"
  using assms by (auto simp: permitted_def split: sum.splits)

lemma owned_ecuD: "owned_ecu z address = Some ecu \<Longrightarrow> 0 \<le> address \<and> map_of (zo_ecus z) (nat address) = Some ecu"
  by (simp add: owned_ecu_def split: if_splits)

lemma sent_is_permitted:
  assumes "forward_uds env io address payload z = (outcome, z')" and "zr_sent outcome \<noteq> []"
  obtains ecu where "owned_ecu z address = Some ecu" and "permitted env io ecu payload z"
    and "\<forall>m \<in> set (zr_sent outcome). arbitration_id m = ze_can_id ecu"
  using assms(1)
proof (cases rule: forward_uds_ends)
  case (unsent ecu e)
  then show ?thesis using isotp_send_arbitration [OF unsent(3)] by (intro that) auto
next
  case (sent ecu)
  then show ?thesis using isotp_send_arbitration [OF sent(3)] by (intro that) auto
qed (use assms(2) in auto)

text \<open>C25: Nothing is put on the CAN bus of a zone unless the zone owns the addressed ECU, is ONLINE,
DEGRADED or STARTING, the ECU is not missing its heartbeats, the service is allowed and, for the
services of programming, programming is allowed; and what is sent goes to this ECU alone.\<close>

theorem zone_sends_only_permitted:
  assumes "forward_uds env io address payload z = (outcome, z')" and "zr_sent outcome \<noteq> []"
  shows "\<exists>ecu services. 0 \<le> address \<and> map_of (zo_ecus z) (nat address) = Some ecu \<and>
    (\<forall>m \<in> set (zr_sent outcome). arbitration_id m = ze_can_id ecu) \<and>
    health_state env (zi_health_at io) z \<in> {''ONLINE'', ''DEGRADED'', ''STARTING''} \<and>
    ecu_availability env (zi_target_at io) z ecu \<noteq> Offline \<and> payload \<noteq> [] \<and>
    allowed_services env z = Inr services \<and> uint (payload ! 0) \<in> set services \<and>
    (payload ! 0 \<in> zone_programming_services \<longrightarrow> programming_allowed env z)"
proof -
  obtain ecu where own: "owned_ecu z address = Some ecu" and p: "permitted env io ecu payload z"
    and arb: "\<forall>m \<in> set (zr_sent outcome). arbitration_id m = ze_can_id ecu"
    by (rule sent_is_permitted [OF assms])
  from p obtain services where "operational (health_state env (zi_health_at io) z)"
    and "reachable_target (ecu_availability env (zi_target_at io) z ecu)" and "payload \<noteq> []"
    and "allowed_services env z = Inr services" and "uint (payload ! 0) \<in> set services"
    and "payload ! 0 \<in> zone_programming_services \<longrightarrow> programming_allowed env z"
    by (rule permittedE)
  with owned_ecuD [OF own] arb show ?thesis
    by (intro exI [of _ ecu] exI [of _ services]) (auto simp: operational_def reachable_target_def)
qed

section \<open>Runs\<close>

text \<open>
  What happens to a controller in time: requests, one after the other, and the frames the
  heartbeat thread receives (when it runs).
\<close>

datatype zone_event = Request zone_io int bytes | Frame clock can_message

fun zone_run :: "zone_env \<Rightarrow> zone_event list \<Rightarrow> zone_controller \<Rightarrow> zone_outcome list \<times> zone_controller" where
  "zone_run env [] z = ([], z)"
| "zone_run env (Request io address payload # evs) z =
     (let (outcome, z') = forward_uds env io address payload z;
          (outcomes, z'') = zone_run env evs z'
      in (outcome # outcomes, z''))"
| "zone_run env (Frame now m # evs) z =
     zone_run env evs (if heartbeat_monitor_enabled env then monitor_heartbeat now m z else z)"

definition is_answer :: "zone_outcome \<Rightarrow> bool" where
  "is_answer outcome \<longleftrightarrow> (\<exists>responses. zr_result outcome = Inr responses)"

definition accounted :: "nat \<Rightarrow> zone_metrics \<Rightarrow> bool" where
  "accounted answers m \<longleftrightarrow> zm_forwarded m = answers \<and>
     zm_forwarded m + zm_rejected m + zm_timeouts m \<le> zm_requests m"

lemma zo_metrics_counted_in [simp]:
  "zm_requests (zo_metrics (counted_in p z)) = zm_requests (zo_metrics z) + 1"
  "zm_forwarded (zo_metrics (counted_in p z)) = zm_forwarded (zo_metrics z)"
  "zm_rejected (zo_metrics (counted_in p z)) = zm_rejected (zo_metrics z)"
  "zm_timeouts (zo_metrics (counted_in p z)) = zm_timeouts (zo_metrics z)"
  "zm_heartbeat_frames (zo_metrics (counted_in p z)) = zm_heartbeat_frames (zo_metrics z)"
  by (simp_all add: counted_in_def)

lemma zo_metrics_record_rejection [simp]:
  "zm_requests (zo_metrics (record_rejection reason z)) = zm_requests (zo_metrics z)"
  "zm_forwarded (zo_metrics (record_rejection reason z)) = zm_forwarded (zo_metrics z)"
  "zm_rejected (zo_metrics (record_rejection reason z)) = zm_rejected (zo_metrics z) + 1"
  "zm_timeouts (zo_metrics (record_rejection reason z)) = zm_timeouts (zo_metrics z)"
  "zm_heartbeat_frames (zo_metrics (record_rejection reason z)) = zm_heartbeat_frames (zo_metrics z)"
  by (simp_all add: record_rejection_def)

lemma forward_uds_same_zone:
  assumes "forward_uds env io address payload z = (outcome, z')"
  shows "same_zone z z'"
  using assms
proof (cases rule: forward_uds_ends)
  case (sent ecu)
  have "z' = snd (finish_request env io ecu (payload ! 0) (counted_in payload z))"
    using sent(4) by (simp add: prod_eq_iff)
  then show ?thesis
    using finish_request_keeps [of "counted_in payload z" env io ecu "payload ! 0"]
    by (simp add: same_zone_def)
qed (auto simp: same_zone_def)

lemma forward_uds_accounts:
  assumes "forward_uds env io address payload z = (outcome, z')" and "accounted n (zo_metrics z)"
  shows "zm_requests (zo_metrics z') = zm_requests (zo_metrics z) + 1 \<and>
    zm_heartbeat_frames (zo_metrics z') = zm_heartbeat_frames (zo_metrics z) \<and>
    accounted (if is_answer outcome then n + 1 else n) (zo_metrics z') \<and> same_zone z z'"
  using assms(1)
proof (cases rule: forward_uds_ends)
  case (sent ecu)
  let ?z = "counted_in payload z"
  have f: "zr_result outcome = fst (finish_request env io ecu (payload ! 0) ?z)"
    "z' = snd (finish_request env io ecu (payload ! 0) ?z)"
    using sent(4) by (simp_all add: prod_eq_iff)
  have "same_zone z z'" by (rule forward_uds_same_zone [OF assms(1)])
  moreover have "zm_requests (zo_metrics z') = zm_requests (zo_metrics z) + 1 \<and>
    zm_heartbeat_frames (zo_metrics z') = zm_heartbeat_frames (zo_metrics z) \<and>
    accounted (if is_answer outcome then n + 1 else n) (zo_metrics z')"
    using assms(2)
    by (cases rule: finish_request_cases [where ecu = ecu and sid = "payload ! 0" and io = io and env = env and z = ?z])
      (auto simp: f accounted_def is_answer_def)
  ultimately show ?thesis by simp
qed (use assms(2) in \<open>auto simp: accounted_def is_answer_def same_zone_def\<close>)

lemma monitor_heartbeat_keeps [simp]:
  "zo_config (monitor_heartbeat now m z) = zo_config z"
  "zo_started_at (monitor_heartbeat now m z) = zo_started_at z"
  by (simp_all add: monitor_heartbeat_def)

lemma monitor_heartbeat_accounts:
  "zm_requests (zo_metrics (monitor_heartbeat now m z)) = zm_requests (zo_metrics z) \<and>
   (accounted n (zo_metrics z) \<longrightarrow> accounted n (zo_metrics (monitor_heartbeat now m z)))"
  by (simp add: monitor_heartbeat_def accounted_def)

lemma zone_run_accounts:
  assumes "zone_run env evs z = (outcomes, z')" and "accounted n (zo_metrics z)"
  shows "zm_requests (zo_metrics z') = zm_requests (zo_metrics z) + length outcomes \<and>
    accounted (n + length (filter is_answer outcomes)) (zo_metrics z') \<and>
    zo_config z' = zo_config z \<and> zo_started_at z' = zo_started_at z"
  using assms
proof (induction env evs z arbitrary: outcomes n rule: zone_run.induct)
  case (1 env z)
  then show ?case by simp
next
  case (2 env io address payload evs z)
  obtain outcome y where f: "forward_uds env io address payload z = (outcome, y)" by fastforce
  obtain os where r: "zone_run env evs y = (os, z')" and os: "outcomes = outcome # os"
    using "2.prems"(1) f by (auto simp: Let_def split: prod.splits)
  show ?case
    using "2.IH" [OF refl f [symmetric] r, of "if is_answer outcome then n + 1 else n"]
      forward_uds_accounts [OF f "2.prems"(2)]
    by (auto simp: os same_zone_def split: if_splits)
next
  case (3 env now m evs z)
  then show ?case
    using monitor_heartbeat_accounts [of now m z n] by (auto split: if_splits)
qed


definition is_heartbeat_of :: "nat \<Rightarrow> can_message \<Rightarrow> bool" where
  "is_heartbeat_of can_id m \<longleftrightarrow> arbitration_id m = can_id \<and> can_data m \<noteq> [] \<and> can_data m ! 0 = 0x40"

definition silent :: "nat \<Rightarrow> zone_event list \<Rightarrow> bool" where
  "silent can_id evs \<longleftrightarrow> (\<forall>now m. Frame now m \<in> set evs \<longrightarrow> \<not> is_heartbeat_of can_id m)"

lemma silent_Cons [simp]:
  "silent can_id (Request io address payload # evs) = silent can_id evs"
  "silent can_id (Frame now m # evs) \<longleftrightarrow> \<not> is_heartbeat_of can_id m \<and> silent can_id evs"
  by (auto simp: silent_def)

lemma monitor_heartbeat_other:
  "\<not> is_heartbeat_of can_id m \<Longrightarrow>
   zo_heartbeat_last_seen (monitor_heartbeat now m z) can_id = zo_heartbeat_last_seen z can_id"
  by (auto simp: monitor_heartbeat_def is_heartbeat_of_def)

lemma zone_run_silent:
  assumes "zone_run env evs z = (outcomes, z')" and "silent can_id evs"
  shows "zo_heartbeat_last_seen z' can_id = zo_heartbeat_last_seen z can_id \<and>
    zo_config z' = zo_config z \<and> zo_started_at z' = zo_started_at z"
  using assms
proof (induction env evs z arbitrary: outcomes rule: zone_run.induct)
  case (1 env z)
  then show ?case by simp
next
  case (2 env io address payload evs z)
  obtain outcome y where f: "forward_uds env io address payload z = (outcome, y)" by fastforce
  obtain os where r: "zone_run env evs y = (os, z')" and os: "outcomes = outcome # os"
    using "2.prems"(1) f by (auto simp: Let_def split: prod.splits)
  show ?case
    using "2.IH" [OF refl f [symmetric] r] forward_uds_same_zone [OF f] "2.prems"(2)
    by (auto simp: same_zone_def)
next
  case (3 env now m evs z)
  then show ?case
    using monitor_heartbeat_other [of can_id m now z] by (auto split: if_splits)
qed

lemma health_with_online_ecu:
  assumes "zv_health env = None" and "heartbeat_monitor_enabled env"
    and "ecu \<in> snd ` set (zo_ecus z)" and "ecu_availability env now z ecu = Online"
  shows "operational (health_state env now z)"
proof -
  have "hb_online_ecus (heartbeat_health env now z) \<noteq> []"
    using assms(2-4) by (auto simp: heartbeat_health_def Let_def filter_empty_conv)
  then show ?thesis using assms(1,2)
    by (auto simp: health_state_def operational_def getenv_or_def Let_def)
qed

text \<open>C27: An ECU whose heartbeats stopped is cut off, and only it: once its last heartbeat is older than
the timeout, whatever requests and frames came since, no request to it reaches the bus; the zone
stays operational for its other ECUs as long as one of them is heard.\<close>

theorem silent_ecu_is_cut_off:
  assumes "zone_run env evs z = (outcomes, z')" and "heartbeat_monitor_enabled env" and "zv_health env = None"
    and "owned_ecu z address = Some ecu" and "silent (ze_can_id ecu) evs"
    and "zo_heartbeat_last_seen z (ze_can_id ecu) = Some t"
    and "t + zv_heartbeat_timeout env < zi_target_at io"
    and "other \<in> snd ` set (zo_ecus z)" and "ecu_availability env now z' other = Online"
  shows "zr_sent (fst (forward_uds env io address payload z')) = [] \<and>
    \<not> is_answer (fst (forward_uds env io address payload z')) \<and>
    operational (health_state env now z')"
proof -
  note keep = zone_run_silent [OF assms(1,5)]
  have own: "owned_ecu z' address = Some ecu" using assms(4) keep by (simp add: owned_ecu_def split: if_splits)
  have "ecu_availability env (zi_target_at io) z' ecu = Offline"
    using assms(2,6,7) keep by (simp add: ecu_availability_def)
  then have "\<not> permitted env io ecu payload z'" by (simp add: permitted_def reachable_target_def)
  then have "zr_sent (fst (forward_uds env io address payload z')) = [] \<and>
    \<not> is_answer (fst (forward_uds env io address payload z'))"
    by (rule forward_uds_refused [OF own, of env io payload]) (simp add: is_answer_def)
  moreover have "operational (health_state env now z')"
    using assms(2,3,8,9) keep by (intro health_with_online_ecu) auto
  ultimately show ?thesis by simp
qed

section \<open>The service against the router\<close>

lemma decode_hex_responses:
  "forE (map (\<lambda>r. JsStr (hex_of r)) rs) (\<lambda>item responses. bindE (js_str item) (\<lambda>text.
     bindE (fromhex text) (\<lambda>r. Inr (responses @ [r])))) acc = Inr (acc @ rs)"
  by (induction rs arbitrary: acc) simp_all

lemma forward_arguments_request [simp]:
  "forward_arguments (forward_request zone_id address payload) = Inr (address, payload)"
  by (simp add: forward_arguments_def forward_request_def)

lemma read_zone_reply_error [simp]:
  "read_zone_reply zone_id (service_error z msg) =
     Inl (RuntimeError (''Zone '' @ zone_id @ '' rejected request: '' @ msg))"
  by (simp add: read_zone_reply_def service_error_def)

lemma read_zone_reply_responses [simp]:
  "read_zone_reply zone_id (service_reply z ''responses'' (JsArr (map (\<lambda>r. JsStr (hex_of r)) rs))) = Inr rs"
  by (simp add: read_zone_reply_def service_reply_def decode_responses_def decode_hex_responses)

lemma handle_forward_request:
  "handle_zone_client exc_text env io (forward_request zone_id address payload) z =
     (let (outcome, z') = forward_uds env io address payload z
      in (case zr_result outcome of
            Inl e \<Rightarrow> service_error z' (exc_text e)
          | Inr rs \<Rightarrow> service_reply z' ''responses'' (JsArr (map (\<lambda>r. JsStr (hex_of r)) rs)), z'))"
proof -
  have "js_get_or (forward_request zone_id address payload) ''type'' JsNull = Inr (JsStr ''forward_uds'')"
    by (simp add: forward_request_def)
  then show ?thesis
    by (auto simp: handle_zone_client_def dispatch_def Let_def split: prod.splits sum.splits)
qed

text \<open>C28: Reaching a zone through its service is the same as calling its controller: the client gets the
same responses, the controllers are left in the same state, and an exception of the controller
arrives as a RuntimeError with its text.\<close>

theorem zone_service_equals_router:
  assumes "zone_for_logical_address registry address = Some (zone_id, config)" and "cs zone_id = Some z"
  shows "client_forward_uds (service_exchange exc_text env io) registry address payload cs =
    (case router_forward_uds env io registry address payload cs of
       (Inr responses, cs') \<Rightarrow> (Inr responses, cs')
     | (Inl e, cs') \<Rightarrow>
         (Inl (RuntimeError (''Zone '' @ zone_id @ '' rejected request: '' @ exc_text e)), cs'))"
proof -
  obtain outcome z' where f: "forward_uds (env zone_id) io address payload z = (outcome, z')" by fastforce
  have "service_exchange exc_text env io zone_id (forward_request zone_id address payload) cs =
    (Inr (case zr_result outcome of
            Inl e \<Rightarrow> service_error z' (exc_text e)
          | Inr rs \<Rightarrow> service_reply z' ''responses'' (JsArr (map (\<lambda>r. JsStr (hex_of r)) rs))),
     cs(zone_id \<mapsto> z'))"
    using assms(2) f by (simp add: service_exchange_def handle_forward_request)
  then show ?thesis using assms f
    by (cases "zr_result outcome") (simp_all add: client_forward_uds_def router_forward_uds_def)
qed

section \<open>The availability guard\<close>

text \<open>
  The guard of the CAN path reads the availability of the ECU from the inventories and nothing
  else: it lets an ECU pass in a zone whose controller would refuse every request.
\<close>

lemma guard_reads_availability:
  assumes "inventory env now z = Inr report" and "zo_ecus z = (address, ecu) # rest"
  shows "require_ecu_online True (Inr (report # reports)) (ze_ecu_name ecu) = Inr () \<longleftrightarrow>
    reachable_target (ecu_availability env now z ecu)"
proof -
  have found: "forE es (\<lambda>ecu found. case found of Some e \<Rightarrow> Inr (Some e)
      | None \<Rightarrow> bindE (js_get_or ecu ''ecu_name'' JsNull) (\<lambda>name.
          Inr (if name = JsStr n then Some ecu else None))) (Some e) = Inr (Some e)" for es n e
    by (induction es) simp_all
  have "find_ecu_entry (ze_ecu_name ecu) report = Inr (Some (ecu_entry env now z (address, ecu)))"
    using assms
    by (auto simp: inventory_def bindE_Inr_iff find_ecu_entry_def ecu_entry_def found)
  moreover have "js_get_or report ''health'' (JsObj []) = Inr (zone_health env now z)"
    using assms(1) by (auto simp: inventory_def bindE_Inr_iff)
  ultimately show ?thesis
    by (cases "ecu_availability env now z ecu")
      (simp_all add: require_ecu_online_def zone_health_def Let_def ecu_entry_def availability_text_def
        reachable_target_def)
qed

section \<open>Demonstration\<close>

definition demo_zone_ecu :: "string \<Rightarrow> nat \<Rightarrow> zone_ecu" where
  "demo_zone_ecu name can_id =
     \<lparr>ze_ecu_name = name, ze_can_id = can_id, ze_criticality = ''optional'', ze_dependencies = [],
      ze_on_unavailable = ''skip'', ze_on_dependency_failed = ''skip''\<rparr>"

definition demo_zone :: zone_config where
  "demo_zone =
     \<lparr>zc_zone_id = ''front'', zc_display_name = ''Front Zone'', zc_can_channel = ''vcan0'',
      zc_service_port = 14001, zc_default_health = ''ONLINE'', zc_programming_allowed = True,
      zc_allowed_services = [0x10, 0x22, 0x27, 0x3E],
      zc_ecus = [(0x1002, demo_zone_ecu ''BCM ECU'' 0x201), (0x1003, demo_zone_ecu ''Cluster ECU'' 0x202)]\<rparr>"

definition demo_zone_env :: zone_env where
  "demo_zone_env =
     \<lparr>zv_health = None, zv_allowed_services = None, zv_programming_allowed = None,
      zv_heartbeat_monitor_enabled = None, zv_heartbeat_timeout = 3, zv_heartbeat_grace = 5,
      zv_response_timeout = 120\<rparr>"

definition demo_zone_io :: "clock \<Rightarrow> zone_io" where
  "demo_zone_io t =
     \<lparr>zi_started_at = t, zi_health_at = t, zi_target_at = t, zi_flow_starts = (\<lambda>_. t),
      zi_flow_control = [], zi_sent_at = t,
      zi_responses = [(t + 1, Some \<lparr>arbitration_id = 0x201, can_data = [2, 0x50, 0x02]\<rparr>)],
      zi_finished_at = t + 1\<rparr>"

definition demo_heartbeat :: "nat \<Rightarrow> can_message" where
  "demo_heartbeat can_id = \<lparr>arbitration_id = can_id, can_data = [0x40]\<rparr>"

lemmas demo_zone_defs = demo_zone_def demo_zone_ecu_def demo_zone_env_def demo_zone_io_def
  demo_heartbeat_def new_zone_controller_def

lemma demo_monitor [simp]: "heartbeat_monitor_enabled demo_zone_env"
  by (simp add: heartbeat_monitor_enabled_def demo_zone_env_def getenv_or_def truthy_def lower_def lower_char_def)

definition demo_controller :: zone_controller where
  "demo_controller = (new_zone_controller demo_zone 0)
     \<lparr>zo_heartbeat_last_seen := [0x201 \<mapsto> 10, 0x202 \<mapsto> 10]\<rparr>"

lemma demo_owned: "owned_ecu demo_controller 0x1002 = Some (demo_zone_ecu ''BCM ECU'' 0x201)"
  by (simp add: owned_ecu_def demo_controller_def demo_zone_defs)

lemma demo_permitted:
  "permitted demo_zone_env (demo_zone_io 11) (demo_zone_ecu ''BCM ECU'' 0x201) [0x10, 0x02] demo_controller"
proof -
  have "operational (health_state demo_zone_env 11 demo_controller)"
    by (rule health_with_online_ecu [where ecu = "demo_zone_ecu ''BCM ECU'' 0x201"])
      (simp_all add: ecu_availability_def, simp_all add: demo_controller_def demo_zone_defs)
  moreover have "ecu_availability demo_zone_env 11 demo_controller (demo_zone_ecu ''BCM ECU'' 0x201) = Online"
    by (simp add: ecu_availability_def) (simp add: demo_controller_def demo_zone_defs)
  ultimately show ?thesis
    by (simp add: permitted_def reachable_target_def allowed_services_def programming_allowed_def)
      (simp add: demo_controller_def demo_zone_defs getenv_or_def)
qed

lemma demo_answered:
  "zr_result (fst (forward_uds demo_zone_env (demo_zone_io 11) 0x1002 [0x10, 0x02] demo_controller)) =
     Inr [[0x50, 0x02]] \<and>
   zr_sent (fst (forward_uds demo_zone_env (demo_zone_io 11) 0x1002 [0x10, 0x02] demo_controller)) \<noteq> []"
  unfolding forward_uds_permitted [OF demo_owned demo_permitted]
  by (simp add: isotp_send_def single_frame_def wrap_frame_def finish_request_def Let_def
      demo_zone_io_def demo_zone_ecu_def demo_zone_env_def reassembler_feed_def feed_single_frame_def
      is_response_for_request_def positive_response_sid_def is_response_pending_def new_reassembler_def)

theorem zone_sends_only_permitted_witness:
  "\<exists>ecu services. map_of (zo_ecus demo_controller) 0x1002 = Some ecu \<and>
     allowed_services demo_zone_env demo_controller = Inr services \<and> 0x10 \<in> set services"
  using zone_sends_only_permitted [OF prod.collapse [symmetric] conjunct2 [OF demo_answered]] by auto


theorem silent_ecu_is_cut_off_witness:
  "zr_sent (fst (forward_uds demo_zone_env (demo_zone_io 15) 0x1002 [0x10, 0x02]
     (snd (zone_run demo_zone_env [Frame 14 (demo_heartbeat 0x202)] demo_controller)))) = []"
proof (rule silent_ecu_is_cut_off [THEN conjunct1, OF prod.collapse [symmetric] demo_monitor _ demo_owned])
  show "zv_health demo_zone_env = None" by (simp add: demo_zone_env_def)
  show "silent (ze_can_id (demo_zone_ecu ''BCM ECU'' 0x201)) [Frame 14 (demo_heartbeat 0x202)]"
    by (simp add: silent_def is_heartbeat_of_def demo_zone_defs)
  show "zo_heartbeat_last_seen demo_controller (ze_can_id (demo_zone_ecu ''BCM ECU'' 0x201)) = Some 10"
    by (simp add: demo_controller_def demo_zone_defs)
  show "10 + zv_heartbeat_timeout demo_zone_env < zi_target_at (demo_zone_io 15)"
    by (simp add: demo_zone_env_def demo_zone_io_def)
  show "demo_zone_ecu ''Cluster ECU'' 0x202 \<in> snd ` set (zo_ecus demo_controller)"
    by (simp add: demo_controller_def demo_zone_defs)
  show "ecu_availability demo_zone_env 15 (snd (zone_run demo_zone_env
      [Frame 14 (demo_heartbeat 0x202)] demo_controller)) (demo_zone_ecu ''Cluster ECU'' 0x202) = Online"
    by (simp add: ecu_availability_def)
      (simp add: demo_controller_def demo_zone_defs monitor_heartbeat_def)
qed

theorem zone_service_equals_router_witness:
  "fst (client_forward_uds (service_exchange (\<lambda>_. []) (\<lambda>_. demo_zone_env) (demo_zone_io 11))
     [(''front'', demo_zone)] 0x1002 [0x10, 0x02] [''front'' \<mapsto> demo_controller]) = Inr [[0x50, 0x02]]"
proof -
  have "zone_for_logical_address [(''front'', demo_zone)] 0x1002 = Some (''front'', demo_zone)"
    by (simp add: zone_for_logical_address_def demo_zone_def)
  then show ?thesis
    using demo_answered
    by (auto simp: zone_service_equals_router [of _ _ "''front''" demo_zone _ demo_controller]
        router_forward_uds_def Let_def split: prod.split)
qed

end
