(* ===== verification/Post_Install.thy ===== *)
theory Post_Install
  imports ECU_Boot Update_Planner
begin

text \<open>
  Validation after the installation: \<open>tcu/post_install_validator.py\<close>.

  The vehicle is discovered again until every target reports its version or the time is up. Then
  each target ECU that is still on trial is committed or rolled back in its version and slot files
  (\<open>ECU_Boot.ecu\<close>, kept per ECU key). The state is what an exception leaves behind.
\<close>

section \<open>Names and versions to validate\<close>

definition validation_names :: "campaign \<Rightarrow> string list" where
  "validation_names camp =
     (if cg_approved_targets camp \<noteq> [] then cg_approved_targets camp
      else filter (\<lambda>n. n \<notin> fst ` set (cg_skipped_optional_targets camp)) (map ct_ecu_name (cg_targets camp)))"

definition target_versions :: "campaign \<Rightarrow> (string \<times> string) list" where
  "target_versions camp =
     map (\<lambda>(n, target). (n, ct_target_version target))
       (dict_of ct_ecu_name (filter (\<lambda>t. ct_ecu_name t \<in> set (validation_names camp)) (cg_targets camp)))"

definition discovered :: "vehicle \<Rightarrow> string \<Rightarrow> Update_Planner.ecu option" where
  "discovered vehicle n = map_of (dict_of ecu_name vehicle) n"

section \<open>Waiting\<close>

fun all_targets_running :: "vehicle \<Rightarrow> (string \<times> string) list \<Rightarrow> bool result" where
  "all_targets_running vehicle [] = Inr True"
| "all_targets_running vehicle ((n, expected) # targets) =
     (case discovered vehicle n of
        None \<Rightarrow> Inr False
      | Some e \<Rightarrow>
          bindE (version_eq (VersionText (ecu_current_version e)) (VersionText expected)) (\<lambda>same.
            if \<not> same then Inr False else all_targets_running vehicle targets))"

text \<open>
  One discovery per turn. \<open>rest\<close> are the later turns, each with the time read after the discovery
  before it; when there are none, the deadline has passed.
\<close>

fun wait_for_expected_versions ::
    "(string \<times> string) list \<Rightarrow> clock \<Rightarrow> vehicle result \<Rightarrow> (clock \<times> vehicle result) list \<Rightarrow> vehicle result" where
  "wait_for_expected_versions targets deadline (Inl e) rest = Inl e"
| "wait_for_expected_versions targets deadline (Inr vehicle) [] =
     bindE (all_targets_running vehicle targets) (\<lambda>_. Inr vehicle)"
| "wait_for_expected_versions targets deadline (Inr vehicle) ((now, later) # rest) =
     bindE (all_targets_running vehicle targets) (\<lambda>running.
       if running then Inr vehicle
       else if deadline \<le> now then Inr vehicle
       else wait_for_expected_versions targets deadline later rest)"

section \<open>Commit or roll back\<close>

fun contains :: "string \<Rightarrow> string \<Rightarrow> bool" where
  "contains part [] \<longleftrightarrow> part = []"
| "contains part (c # cs) \<longleftrightarrow> take (length part) (c # cs) = part \<or> contains part cs"

definition ecu_key :: "string \<Rightarrow> string result" where
  "ecu_key name =
     (let normalized = lower name; first = takeWhile (\<lambda>c. \<not> is_space c) (dropWhile is_space normalized) in
      if contains ''gateway'' normalized then Inr ''gateway''
      else if contains ''cluster'' normalized then Inr ''cluster''
      else if contains ''bcm'' normalized then Inr ''bcm''
      else if first = [] then Inl IndexError else Inr first)"

record status_report =
  sr_ecu :: string
  sr_status :: string
  sr_version :: string
  sr_error :: "string option"

record post_install =
  pi_ecus :: "string \<Rightarrow> ECU_Boot.ecu"
  pi_all_updated :: bool
  pi_validated :: "string list"
  pi_reports :: "status_report list"

definition on_ecu_files :: "string \<Rightarrow> ECU_Boot.ecu op \<Rightarrow> post_install op" where
  "on_ecu_files key f s = (let (r, e) = f (pi_ecus s key) in (r, s\<lparr>pi_ecus := (pi_ecus s)(key := e)\<rparr>))"

definition post_report :: "string \<Rightarrow> string \<Rightarrow> string \<Rightarrow> string option \<Rightarrow> post_install op" where
  "post_report n status version err s =
     (None, s\<lparr>pi_reports := pi_reports s @
        [\<lparr>sr_ecu = n, sr_status = status, sr_version = version, sr_error = err\<rparr>]\<rparr>)"

definition not_updated :: "post_install op" where
  "not_updated s = (None, s\<lparr>pi_all_updated := False\<rparr>)"

definition validation_reason :: string where
  "validation_reason = ''POST_INSTALL_VALIDATION_FAILED''"

definition commit_ecu :: "string \<Rightarrow> string \<Rightarrow> string \<Rightarrow> post_install op" where
  "commit_ecu key n actual =
     run_steps [on_ecu_files key (on_version (confirm_version actual)), on_ecu_files key (on_slots commit_pending),
       post_report n ''SUCCESS'' actual None]"

definition roll_back_ecu :: "string \<Rightarrow> string \<Rightarrow> post_install op" where
  "roll_back_ecu key n =
     run_steps [on_ecu_files key (on_version (\<lambda>f. (None, rollback_pending_version validation_reason f))),
       on_ecu_files key (on_slots (rollback_pending validation_reason)),
       \<lambda>s. post_report n ''ROLLBACK'' (get_current_version (ecu_version (pi_ecus s key))) (Some validation_reason) s]"

definition validate_ecu_version ::
    "(string \<times> string) list \<Rightarrow> vehicle \<Rightarrow> string \<Rightarrow> post_install op" where
  "validate_ecu_version targets vehicle n s =
     (case map_of targets n of
        None \<Rightarrow> (None, s)
      | Some expected \<Rightarrow>
          (case discovered vehicle n of
             None \<Rightarrow>
               run_steps [not_updated,
                 post_report n ''FAILED'' ''UNKNOWN'' (Some ''POST_INSTALL_VALIDATION_MISSING_ECU'')] s
           | Some e \<Rightarrow>
               (case bindE (version_eq (VersionText (ecu_current_version e)) (VersionText expected))
                       (\<lambda>passed. bindE (ecu_key n) (\<lambda>key. Inr (passed, key))) of
                  Inl err \<Rightarrow> (Some err, s)
                | Inr (passed, key) \<Rightarrow>
                    run_steps
                      [\<lambda>s. (None, s\<lparr>pi_validated := pi_validated s @ [n]\<rparr>),
                       if has_pending_commit (ecu_version (pi_ecus s key))
                       then if passed then commit_ecu key n (ecu_current_version e) else roll_back_ecu key n
                       else (\<lambda>s. (None, s)),
                       if passed then (\<lambda>s. (None, s)) else not_updated] s)))"

text \<open>\<open>validate\<close>: it returns \<open>pi_all_updated\<close> where it does not raise.\<close>

definition validate_installation ::
    "campaign \<Rightarrow> clock \<Rightarrow> vehicle result \<Rightarrow> (clock \<times> vehicle result) list \<Rightarrow> post_install op" where
  "validate_installation camp deadline first rest s =
     (let targets = target_versions camp in
      case wait_for_expected_versions targets deadline first rest of
        Inl err \<Rightarrow> (Some err, s)
      | Inr vehicle \<Rightarrow>
          run_steps (map (validate_ecu_version targets vehicle) (sort (remdups (validation_names camp))))
            (s\<lparr>pi_all_updated := True\<rparr>))"

section \<open>ECUs that are not on trial\<close>

definition off_trial :: "ECU_Boot.ecu \<Rightarrow> bool" where
  "off_trial e \<longleftrightarrow> \<not> has_pending_commit (ecu_version e) \<and> pending_slot (ecu_slots e) = None \<and>
     active_slot (ecu_slots e) = confirmed_slot (ecu_slots e) \<and>
     get_current_version (ecu_version e) = get_confirmed_version (ecu_version e)"

definition sound_files :: "ECU_Boot.ecu \<Rightarrow> bool" where
  "sound_files e \<longleftrightarrow> off_trial e \<or> has_pending_commit (ecu_version e)"

lemma commit_settles:
  assumes "on_version (confirm_version v) e = (None, e1)" and "on_slots commit_pending e1 = (r, e2)"
  shows "off_trial e2 \<and> get_current_version (ecu_version e2) = get_confirmed_version (ecu_version e2)"
  using assms commit_pending_state [of "ecu_slots e1"]
  by (auto simp: off_trial_def on_version_def on_slots_def confirm_version_def has_pending_commit_def
      get_current_version_def get_confirmed_version_def pending_slot_def active_slot_def confirmed_slot_def
      Let_def split: sum.splits prod.splits)

lemma rollback_settles:
  assumes "on_version (\<lambda>f. (None, rollback_pending_version reason f)) e = (None, e1)"
    and "on_slots (rollback_pending reason) e1 = (r, e2)"
  shows "off_trial e2 \<and> get_current_version (ecu_version e2) = get_confirmed_version (ecu_version e)"
  using assms rollback_pending_state [of reason "ecu_slots e1"]
  by (auto simp: off_trial_def on_version_def on_slots_def rollback_pending_version_def has_pending_commit_def
      get_current_version_def get_confirmed_version_def pending_slot_def active_slot_def confirmed_slot_def
      Let_def split: prod.splits)

lemma run_steps_Cons_None:
  "run_steps (f # fs) s = (None, s'') \<longleftrightarrow> (\<exists>s'. f s = (None, s') \<and> run_steps fs s' = (None, s''))"
  by (auto simp: run_steps.simps split: prod.splits option.splits)

lemma on_ecu_files_None:
  "on_ecu_files key f s = (None, s') \<longleftrightarrow>
     (\<exists>e. f (pi_ecus s key) = (None, e) \<and> s' = s\<lparr>pi_ecus := (pi_ecus s)(key := e)\<rparr>)"
  by (auto simp: on_ecu_files_def split: prod.splits)

lemma commit_ecu_effect:
  assumes "commit_ecu key n v s = (None, s')"
  shows "off_trial (pi_ecus s' key)" and "\<And>k. k \<noteq> key \<Longrightarrow> pi_ecus s' k = pi_ecus s k"
    and "pi_all_updated s' = pi_all_updated s"
  using assms commit_settles
  by (auto simp: commit_ecu_def run_steps_Cons_None on_ecu_files_None post_report_def)

lemma roll_back_ecu_effect:
  assumes "roll_back_ecu key n s = (None, s')"
  shows "off_trial (pi_ecus s' key)" and "\<And>k. k \<noteq> key \<Longrightarrow> pi_ecus s' k = pi_ecus s k"
    and "pi_all_updated s' = pi_all_updated s"
    and "get_current_version (ecu_version (pi_ecus s' key)) = get_confirmed_version (ecu_version (pi_ecus s key))"
  using assms rollback_settles
  by (auto simp: roll_back_ecu_def run_steps_Cons_None on_ecu_files_None post_report_def)

lemma validate_ecu_version_effect:
  assumes "validate_ecu_version targets vehicle n s = (None, s')"
  obtains (untargeted) "map_of targets n = None" and "s' = s"
  | (missing) "discovered vehicle n = None" and "pi_ecus s' = pi_ecus s" and "\<not> pi_all_updated s'"
  | (found) expected e key passed where "map_of targets n = Some expected" and "discovered vehicle n = Some e"
      and "version_eq (VersionText (ecu_current_version e)) (VersionText expected) = Inr passed"
      and "ecu_key n = Inr key" and "pi_all_updated s' = (pi_all_updated s \<and> passed)"
      and "\<And>k. k \<noteq> key \<Longrightarrow> pi_ecus s' k = pi_ecus s k"
      and "has_pending_commit (ecu_version (pi_ecus s key)) \<longrightarrow> off_trial (pi_ecus s' key)"
      and "\<not> has_pending_commit (ecu_version (pi_ecus s key)) \<longrightarrow> pi_ecus s' key = pi_ecus s key"
      and "has_pending_commit (ecu_version (pi_ecus s key)) \<and> \<not> passed \<longrightarrow>
        get_current_version (ecu_version (pi_ecus s' key)) = get_confirmed_version (ecu_version (pi_ecus s key))"
proof (cases "map_of targets n")
  case None
  then show ?thesis using assms by (intro untargeted) (simp_all add: validate_ecu_version_def)
next
  case (Some expected)
  show ?thesis
  proof (cases "discovered vehicle n")
    case None
    then show ?thesis using assms \<open>map_of targets n = Some expected\<close>
      by (intro missing) (auto simp: validate_ecu_version_def run_steps_Cons_None not_updated_def post_report_def)
  next
    case (Some e)
    obtain passed key where eq: "version_eq (VersionText (ecu_current_version e)) (VersionText expected) = Inr passed"
      and key: "ecu_key n = Inr key"
      using assms Some \<open>map_of targets n = Some expected\<close>
      by (auto simp: validate_ecu_version_def bindE_Inr_iff split: sum.splits)
    let ?t = "s\<lparr>pi_validated := pi_validated s @ [n]\<rparr>"
    obtain u where act: "(if has_pending_commit (ecu_version (pi_ecus s key))
        then if passed then commit_ecu key n (ecu_current_version e) else roll_back_ecu key n
        else (\<lambda>s. (None, s))) ?t = (None, u)"
      and fin: "(if passed then (\<lambda>s. (None, s)) else not_updated) u = (None, s')"
      using assms Some \<open>map_of targets n = Some expected\<close> eq key
      by (auto simp: validate_ecu_version_def run_steps_Cons_None)
    have fin': "pi_ecus s' = pi_ecus u" "pi_all_updated s' = (pi_all_updated u \<and> passed)"
      using fin by (auto simp: not_updated_def split: if_splits)
    show ?thesis
    proof (cases "has_pending_commit (ecu_version (pi_ecus s key))")
      case False
      then have "u = ?t" using act by simp
      then show ?thesis using False fin' by (intro found [OF \<open>map_of targets n = Some expected\<close> Some eq key]) auto
    next
      case pending: True
      show ?thesis
      proof (cases passed)
        case True
        with act pending have c: "commit_ecu key n (ecu_current_version e) ?t = (None, u)" by simp
        show ?thesis
          using commit_ecu_effect [OF c] pending True fin'
          by (intro found [OF \<open>map_of targets n = Some expected\<close> Some eq key]) auto
      next
        case False
        with act pending have c: "roll_back_ecu key n ?t = (None, u)" by simp
        show ?thesis
          using roll_back_ecu_effect [OF c] pending False fin'
          by (intro found [OF \<open>map_of targets n = Some expected\<close> Some eq key]) auto
      qed
    qed
  qed
qed

section \<open>After the validation\<close>

lemma validate_ecu_version_keeps:
  assumes "validate_ecu_version targets vehicle n s = (None, s')" and "\<forall>k. sound_files (pi_ecus s k)"
  shows "(\<forall>k. sound_files (pi_ecus s' k)) \<and> (off_trial (pi_ecus s k) \<longrightarrow> off_trial (pi_ecus s' k)) \<and>
    (pi_all_updated s' \<longrightarrow> pi_all_updated s)"
  using assms(1)
proof (cases rule: validate_ecu_version_effect)
  case (found expected e key passed)
  have key: "off_trial (pi_ecus s' key)"
    using found(7,8) assms(2) by (metis sound_files_def)
  have "off_trial (pi_ecus s k) \<longrightarrow> off_trial (pi_ecus s' k)" for k
    using key found(6) by (cases "k = key") auto
  moreover have "sound_files (pi_ecus s' k)" for k
    using key found(6) assms(2) by (cases "k = key") (auto simp: sound_files_def)
  ultimately show ?thesis using found(5) by simp
qed (use assms(2) in auto)

lemma validate_all_effect:
  assumes "run_steps (map (validate_ecu_version targets vehicle) ns) s = (None, s')"
    and "\<forall>k. sound_files (pi_ecus s k)"
  shows "(\<forall>k. off_trial (pi_ecus s k) \<longrightarrow> off_trial (pi_ecus s' k)) \<and>
    (pi_all_updated s' \<longrightarrow> pi_all_updated s) \<and>
    (\<forall>n \<in> set ns. map_of targets n \<noteq> None \<longrightarrow>
       (\<forall>e. discovered vehicle n = Some e \<longrightarrow> (\<exists>key. ecu_key n = Inr key \<and> off_trial (pi_ecus s' key))) \<and>
       (pi_all_updated s' \<longrightarrow> (\<exists>e expected. map_of targets n = Some expected \<and> discovered vehicle n = Some e \<and>
          version_eq (VersionText (ecu_current_version e)) (VersionText expected) = Inr True)))"
  using assms
proof (induction ns arbitrary: s)
  case Nil
  then show ?case by simp
next
  case (Cons n ns)
  obtain u where step: "validate_ecu_version targets vehicle n s = (None, u)"
    and rest: "run_steps (map (validate_ecu_version targets vehicle) ns) u = (None, s')"
    using Cons.prems(1) by (auto simp: run_steps_Cons_None)
  note keep = validate_ecu_version_keeps [OF step Cons.prems(2)]
  have IH: "(\<forall>k. off_trial (pi_ecus u k) \<longrightarrow> off_trial (pi_ecus s' k)) \<and> (pi_all_updated s' \<longrightarrow> pi_all_updated u)"
    using Cons.IH [OF rest] keep by blast
  have "(\<forall>e. discovered vehicle n = Some e \<longrightarrow> (\<exists>key. ecu_key n = Inr key \<and> off_trial (pi_ecus s' key))) \<and>
       (pi_all_updated s' \<longrightarrow> (\<exists>e expected. map_of targets n = Some expected \<and> discovered vehicle n = Some e \<and>
          version_eq (VersionText (ecu_current_version e)) (VersionText expected) = Inr True))"
    if "map_of targets n \<noteq> None"
    using step
  proof (cases rule: validate_ecu_version_effect)
    case untargeted
    then show ?thesis using that by simp
  next
    case missing
    then show ?thesis using IH by simp
  next
    case (found expected e key passed)
    have "off_trial (pi_ecus u key)" using found(7,8) Cons.prems(2) by (metis sound_files_def)
    then show ?thesis using found(1-5) IH by auto
  qed
  then show ?case using Cons.IH [OF rest] keep IH by auto
qed

lemma validation_result:
  assumes "validate_installation camp deadline first rest s = (None, s')"
    and "\<forall>k. sound_files (pi_ecus s k)"
  shows "\<exists>vehicle. wait_for_expected_versions (target_versions camp) deadline first rest = Inr vehicle \<and>
    (\<forall>n \<in> set (validation_names camp). map_of (target_versions camp) n \<noteq> None \<longrightarrow>
      (\<forall>e. discovered vehicle n = Some e \<longrightarrow> (\<exists>key. ecu_key n = Inr key \<and> off_trial (pi_ecus s' key))) \<and>
      (pi_all_updated s' \<longrightarrow> (\<exists>e expected. map_of (target_versions camp) n = Some expected \<and>
        discovered vehicle n = Some e \<and>
        version_eq (VersionText (ecu_current_version e)) (VersionText expected) = Inr True)))"
proof -
  obtain vehicle where wait: "wait_for_expected_versions (target_versions camp) deadline first rest = Inr vehicle"
    and run: "run_steps (map (validate_ecu_version (target_versions camp) vehicle)
      (sort (remdups (validation_names camp)))) (s\<lparr>pi_all_updated := True\<rparr>) = (None, s')"
    using assms(1) by (auto simp: validate_installation_def Let_def split: sum.splits)
  have "\<forall>k. sound_files (pi_ecus (s\<lparr>pi_all_updated := True\<rparr>) k)" using assms(2) by simp
  from validate_all_effect [OF run this] wait show ?thesis by auto
qed


section \<open>Demonstration\<close>

definition demo_trial_ecu :: ECU_Boot.ecu where
  "demo_trial_ecu =
     \<lparr>ecu_downloads = (\<lambda>_. None), ecu_installed = (\<lambda>_. None),
      ecu_slots = \<lparr>slot_state_file = Some (default_slot_state\<lparr>st_active_slot := SLOT_B, st_pending_slot := Some SLOT_B\<rparr>),
        slot_dirs = slot_dirs demo_disk\<rparr>,
      ecu_version = Some (default_version_state\<lparr>vs_current_version := ''2.0.0'', vs_pending_version := ''2.0.0'',
        vs_pending_slot := Some SLOT_B, vs_active_slot := SLOT_B, vs_pending_commit := True\<rparr>),
      ecu_info = new_ecu_state ''BCM ECU'' ''2.0.0''\<rparr>"

definition demo_post_install :: post_install where
  "demo_post_install = \<lparr>pi_ecus = (\<lambda>_. demo_trial_ecu), pi_all_updated = False, pi_validated = [], pi_reports = []\<rparr>"

definition demo_post_campaign :: campaign where
  "demo_post_campaign = (demo_campaign [])\<lparr>cg_targets := [demo_target ''BCM ECU'']\<rparr>"

lemma demo_post_targets:
  "target_versions demo_post_campaign = [(''BCM ECU'', ''2.0.0'')]"
  "validation_names demo_post_campaign = [''BCM ECU'']"
  by (simp_all add: target_versions_def validation_names_def demo_post_campaign_def demo_campaign_def
      demo_target_def dict_of_def)

lemma demo_post_discovered:
  "discovered [demo_vehicle_ecu 0x202 ''BCM ECU'' ''2.0.0''] ''BCM ECU'' =
     Some (demo_vehicle_ecu 0x202 ''BCM ECU'' ''2.0.0'')"
  by (simp add: discovered_def dict_of_def demo_vehicle_ecu_def)

lemma demo_same_version: "version_eq (VersionText ''2.0.0'') (VersionText ''2.0.0'') = Inr True"
  by code_simp

lemma demo_ecu_key: "ecu_key ''BCM ECU'' = Inr ''bcm''"
  by code_simp

lemma demo_normalized: "normalize_version (VersionText ''2.0.0'') = Inr ''2.0.0''"
  by code_simp

lemma demo_post_run:
  "fst (validate_installation demo_post_campaign 45 (Inr [demo_vehicle_ecu 0x202 ''BCM ECU'' ''2.0.0'']) []
     demo_post_install) = None"
proof -
  have pending: "has_pending_commit (ecu_version demo_trial_ecu)"
    by (simp add: demo_trial_ecu_def has_pending_commit_def)
  have total: "fst (commit_pending (ecu_slots demo_trial_ecu)) = None"
    using demo_disk_ok by (intro commit_pending_total) (simp add: demo_trial_ecu_def layouts_ok_def)
  have version: "ecu_current_version (demo_vehicle_ecu 0x202 ''BCM ECU'' ''2.0.0'') = ''2.0.0''"
    by (simp add: demo_vehicle_ecu_def)
  have confirm: "fst (confirm_version ''2.0.0'' f) = None" for f
    by (simp add: confirm_version_def demo_normalized Let_def)
  show ?thesis
    using pending total confirm
    by (simp add: validate_installation_def demo_post_targets demo_post_discovered version demo_same_version
        validate_ecu_version_def demo_ecu_key demo_post_install_def run_steps.simps commit_ecu_def
        on_ecu_files_def on_version_def on_slots_def post_report_def split_beta split: option.split)
qed


end
