(* ===== verification/OTA_Manager.thy ===== *)
theory OTA_Manager
  imports Campaign_Checks Post_Install Update_Scheduler
begin

text \<open>
  The update manager of the TCU from the campaign to the verdict: \<open>main\<close> of \<open>tcu/main.py\<close>, with
  \<open>tcu/campaign_manager.py\<close>, \<open>tcu/firmware_manifest.py\<close>, the job bookkeeping of
  \<open>tcu/mqtt_campaign_state.py\<close> and the campaign part of \<open>tcu/cloud_client.py\<close>.

  \<open>ota_main\<close> composes the checks, the planner, the scheduler and the validator of the other theories
  in the order of the code. A run ends with what \<open>finalize\<close> writes, or with an exception that leaves
  \<open>main\<close>. What lies outside is in \<open>manager_env\<close>: environment variables, the user's input, what the
  network delivers, the discovery of the vehicle, and what the ECUs make of what was sent to them.
  Files of a release are \<open>mg_files s directory name\<close>; downloads and flashing use the fixed
  directory of release 2.0.0, the checks that of the campaign's release. The quiet mode, which only
  changes what is printed, is left out.
\<close>

section \<open>State and results\<close>

record manifest =
  mf_release_version :: string
  mf_packages :: "package list"

record manager_env =
  me_topology :: topology
  me_scenario_consistent :: bool
  me_transport :: string
  me_transport_input :: string
  me_cloud :: string
  me_cloud_input :: string
  me_publish :: "unit result"
  me_mqtt_campaign :: "json result"
  me_campaign_url_override :: string
  me_base_url :: string
  me_get_campaign :: "string \<Rightarrow> json result"
  me_discover :: "string \<Rightarrow> vehicle result"
  me_expected_versions :: "json option"
  me_offline_ecus :: string
  me_runtime_control :: "string \<Rightarrow> json option"
  me_manifest :: "string \<Rightarrow> manifest option"
  me_trust_files :: "string \<Rightarrow> string \<Rightarrow> json option"
  me_now :: clock
  me_timestamp :: "string \<Rightarrow> clock result"
  me_get_firmware :: "string \<Rightarrow> bytes result"
  me_send :: "string \<Rightarrow> nat \<Rightarrow> bool"
  me_flash_retry_count :: nat
  me_ecus_after :: "scheduler \<Rightarrow> (string \<Rightarrow> ECU_Boot.ecu) \<Rightarrow> string \<Rightarrow> ECU_Boot.ecu"
  me_deadline :: clock
  me_first_discovery :: "vehicle result"
  me_later_discoveries :: "(clock \<times> vehicle result) list"

record manager =
  mg_jobs :: "(string \<times> string) list"
  mg_current_job :: "json option"
  mg_trust :: trust_state
  mg_files :: "string \<Rightarrow> string \<Rightarrow> bytes option"
  mg_ecus :: "string \<Rightarrow> ECU_Boot.ecu"
  mg_reports :: "status_report list"

datatype verdict = Finalized string string "(string \<times> ecu_result) list" | Raised py_error

text \<open>A step of \<open>main\<close>: it ends the run with a verdict or goes on with a value.\<close>

type_synonym 'a run = "manager \<Rightarrow> (verdict + 'a) \<times> manager"

definition bindM :: "'a run \<Rightarrow> ('a \<Rightarrow> 'b run) \<Rightarrow> 'b run" where
  "bindM m f s = (case m s of (Inl v, s') \<Rightarrow> (Inl v, s') | (Inr a, s') \<Rightarrow> f a s')"

definition returnM :: "'a \<Rightarrow> 'a run" where
  "returnM a s = (Inr a, s)"

definition lift :: "'a result \<Rightarrow> 'a run" where
  "lift r s = (case r of Inl e \<Rightarrow> (Inl (Raised e), s) | Inr a \<Rightarrow> (Inr a, s))"

section \<open>Jobs\<close>

definition js_truthy :: "json \<Rightarrow> bool" where
  "js_truthy v = (case v of JsNull \<Rightarrow> False | JsBool b \<Rightarrow> b | JsInt n \<Rightarrow> n \<noteq> 0 | JsStr s \<Rightarrow> s \<noteq> []
     | JsArr xs \<Rightarrow> xs \<noteq> [] | JsObj kvs \<Rightarrow> kvs \<noteq> [])"

definition job_ids :: "json \<Rightarrow> (string \<times> string) result" where
  "job_ids payload =
     bindE (js_get_or payload ''campaign_id'' (JsStr ''UNKNOWN'')) (\<lambda>c. bindE (js_str c) (\<lambda>campaign_id.
     bindE (js_get_or payload ''job_id'' (JsStr campaign_id)) (\<lambda>j. bindE (js_str j) (\<lambda>job_id.
       Inr (job_id, campaign_id)))))"

definition job_completed :: "string \<Rightarrow> manager \<Rightarrow> bool" where
  "job_completed job_id s \<longleftrightarrow> map_of (mg_jobs s) job_id = Some ''COMPLETED''"

definition record_job :: "string \<Rightarrow> string \<Rightarrow> manager \<Rightarrow> manager" where
  "record_job job_id status s = s\<lparr>mg_jobs := AList.update job_id status (mg_jobs s)\<rparr>"

definition mark_current_job :: "string \<Rightarrow> manager \<Rightarrow> manager" where
  "mark_current_job status s =
     (case mg_current_job s of
        None \<Rightarrow> s
      | Some payload \<Rightarrow>
          if \<not> js_truthy payload then s
          else case job_ids payload of Inl _ \<Rightarrow> s | Inr (job_id, _) \<Rightarrow> record_job job_id status s)"

definition finalize_failed :: "string \<Rightarrow> 'a run" where
  "finalize_failed reason s = (Inl (Finalized ''FAILED'' reason []), s)"

definition abort_campaign :: "string \<Rightarrow> (string \<times> ecu_result) list \<Rightarrow> 'a run" where
  "abort_campaign reason results s = (Inl (Finalized ''FAILED'' reason results), mark_current_job ''FAILED'' s)"

definition require :: "bool \<Rightarrow> string \<Rightarrow> unit run" where
  "require c reason = (if c then returnM () else abort_campaign reason [])"

section \<open>Selecting transport and cloud link\<close>

definition select_transport :: "manager_env \<Rightarrow> string option" where
  "select_transport env =
     (let configured = lower (strip_space (me_transport env));
          choice = (if configured \<noteq> []
            then (case map_of [(''vcan'', ''1''), (''can'', ''1''), (''doip'', ''2'')] configured of
                    Some c \<Rightarrow> c | None \<Rightarrow> [])
            else strip_space (me_transport_input env))
      in if choice = ''1'' then Some ''VCAN'' else if choice = ''2'' then Some ''DOIP'' else None)"

definition uses_mqtt :: "manager_env \<Rightarrow> bool" where
  "uses_mqtt env =
     (let configured = lower (strip_space (me_cloud env));
          choice = (if configured \<noteq> []
            then (case map_of [(''http'', ''1''), (''https'', ''1''), (''http_poll'', ''1''), (''https_poll'', ''1''),
                    (''poll'', ''1''), (''mqtt'', ''2''), (''mqtt_notify'', ''2''), (''notify'', ''2'')] configured of
                    Some c \<Rightarrow> c | None \<Rightarrow> [])
            else strip_space (me_cloud_input env))
      in choice = ''2'')"

section \<open>The campaign\<close>

definition download_campaign :: "manager_env \<Rightarrow> json result" where
  "download_campaign env =
     (if me_campaign_url_override env \<noteq> [] then me_get_campaign env (me_campaign_url_override env)
      else me_get_campaign env (rstrip (CHR ''/'') (me_base_url env) @ ''/campaign/latest''))"

definition campaign_url :: "json \<Rightarrow> string result" where
  "campaign_url payload =
     bindE (js_get_or payload ''document'' (JsObj [])) (\<lambda>document.
     bindE (js_get_or document ''campaign_url'' JsNull) (\<lambda>a.
     bindE (js_get_or payload ''download_url'' JsNull) (\<lambda>b.
       let url = (if js_truthy a then a else b) in
       if \<not> js_truthy url then Inl (RuntimeError ''MQTT campaign payload missing download_url'')
       else js_str url)))"

datatype mqtt_outcome = Downloaded json | DuplicateJob | Unavailable py_error

definition download_campaign_from_mqtt :: "manager_env \<Rightarrow> manager \<Rightarrow> mqtt_outcome \<times> manager" where
  "download_campaign_from_mqtt env s =
     (case bindE (me_mqtt_campaign env) (\<lambda>payload. bindE (job_ids payload) (\<lambda>ids. Inr (payload, ids))) of
        Inl e \<Rightarrow> (Unavailable e, s)
      | Inr (payload, job_id, _) \<Rightarrow>
          if job_completed job_id s then (DuplicateJob, s)
          else
            let s = (record_job job_id ''RECEIVED'' s)\<lparr>mg_current_job := Some payload\<rparr> in
            case campaign_url payload of
              Inl e \<Rightarrow> (Unavailable e, s)
            | Inr url \<Rightarrow>
                let s = record_job job_id ''PROCESSING'' s in
                (case me_get_campaign env url of Inl e \<Rightarrow> (Unavailable e, s) | Inr c \<Rightarrow> (Downloaded c, s)))"

definition obtain_campaign :: "manager_env \<Rightarrow> json run" where
  "obtain_campaign env s =
     (if \<not> uses_mqtt env then lift (download_campaign env) s
      else case me_publish env of
        Inl _ \<Rightarrow> lift (download_campaign env) s
      | Inr _ \<Rightarrow>
          (case download_campaign_from_mqtt env s of
             (DuplicateJob, s) \<Rightarrow> finalize_failed ''DUPLICATE_MQTT_JOB'' s
           | (Unavailable _, s) \<Rightarrow> lift (download_campaign env) s
           | (Downloaded c, s) \<Rightarrow> (Inr c, s)))"

text \<open>\<open>load_campaign\<close>, for files whose values have the declared types.\<close>

fun js_bool :: "json \<Rightarrow> bool result" where
  "js_bool (JsBool b) = Inr b"
| "js_bool _ = Inl TypeError"

definition text_field :: "json \<Rightarrow> string \<Rightarrow> string result" where
  "text_field v k = bindE (js_get v k) js_str"

definition mapE :: "('a \<Rightarrow> 'b result) \<Rightarrow> 'a list \<Rightarrow> 'b list result" where
  "mapE f xs = forE xs (\<lambda>x ys. bindE (f x) (\<lambda>y. Inr (ys @ [y]))) []"

definition load_target :: "json \<Rightarrow> campaign_target result" where
  "load_target item =
     bindE (text_field item ''ecu_name'') (\<lambda>name.
     bindE (text_field item ''target_version'') (\<lambda>version.
     bindE (text_field item ''minimum_supported_version'') (\<lambda>minimum.
     bindE (text_field item ''hardware_variant'') (\<lambda>variant.
     bindE (text_field item ''minimum_bootloader'') (\<lambda>bootloader.
     bindE (bindE (js_get item ''mandatory'') js_bool) (\<lambda>mandatory.
     bindE (bindE (js_get item ''priority'') js_num) (\<lambda>priority.
     bindE (js_get item ''requires_reboot'') (\<lambda>_.
     bindE (bindE (js_get_or item ''skip_if_unavailable'' (JsBool False)) js_bool) (\<lambda>unavailable.
     bindE (bindE (js_get_or item ''skip_if_incompatible'' (JsBool False)) js_bool) (\<lambda>incompatible.
       Inr \<lparr>ct_ecu_name = name, ct_target_version = version, ct_minimum_supported_version = minimum,
            ct_hardware_variant = variant, ct_minimum_bootloader = bootloader, ct_mandatory = mandatory,
            ct_priority = priority, ct_skip_if_unavailable = unavailable,
            ct_skip_if_incompatible = incompatible\<rparr>))))))))))"

definition load_override :: "string \<times> json \<Rightarrow> (string \<times> string list) result" where
  "load_override entry =
     bindE (js_list (snd entry)) (\<lambda>ds. bindE (mapE js_str ds) (\<lambda>names. Inr (fst entry, names)))"

definition load_campaign :: "json \<Rightarrow> campaign result" where
  "load_campaign data =
     bindE (bindE (js_get data ''targets'') js_list) (\<lambda>items.
     bindE (mapE load_target items) (\<lambda>targets.
     bindE (text_field data ''campaign_id'') (\<lambda>campaign_id.
     bindE (text_field data ''vehicle_model'') (\<lambda>vehicle_model.
     bindE (text_field data ''release_version'') (\<lambda>release_version.
     bindE (js_get data ''priority'') (\<lambda>_.
     bindE (text_field data ''transport'') (\<lambda>transport.
     bindE (js_get data ''rollback_enabled'') (\<lambda>_.
     bindE (js_get data ''created_by'') (\<lambda>_.
     bindE (bindE (js_get_or data ''dependency_overrides'' (JsObj [])) js_items) (\<lambda>entries.
     bindE (mapE load_override entries) (\<lambda>overrides.
       Inr \<lparr>cg_campaign_id = campaign_id, cg_vehicle_model = vehicle_model,
            cg_release_version = release_version, cg_transport = transport, cg_targets = targets,
            cg_dependency_overrides = overrides, cg_approved_targets = [],
            cg_skipped_optional_targets = []\<rparr>)))))))))))"

section \<open>Expected versions\<close>

text \<open>\<open>s.replace(" ecu", "")\<close>.\<close>

fun without_ecu_suffix :: "string \<Rightarrow> string" where
  "without_ecu_suffix [] = []"
| "without_ecu_suffix (c # cs) =
     (if take 4 (c # cs) = '' ecu'' then without_ecu_suffix (drop 3 cs) else c # without_ecu_suffix cs)"

definition control_flag :: "json option \<Rightarrow> string \<Rightarrow> bool" where
  "control_flag data key =
     (case data of
        Some (JsObj kvs) \<Rightarrow> (case map_of kvs key of Some v \<Rightarrow> js_truthy v | None \<Rightarrow> True)
      | _ \<Rightarrow> True)"

definition offline_mismatch_allowed :: "manager_env \<Rightarrow> string \<Rightarrow> string list \<Rightarrow> bool" where
  "offline_mismatch_allowed env n configured_offline =
     (if n \<in> set configured_offline then True
      else let key = without_ecu_suffix (lower (strip_space n)); control = me_runtime_control env key in
        key \<noteq> [] \<and> (\<not> control_flag control ''heartbeat_enabled'' \<or> \<not> control_flag control ''diagnostics_enabled''))"

definition expected_ecu_versions_hold :: "manager_env \<Rightarrow> vehicle \<Rightarrow> bool result" where
  "expected_ecu_versions_hold env vehicle =
     (case me_expected_versions env of
        None \<Rightarrow> Inr True
      | Some expected \<Rightarrow>
          if \<not> js_truthy expected then Inr True
          else bindE (js_items expected) (\<lambda>items.
            let offline = filter (\<lambda>v. v \<noteq> []) (map strip_space (split_commas (me_offline_ecus env))) in
            Inr (\<forall>(n, version) \<in> set items.
              case discovered vehicle n of
                None \<Rightarrow> offline_mismatch_allowed env n offline
              | Some e \<Rightarrow> version = JsStr (ecu_current_version e))))"

section \<open>The firmware of a release\<close>

definition flash_directory :: string where
  "flash_directory = ''2.0.0''"

definition trust_env_of :: "manager_env \<Rightarrow> string \<Rightarrow> manager \<Rightarrow> trust_env" where
  "trust_env_of env release_version s =
     \<lparr>tr_files = me_trust_files env release_version, tr_artifacts = mg_files s release_version,
      tr_now = me_now env, tr_timestamp = me_timestamp env\<rparr>"

definition load_manifest :: "manager_env \<Rightarrow> string \<Rightarrow> (manifest \<times> (string \<times> trusted_target) list) run" where
  "load_manifest env release_version s =
     (case me_manifest env release_version of
        None \<Rightarrow> lift (Inl (FileNotFoundError ''Manifest not found'')) s
      | Some m \<Rightarrow>
          (case verify_release (trust_env_of env release_version s) (mg_trust s) of
             Inl e \<Rightarrow> (Inl (Raised e), s)
           | Inr (trusted, trust) \<Rightarrow> (Inr (m, trusted), s\<lparr>mg_trust := trust\<rparr>)))"

definition check_firmware :: "manager_env \<Rightarrow> campaign \<Rightarrow> vehicle \<Rightarrow> bool \<Rightarrow> string list \<Rightarrow> update_entry list run" where
  "check_firmware env camp vehicle require_downloaded names =
     bindM (load_manifest env (cg_release_version camp)) (\<lambda>(m, trusted) s.
       lift (validate_firmware
         \<lparr>fc_packages = mf_packages m, fc_trusted = trusted,
          fc_read = mg_files s (mf_release_version m), fc_require_downloaded = require_downloaded,
          fc_target_names = names\<rparr> camp vehicle) s)"

text \<open>\<open>_selected_update_names\<close>, and the download of their files.\<close>

definition selected_update_names :: "update_plan \<Rightarrow> string list" where
  "selected_update_names p =
     filter (\<lambda>n. n \<in> set (up_update_order p)) (names_with (\<lambda>c. c = Eligible) (up_classifications p))"

fun download_files :: "manager_env \<Rightarrow> json list \<Rightarrow> unit run" where
  "download_files env [] s = (Inr (), s)"
| "download_files env (target # targets) s =
     (case bindE (text_field target ''firmware_file'')
             (\<lambda>filename. bindE (me_get_firmware env filename) (\<lambda>content. Inr (filename, content))) of
        Inl e \<Rightarrow> (Inl (Raised e), s)
      | Inr (filename, content) \<Rightarrow>
          download_files env targets
            (s\<lparr>mg_files := (mg_files s)(flash_directory := (mg_files s flash_directory)(filename \<mapsto> content))\<rparr>))"

definition download_firmware :: "manager_env \<Rightarrow> json \<Rightarrow> string list \<Rightarrow> unit run" where
  "download_firmware env campaign_data names =
     bindM (lift (bindE (bindE (js_get campaign_data ''targets'') js_list) (\<lambda>targets.
       let wanted = filter (\<lambda>n. strip_space n \<noteq> []) names in
       bindE (mapE (\<lambda>t. bindE (js_get_or t ''ecu_name'' (JsStr [])) (\<lambda>n. bindE (js_str n) (\<lambda>n. Inr (strip_space n, t)))) targets)
         (\<lambda>named. Inr (map snd (filter (\<lambda>(n, _). wanted = [] \<or> n \<in> set wanted) named))))))
       (download_files env)"

definition build_inventory :: "manager_env \<Rightarrow> string list \<Rightarrow> unit run" where
  "build_inventory env names s =
     (case me_manifest env flash_directory of
        None \<Rightarrow> lift (Inl (FileNotFoundError ''Manifest not found'')) s
      | Some m \<Rightarrow>
          lift (guardE (\<forall>p \<in> set (selected_packages (mf_packages m) names). mg_files s flash_directory (pk_file p) \<noteq> None)
            (FileNotFoundError ''firmware'')) s)"

section \<open>Execution and validation\<close>

definition scheduler_env_of ::
    "manager_env \<Rightarrow> vehicle \<Rightarrow> update_plan \<Rightarrow> update_entry list \<Rightarrow> manifest \<Rightarrow> manager \<Rightarrow> scheduler_env" where
  "scheduler_env_of env vehicle p entries m s =
     \<lparr>sn_topology = me_topology env, sn_entries = map (\<lambda>u. (ue_ecu u, ue_package u)) entries,
      sn_packages = mf_packages m, sn_exists = (\<lambda>f. mg_files s flash_directory f \<noteq> None),
      sn_discovered = map ecu_name vehicle, sn_dependency_map = up_dependency_map p, sn_send = me_send env,
      sn_flash_retry_count = me_flash_retry_count env\<rparr>"

definition execute_updates ::
    "manager_env \<Rightarrow> vehicle \<Rightarrow> update_plan \<Rightarrow> update_entry list \<Rightarrow> (bool \<times> string \<times> scheduler) run" where
  "execute_updates env vehicle p entries s =
     (case me_manifest env flash_directory of
        None \<Rightarrow> lift (Inl (FileNotFoundError ''Manifest not found'')) s
      | Some m \<Rightarrow> lift (execute_plan (scheduler_env_of env vehicle p entries m s) (up_update_order p)) s)"

definition post_install_of :: "manager \<Rightarrow> post_install" where
  "post_install_of s = \<lparr>pi_ecus = mg_ecus s, pi_all_updated = False, pi_validated = [], pi_reports = mg_reports s\<rparr>"

definition validate_update :: "manager_env \<Rightarrow> campaign \<Rightarrow> bool run" where
  "validate_update env camp s =
     (let (e, v) = validate_installation camp (me_deadline env) (me_first_discovery env)
                     (me_later_discoveries env) (post_install_of s);
          s = s\<lparr>mg_ecus := pi_ecus v, mg_reports := pi_reports v\<rparr>
      in case e of Some err \<Rightarrow> (Inl (Raised err), s) | None \<Rightarrow> (Inr (pi_all_updated v), s))"

definition after_execution :: "manager_env \<Rightarrow> campaign \<Rightarrow> bool \<times> string \<times> scheduler \<Rightarrow> unit run" where
  "after_execution env camp result =
     (let (success, summary, st) = result in
      if \<not> success then abort_campaign summary (ss_results st)
      else bindM (\<lambda>s. (Inr (), s\<lparr>mg_ecus := me_ecus_after env st (mg_ecus s)\<rparr>)) (\<lambda>_.
        bindM (validate_update env camp) (\<lambda>verified.
          if verified
          then (\<lambda>s. (Inl (Finalized ''COMPLETED'' summary (ss_results st)), mark_current_job ''COMPLETED'' s))
          else abort_campaign ''POST_INSTALL_VALIDATION_FAILED'' (ss_results st))))"

section \<open>\<open>main\<close>\<close>

text \<open>From the eligible updates on: planning, download, verification, execution.\<close>

definition run_plan :: "manager_env \<Rightarrow> json \<Rightarrow> campaign \<Rightarrow> vehicle \<Rightarrow> update_plan \<Rightarrow> unit run" where
  "run_plan env campaign_data camp vehicle p =
     bindM (require (executable p) ''DYNAMIC_PLANNING_FAILED'') (\<lambda>_.
     let names = selected_update_names p in
     bindM (require (names \<noteq> []) ''NO_EXECUTABLE_UPDATES'') (\<lambda>_.
     bindM (download_firmware env campaign_data names) (\<lambda>_.
     bindM (build_inventory env names) (\<lambda>_.
     bindM (check_firmware env camp vehicle True names) (\<lambda>entries.
     bindM (require (length entries = length (remdups names)) ''DOWNLOADED_ARTIFACT_VERIFICATION_FAILED'') (\<lambda>_.
     bindM (execute_updates env vehicle p entries) (after_execution env camp)))))))"

definition run_campaign :: "manager_env \<Rightarrow> string \<Rightarrow> json \<Rightarrow> unit run" where
  "run_campaign env transport campaign_data =
     bindM (lift (load_campaign campaign_data)) (\<lambda>loaded.
     let camp = loaded\<lparr>cg_transport := transport\<rparr> in
     bindM (require (validate_campaign camp) ''CAMPAIGN_VALIDATION_FAILED'') (\<lambda>_.
     bindM (lift (me_discover env transport)) (\<lambda>vehicle.
     bindM (lift (expected_ecu_versions_hold env vehicle)) (\<lambda>expected.
     bindM (require expected ''RUNTIME_ECU_STATE_MISMATCH'') (\<lambda>_.
     bindM (lift (validate_compatibility (me_topology env) vehicle camp)) (\<lambda>(compatible, camp).
     bindM (require compatible ''CAMPAIGN_COMPATIBILITY_FAILED'') (\<lambda>_.
     bindM (check_firmware env camp vehicle False []) (\<lambda>eligible.
     bindM (require (eligible \<noteq> []) ''NO_COMPATIBLE_ECUS'') (\<lambda>_.
     bindM (lift (dynamic_plan (me_topology env) vehicle camp (map (\<lambda>u. ecu_name (ue_ecu u)) eligible))) (\<lambda>p.
       run_plan env campaign_data camp vehicle p))))))))))"

definition ota_steps :: "manager_env \<Rightarrow> unit run" where
  "ota_steps env =
     (if \<not> me_scenario_consistent env then finalize_failed ''ACTIVE_SCENARIO_MISMATCH''
      else case select_transport env of
        None \<Rightarrow> finalize_failed ''INVALID_TRANSPORT_SELECTION''
      | Some transport \<Rightarrow> bindM (obtain_campaign env) (run_campaign env transport))"

text \<open>Every path through \<open>main\<close> finalizes or raises (\<open>ota_steps_end\<close> below).\<close>

definition ota_main :: "manager_env \<Rightarrow> manager \<Rightarrow> verdict \<times> manager" where
  "ota_main env s =
     (case ota_steps env (s\<lparr>mg_current_job := None\<rparr>) of
        (Inl v, s') \<Rightarrow> (v, s') | (Inr _, s') \<Rightarrow> (Finalized ''FAILED'' [] [], s'))"

section \<open>Runs that complete\<close>

text \<open>Only the last step finalizes a run as completed; a completed run took every step before it.\<close>

definition never_completes :: "'a run \<Rightarrow> bool" where
  "never_completes m \<longleftrightarrow> (\<forall>s r rs s'. m s \<noteq> (Inl (Finalized ''COMPLETED'' r rs), s'))"

named_theorems never_intros \<open>steps that do not complete a run\<close>

lemma never_lift [never_intros]: "never_completes (lift r)"
  by (simp add: never_completes_def lift_def split: sum.split)

lemma never_abort [never_intros]: "never_completes (abort_campaign reason rs)" "never_completes (finalize_failed reason)"
  by (simp_all add: never_completes_def abort_campaign_def finalize_failed_def)

lemma never_require [never_intros]: "never_completes (require c reason)"
  by (simp add: require_def never_completes_def returnM_def abort_campaign_def)

lemma never_bind [never_intros]:
  "never_completes m \<Longrightarrow> (\<And>a. never_completes (f a)) \<Longrightarrow> never_completes (bindM m f)"
  by (auto simp: never_completes_def bindM_def split: prod.splits sum.splits)

lemma never_load_manifest [never_intros]: "never_completes (load_manifest env v)"
  by (auto simp: never_completes_def load_manifest_def lift_def split: option.splits sum.splits prod.splits)

lemma never_check_firmware [never_intros]: "never_completes (check_firmware env camp vehicle req names)"
  unfolding check_firmware_def
  by (rule never_bind [OF never_load_manifest]) (auto simp: never_completes_def lift_def split: sum.splits)

lemma never_download_files [never_intros]: "never_completes (download_files env ts)"
proof -
  have "download_files env ts s \<noteq> (Inl (Finalized ''COMPLETED'' r rs), s')" for s r rs s'
    by (induction ts arbitrary: s) (auto split: sum.splits prod.splits)
  then show ?thesis by (simp add: never_completes_def)
qed

lemma never_download_firmware [never_intros]: "never_completes (download_firmware env c names)"
  unfolding download_firmware_def by (rule never_bind [OF never_lift never_download_files])

lemma never_build_inventory [never_intros]: "never_completes (build_inventory env names)"
  by (auto simp: never_completes_def build_inventory_def lift_def split: option.splits sum.splits)

lemma never_execute [never_intros]: "never_completes (execute_updates env vehicle p entries)"
  by (auto simp: never_completes_def execute_updates_def lift_def split: option.splits sum.splits)

lemma never_obtain_campaign [never_intros]: "never_completes (obtain_campaign env)"
  by (auto simp: never_completes_def obtain_campaign_def lift_def finalize_failed_def
      split: sum.splits prod.splits mqtt_outcome.splits)

lemma never_validate_update [never_intros]: "never_completes (validate_update env camp)"
  by (auto simp: never_completes_def validate_update_def Let_def split: prod.splits option.splits)

lemma completed_bind:
  assumes "bindM m f s = (Inl (Finalized ''COMPLETED'' r rs), s')" and "never_completes m"
  obtains a t where "m s = (Inr a, t)" and "f a t = (Inl (Finalized ''COMPLETED'' r rs), s')"
  using assms by (auto simp: bindM_def never_completes_def split: prod.splits sum.splits)

lemma lift_Inr: "lift r s = (Inr a, t) \<longleftrightarrow> r = Inr a \<and> t = s"
  by (auto simp: lift_def split: sum.splits)

lemma require_Inr: "require c reason s = (Inr a, t) \<longleftrightarrow> c \<and> t = s"
  by (auto simp: require_def returnM_def abort_campaign_def)

lemma check_firmware_Inr:
  assumes "check_firmware env camp vehicle req names s = (Inr entries, t)"
  obtains m trusted trust where "verify_release (trust_env_of env (cg_release_version camp) s) (mg_trust s) = Inr (trusted, trust)"
    and "t = s\<lparr>mg_trust := trust\<rparr>"
    and "validate_firmware \<lparr>fc_packages = mf_packages m, fc_trusted = trusted, fc_read = mg_files s (mf_release_version m),
       fc_require_downloaded = req, fc_target_names = names\<rparr> camp vehicle = Inr entries"
    and "me_manifest env (cg_release_version camp) = Some m"
  using assms
  by (auto simp: check_firmware_def load_manifest_def bindM_def lift_Inr split: option.splits sum.splits prod.splits)

section \<open>The entries are those of the plan\<close>

definition plain_vehicle :: "vehicle \<Rightarrow> bool" where
  "plain_vehicle vehicle \<longleftrightarrow> distinct (map ecu_name vehicle) \<and>
     (\<forall>e \<in> set vehicle. ecu_name e \<noteq> [] \<and> strip_space (ecu_name e) = ecu_name e)"

lemma validate_firmware_ecus:
  assumes "validate_firmware env camp vehicle = Inr us"
  shows "map ue_ecu us = filter (\<lambda>e. \<exists>u. check_ecu env camp e = Inr (Inr u)) vehicle"
proof -
  have "forE vs (\<lambda>e acc. bindE (check_ecu env camp e) (\<lambda>outcome.
      Inr (case outcome of Inl _ \<Rightarrow> acc | Inr entry \<Rightarrow> acc @ [entry]))) us0 = Inr us \<Longrightarrow>
    map ue_ecu us = map ue_ecu us0 @ filter (\<lambda>e. \<exists>u. check_ecu env camp e = Inr (Inr u)) vs" for vs us0
  proof (induction vs arbitrary: us0)
    case Nil
    then show ?case by simp
  next
    case (Cons e vs)
    obtain outcome where out: "check_ecu env camp e = Inr outcome"
      using Cons.prems by (cases "check_ecu env camp e") auto
    show ?case
    proof (cases outcome)
      case (Inl r)
      then show ?thesis using Cons.IH [of us0] Cons.prems out by simp
    next
      case (Inr u)
      have "ue_ecu u = e" by (rule check_ecu_accept [OF out [unfolded Inr]]) simp
      then show ?thesis using Cons.IH [of "us0 @ [u]"] Cons.prems out Inr by simp
    qed
  qed
  from this [of vehicle "[]"] assms show ?thesis by (simp add: validate_firmware_def)
qed

lemma selected_update_names_set:
  assumes "dynamic_plan topo vehicle camp eligible = Inr p"
  shows "set (selected_update_names p) = set (up_update_order p)"
proof
  show "set (selected_update_names p) \<subseteq> set (up_update_order p)" by (auto simp: selected_update_names_def)
  show "set (up_update_order p) \<subseteq> set (selected_update_names p)"
  proof
    fix n assume n: "n \<in> set (up_update_order p)"
    then have "map_of (up_classifications p) n = Some Eligible"
      using dynamic_plan_order(4) [OF assms refl refl refl] by blast
    then have "(n, Eligible) \<in> set (up_classifications p)" by (rule map_of_SomeD)
    with n show "n \<in> set (selected_update_names p)"
      by (force simp: selected_update_names_def names_with_def)
  qed
qed

lemma planned_are_eligible:
  assumes "dynamic_plan topo vehicle camp eligible = Inr p"
  shows "set (up_update_order p) \<subseteq> set eligible"
proof -
  have "set (names_with (\<lambda>c. c = Eligible) (plan_classifications topo vehicle camp eligible)) \<subseteq> set eligible"
    by (auto simp: names_with_def plan_classifications_def classify_def Let_def
        split: if_splits option.splits prod.splits)
  then show ?thesis using dynamic_plan_order(1) [OF assms refl refl refl] by blast
qed

lemma entries_cover_plan:
  assumes "validate_firmware env camp vehicle = Inr us" and "plain_vehicle vehicle"
    and "fc_target_names env = names" and "names \<noteq> []" and "set names \<subseteq> ecu_name ` set vehicle"
    and "length us = length (remdups names)"
  shows "(\<lambda>u. ecu_name (ue_ecu u)) ` set us = set names"
proof -
  have plain: "strip_space n = n \<and> n \<noteq> []" if n: "n \<in> set names" for n
  proof -
    obtain e where "e \<in> set vehicle" and "n = ecu_name e" using assms(5) n by blast
    with assms(2) show ?thesis by (simp add: plain_vehicle_def)
  qed
  then have "map strip_space names = names" by (intro map_idI) simp
  then have sel: "selected_names names = names" using plain by (simp add: selected_names_def filter_id_conv)
  let ?ns = "map ecu_name (map ue_ecu us)"
  have d: "distinct ?ns"
    unfolding validate_firmware_ecus [OF assms(1)] using assms(2)
    by (simp add: plain_vehicle_def distinct_map_filter)
  have "length ?ns = card (set names)" using assms(6) by (simp add: length_remdups_card_conv)
  with distinct_card [OF d] have card: "card (set ?ns) = card (set names)" by (rule trans)
  have "set ?ns \<subseteq> set names"
  proof
    fix n assume "n \<in> set ?ns"
    then obtain u where u: "u \<in> set us" "n = ecu_name (ue_ecu u)" by auto
    then obtain e where e: "check_ecu env camp e = Inr (Inr u)"
      using validate_firmware_iff [OF assms(1)] by blast
    show "n \<in> set names"
      by (rule check_ecu_accept [OF e]) (use u(2) sel assms(3,4) in simp)
  qed
  from card_subset_eq [OF finite_set this card] have "set ?ns = set names" .
  then show ?thesis by (simp add: image_image)
qed

section \<open>What a completed run did\<close>

lemma mark_current_job_keeps [simp]:
  "mg_ecus (mark_current_job status s) = mg_ecus s" "mg_files (mark_current_job status s) = mg_files s"
  "mg_trust (mark_current_job status s) = mg_trust s"
  by (simp_all add: mark_current_job_def record_job_def split: option.split sum.split prod.split)

lemma after_execution_completed:
  assumes "after_execution env camp result s = (Inl (Finalized ''COMPLETED'' reason results), s')"
    and "\<And>st ecus k. sound_files (me_ecus_after env st ecus k)"
  obtains st vehicle where "result = (True, reason, st)" and "results = ss_results st"
    and "wait_for_expected_versions (target_versions camp) (me_deadline env) (me_first_discovery env)
      (me_later_discoveries env) = Inr vehicle"
    and "\<forall>n \<in> set (validation_names camp). map_of (target_versions camp) n \<noteq> None \<longrightarrow>
      (\<exists>e expected key. map_of (target_versions camp) n = Some expected \<and> discovered vehicle n = Some e \<and>
        version_eq (VersionText (ecu_current_version e)) (VersionText expected) = Inr True \<and>
        ecu_key n = Inr key \<and> off_trial (mg_ecus s' key))"
proof -
  obtain success summary st where result: "result = (success, summary, st)" by (cases result)
  have success: success using assms(1) result
    by (auto simp: after_execution_def abort_campaign_def split: if_splits)
  let ?s = "s\<lparr>mg_ecus := me_ecus_after env st (mg_ecus s)\<rparr>"
  have "bindM (validate_update env camp) (\<lambda>verified.
      if verified then (\<lambda>s. (Inl (Finalized ''COMPLETED'' summary (ss_results st)), mark_current_job ''COMPLETED'' s))
      else abort_campaign ''POST_INSTALL_VALIDATION_FAILED'' (ss_results st)) ?s =
    (Inl (Finalized ''COMPLETED'' reason results) :: verdict + unit, s')"
    using assms(1) success result by (simp add: after_execution_def bindM_def)
  then obtain verified t where v: "validate_update env camp ?s = (Inr verified, t)"
    and fin: "(if verified then (\<lambda>s. (Inl (Finalized ''COMPLETED'' summary (ss_results st)), mark_current_job ''COMPLETED'' s))
      else abort_campaign ''POST_INSTALL_VALIDATION_FAILED'' (ss_results st)) t =
      (Inl (Finalized ''COMPLETED'' reason results) :: verdict + unit, s')"
    by (rule completed_bind) (rule never_validate_update)
  have verified: verified and "reason = summary" and "results = ss_results st" and s': "s' = mark_current_job ''COMPLETED'' t"
    using fin by (auto simp: abort_campaign_def split: if_splits)
  obtain q where post: "validate_installation camp (me_deadline env) (me_first_discovery env)
      (me_later_discoveries env) (post_install_of ?s) = (None, q)" and "pi_all_updated q" and t: "mg_ecus t = pi_ecus q"
    using v verified by (auto simp: validate_update_def Let_def split: prod.splits option.splits)
  have "\<forall>k. sound_files (pi_ecus (post_install_of ?s) k)" using assms(2) by (simp add: post_install_of_def)
  from validation_result [OF post this] obtain vehicle where
    wait: "wait_for_expected_versions (target_versions camp) (me_deadline env) (me_first_discovery env)
      (me_later_discoveries env) = Inr vehicle"
    and ok: "\<forall>n \<in> set (validation_names camp). map_of (target_versions camp) n \<noteq> None \<longrightarrow>
      (\<forall>e. discovered vehicle n = Some e \<longrightarrow> (\<exists>key. ecu_key n = Inr key \<and> off_trial (pi_ecus q key))) \<and>
      (pi_all_updated q \<longrightarrow> (\<exists>e expected. map_of (target_versions camp) n = Some expected \<and>
        discovered vehicle n = Some e \<and>
        version_eq (VersionText (ecu_current_version e)) (VersionText expected) = Inr True))"
    by blast
  show ?thesis
  proof (rule that [OF _ _ wait])
    show "result = (True, reason, st)" using result success \<open>reason = summary\<close> by simp
    show "results = ss_results st" by fact
    show "\<forall>n \<in> set (validation_names camp). map_of (target_versions camp) n \<noteq> None \<longrightarrow>
      (\<exists>e expected key. map_of (target_versions camp) n = Some expected \<and> discovered vehicle n = Some e \<and>
        version_eq (VersionText (ecu_current_version e)) (VersionText expected) = Inr True \<and>
        ecu_key n = Inr key \<and> off_trial (mg_ecus s' key))"
      using ok \<open>pi_all_updated q\<close> t s' by fastforce
  qed
qed

lemma run_plan_completed:
  assumes "run_plan env data camp vehicle p s = (Inl (Finalized ''COMPLETED'' reason results), s')"
  obtains t0 t1 entries result where
    "check_firmware env camp vehicle True (selected_update_names p) t0 = (Inr entries, t1)"
    and "selected_update_names p \<noteq> []" and "length entries = length (remdups (selected_update_names p))"
    and "execute_updates env vehicle p entries t1 = (Inr result, t1)"
    and "after_execution env camp result t1 = (Inl (Finalized ''COMPLETED'' reason results), s')"
proof -
  let ?names = "selected_update_names p"
  from assms obtain u1 where 1: "bindM (require (?names \<noteq> []) ''NO_EXECUTABLE_UPDATES'') (\<lambda>_.
     bindM (download_firmware env data ?names) (\<lambda>_. bindM (build_inventory env ?names) (\<lambda>_.
     bindM (check_firmware env camp vehicle True ?names) (\<lambda>entries.
     bindM (require (length entries = length (remdups ?names)) ''DOWNLOADED_ARTIFACT_VERIFICATION_FAILED'') (\<lambda>_.
     bindM (execute_updates env vehicle p entries) (after_execution env camp)))))) u1 =
       (Inl (Finalized ''COMPLETED'' reason results), s')"
    unfolding run_plan_def Let_def by (rule completed_bind) (rule never_require)
  then obtain u2 where names: "?names \<noteq> []" and 2: "bindM (download_firmware env data ?names) (\<lambda>_.
     bindM (build_inventory env ?names) (\<lambda>_.
     bindM (check_firmware env camp vehicle True ?names) (\<lambda>entries.
     bindM (require (length entries = length (remdups ?names)) ''DOWNLOADED_ARTIFACT_VERIFICATION_FAILED'') (\<lambda>_.
     bindM (execute_updates env vehicle p entries) (after_execution env camp))))) u2 =
       (Inl (Finalized ''COMPLETED'' reason results), s')"
    by (rule completed_bind [OF _ never_require]) (auto simp: require_Inr)
  from 2 obtain u3 where 3: "bindM (build_inventory env ?names) (\<lambda>_.
     bindM (check_firmware env camp vehicle True ?names) (\<lambda>entries.
     bindM (require (length entries = length (remdups ?names)) ''DOWNLOADED_ARTIFACT_VERIFICATION_FAILED'') (\<lambda>_.
     bindM (execute_updates env vehicle p entries) (after_execution env camp)))) u3 =
       (Inl (Finalized ''COMPLETED'' reason results), s')"
    by (rule completed_bind) (rule never_download_firmware)
  from 3 obtain t0 where 4: "bindM (check_firmware env camp vehicle True ?names) (\<lambda>entries.
     bindM (require (length entries = length (remdups ?names)) ''DOWNLOADED_ARTIFACT_VERIFICATION_FAILED'') (\<lambda>_.
     bindM (execute_updates env vehicle p entries) (after_execution env camp))) t0 =
       (Inl (Finalized ''COMPLETED'' reason results), s')"
    by (rule completed_bind) (rule never_build_inventory)
  from 4 obtain entries t1 where check: "check_firmware env camp vehicle True ?names t0 = (Inr entries, t1)"
    and 5: "bindM (require (length entries = length (remdups ?names)) ''DOWNLOADED_ARTIFACT_VERIFICATION_FAILED'') (\<lambda>_.
     bindM (execute_updates env vehicle p entries) (after_execution env camp)) t1 =
       (Inl (Finalized ''COMPLETED'' reason results), s')"
    by (rule completed_bind) (rule never_check_firmware)
  from 5 have len: "length entries = length (remdups ?names)"
    and 6: "bindM (execute_updates env vehicle p entries) (after_execution env camp) t1 =
       (Inl (Finalized ''COMPLETED'' reason results), s')"
    by (rule completed_bind [OF _ never_require], simp add: require_Inr)+
  from 6 obtain result t2 where ex: "execute_updates env vehicle p entries t1 = (Inr result, t2)"
    and 7: "after_execution env camp result t2 = (Inl (Finalized ''COMPLETED'' reason results), s')"
    by (rule completed_bind) (rule never_execute)
  have "t2 = t1" using ex by (auto simp: execute_updates_def lift_Inr lift_def split: option.splits sum.splits)
  with check names len ex 7 show ?thesis by (intro that) simp_all
qed

lemma run_campaign_completed:
  assumes "run_campaign env transport data s = (Inl (Finalized ''COMPLETED'' reason results), s')"
  obtains loaded vehicle camp p t and eligible :: "update_entry list" where "load_campaign data = Inr loaded"
    and "me_discover env transport = Inr vehicle"
    and "validate_compatibility (me_topology env) vehicle (loaded\<lparr>cg_transport := transport\<rparr>) = Inr (True, camp)"
    and "dynamic_plan (me_topology env) vehicle camp (map (\<lambda>u. ecu_name (ue_ecu u)) eligible) = Inr p"
    and "(\<lambda>u. ecu_name (ue_ecu u)) ` set eligible \<subseteq> ecu_name ` set vehicle"
    and "run_plan env data camp vehicle p t = (Inl (Finalized ''COMPLETED'' reason results), s')"
proof -
  let ?done = "(Inl (Finalized ''COMPLETED'' reason results), s') :: (verdict + unit) \<times> manager"
  let ?plan = "\<lambda>camp vehicle eligible. bindM (lift (dynamic_plan (me_topology env) vehicle camp
      (map (\<lambda>u. ecu_name (ue_ecu u)) eligible))) (\<lambda>p. run_plan env data camp vehicle p)"
  let ?firmware = "\<lambda>camp vehicle. bindM (check_firmware env camp vehicle False []) (\<lambda>eligible.
      bindM (require (eligible \<noteq> []) ''NO_COMPATIBLE_ECUS'') (\<lambda>_. ?plan camp vehicle eligible))"
  let ?compat = "\<lambda>camp vehicle. bindM (lift (validate_compatibility (me_topology env) vehicle camp))
      (\<lambda>(compatible, camp). bindM (require compatible ''CAMPAIGN_COMPATIBILITY_FAILED'') (\<lambda>_. ?firmware camp vehicle))"
  from assms obtain loaded t0 where loaded: "load_campaign data = Inr loaded" and "bindM (require (validate_campaign (loaded\<lparr>cg_transport := transport\<rparr>))
      ''CAMPAIGN_VALIDATION_FAILED'') (\<lambda>_. bindM (lift (me_discover env transport)) (\<lambda>vehicle.
      bindM (lift (expected_ecu_versions_hold env vehicle)) (\<lambda>expected.
      bindM (require expected ''RUNTIME_ECU_STATE_MISMATCH'') (\<lambda>_.
        ?compat (loaded\<lparr>cg_transport := transport\<rparr>) vehicle)))) t0 = ?done"
    unfolding run_campaign_def Let_def by (rule completed_bind [OF _ never_lift]) (simp add: lift_Inr)
  then obtain t1 where "bindM (lift (me_discover env transport)) (\<lambda>vehicle.
      bindM (lift (expected_ecu_versions_hold env vehicle)) (\<lambda>expected.
      bindM (require expected ''RUNTIME_ECU_STATE_MISMATCH'') (\<lambda>_.
        ?compat (loaded\<lparr>cg_transport := transport\<rparr>) vehicle))) t1 = ?done"
    by (elim completed_bind [OF _ never_require])
  then obtain vehicle where vehicle: "me_discover env transport = Inr vehicle"
    and "bindM (lift (expected_ecu_versions_hold env vehicle)) (\<lambda>expected.
      bindM (require expected ''RUNTIME_ECU_STATE_MISMATCH'') (\<lambda>_.
        ?compat (loaded\<lparr>cg_transport := transport\<rparr>) vehicle)) t1 = ?done"
    by (rule completed_bind [OF _ never_lift]) (simp add: lift_Inr)
  then obtain expected t2 where "bindM (require expected ''RUNTIME_ECU_STATE_MISMATCH'') (\<lambda>_.
        ?compat (loaded\<lparr>cg_transport := transport\<rparr>) vehicle) t2 = ?done"
    by (elim completed_bind [OF _ never_lift])
  then obtain t3 where "?compat (loaded\<lparr>cg_transport := transport\<rparr>) vehicle t3 = ?done"
    by (elim completed_bind [OF _ never_require])
  then obtain compatible camp t4 where
      compat: "validate_compatibility (me_topology env) vehicle (loaded\<lparr>cg_transport := transport\<rparr>) = Inr (compatible, camp)"
    and "bindM (require compatible ''CAMPAIGN_COMPATIBILITY_FAILED'') (\<lambda>_. ?firmware camp vehicle) t4 = ?done"
    by (elim completed_bind [OF _ never_lift]) (auto simp: lift_Inr split: prod.splits)
  then obtain t5 where compatible and "?firmware camp vehicle t5 = ?done"
    by (elim completed_bind [OF _ never_require]) (simp add: require_Inr)
  then obtain eligible t6 where check: "check_firmware env camp vehicle False [] t5 = (Inr eligible, t6)"
    and "bindM (require (eligible \<noteq> []) ''NO_COMPATIBLE_ECUS'') (\<lambda>_. ?plan camp vehicle eligible) t6 = ?done"
    by (elim completed_bind [OF _ never_check_firmware])
  then obtain t7 where "?plan camp vehicle eligible t7 = ?done"
    by (elim completed_bind [OF _ never_require])
  then obtain p t where plan: "dynamic_plan (me_topology env) vehicle camp (map (\<lambda>u. ecu_name (ue_ecu u)) eligible) = Inr p"
    and run: "run_plan env data camp vehicle p t = ?done"
    by (rule completed_bind [OF _ never_lift]) (simp add: lift_Inr)
  have sub: "(\<lambda>u. ecu_name (ue_ecu u)) ` set eligible \<subseteq> ecu_name ` set vehicle"
  proof (rule check_firmware_Inr [OF check])
    fix m trusted trust
    assume "validate_firmware \<lparr>fc_packages = mf_packages m, fc_trusted = trusted, fc_read = mg_files t5 (mf_release_version m),
       fc_require_downloaded = False, fc_target_names = []\<rparr> camp vehicle = Inr eligible"
    from validate_firmware_ecus [OF this] have "set (map ue_ecu eligible) \<subseteq> set vehicle" by simp
    then show ?thesis by auto
  qed
  show ?thesis by (rule that [OF loaded vehicle _ plan sub run]) (use compat \<open>compatible\<close> in simp)
qed

text \<open>The firmware of one flashed ECU passed every check of the trust metadata and of the file.\<close>

definition verified_update :: "manager_env \<Rightarrow> manager \<Rightarrow> campaign \<Rightarrow> string \<Rightarrow> update_entry \<Rightarrow> bool" where
  "verified_update env s camp n u \<longleftrightarrow>
     ecu_name (ue_ecu u) = n \<and>
     (\<exists>(m :: manifest) trusted trust content md current target.
        me_manifest env (cg_release_version camp) = Some m \<and>
        verify_release (trust_env_of env (cg_release_version camp) s) (mg_trust s) = Inr (trusted, trust) \<and>
        map_of trusted (pk_file (ue_package u)) = Some (ue_trusted u) \<and>
        js_get_or (tt_custom (ue_trusted u)) ''ecu_name'' JsNull = Inr (JsStr n) \<and>
        mg_files s (mf_release_version m) (pk_file (ue_package u)) = Some content \<and>
        hexdigest content = tt_sha256 (ue_trusted u) \<and>
        parse_firmware_image content = Inr md \<and> img_ecu_name md = n \<and>
        img_target_version md = pk_target_version (ue_package u) \<and>
        parse_version (VersionText (ecu_current_version (ue_ecu u))) = Inr current \<and>
        parse_version (VersionText (pk_target_version (ue_package u))) = Inr target \<and> current < target)"

lemma checked_entries_verified:
  assumes "check_firmware env camp vehicle True names s = (Inr entries, t)" and "u \<in> set entries"
  shows "verified_update env s camp (ecu_name (ue_ecu u)) u"
proof (rule check_firmware_Inr [OF assms(1)])
  fix m :: manifest and trusted trust
  let ?env = "\<lparr>fc_packages = mf_packages m, fc_trusted = trusted, fc_read = mg_files s (mf_release_version m),
       fc_require_downloaded = True, fc_target_names = names\<rparr>"
  assume v: "verify_release (trust_env_of env (cg_release_version camp) s) (mg_trust s) = Inr (trusted, trust)"
    and m: "me_manifest env (cg_release_version camp) = Some m"
    and val: "validate_firmware ?env camp vehicle = Inr entries"
  have "fc_require_downloaded ?env" by simp
  from eligible_update [OF val assms(2) this refl refl refl] obtain content md current target where
    "map_of trusted (pk_file (ue_package u)) = Some (ue_trusted u)"
    "js_get_or (tt_custom (ue_trusted u)) ''ecu_name'' JsNull = Inr (JsStr (ecu_name (ue_ecu u)))"
    "mg_files s (mf_release_version m) (pk_file (ue_package u)) = Some content"
    "hexdigest content = tt_sha256 (ue_trusted u)" "parse_firmware_image content = Inr md"
    "img_ecu_name md = ecu_name (ue_ecu u)" "img_target_version md = pk_target_version (ue_package u)"
    "parse_version (VersionText (ecu_current_version (ue_ecu u))) = Inr current"
    "parse_version (VersionText (pk_target_version (ue_package u))) = Inr target" "current < target"
    by (elim exE conjE) (rule that, simp_all)
  with v m show ?thesis unfolding verified_update_def
    by - (rule conjI [OF refl], rule exI [of _ m], rule exI [of _ trusted], rule exI [of _ trust], rule exI [of _ content],
      rule exI [of _ md], rule exI [of _ current], rule exI [of _ target], simp)
qed

lemma after_execution_files:
  assumes "after_execution env camp result t = (outcome, t')"
  shows "mg_files t' = mg_files t"
  using assms
  by (auto simp: after_execution_def bindM_def abort_campaign_def validate_update_def Let_def
      split: if_splits prod.splits option.splits)

lemma run_plan_flashes:
  assumes "run_plan env data camp vehicle p t = (Inl (Finalized ''COMPLETED'' reason results), s')"
    and "dynamic_plan topo vehicle camp names = Inr p" and "set names \<subseteq> ecu_name ` set vehicle"
    and "plain_vehicle vehicle"
  obtains t0 t1 st where "results = map (\<lambda>n. (n, Flashed)) (up_update_order p)" and "up_update_order p \<noteq> []"
    and "reason = ''FLASHING COMPLETE''"
    and "\<forall>n \<in> set (up_update_order p). \<exists>u. ue_ecu u \<in> set vehicle \<and> verified_update env t0 camp n u"
    and "mg_files t0 = mg_files s'"
    and "after_execution env camp (True, reason, st) t1 = (Inl (Finalized ''COMPLETED'' reason results), s')"
proof -
  obtain t0 t1 entries result where check: "check_firmware env camp vehicle True (selected_update_names p) t0 = (Inr entries, t1)"
    and ne: "selected_update_names p \<noteq> []" and len: "length entries = length (remdups (selected_update_names p))"
    and ex: "execute_updates env vehicle p entries t1 = (Inr result, t1)"
    and after: "after_execution env camp result t1 = (Inl (Finalized ''COMPLETED'' reason results), s')"
    by (rule run_plan_completed [OF assms(1)])
  note sel = selected_update_names_set [OF assms(2)]
  have sub: "set (selected_update_names p) \<subseteq> ecu_name ` set vehicle"
    using planned_are_eligible [OF assms(2)] assms(3) sel by blast
  have cover: "(\<lambda>u. ecu_name (ue_ecu u)) ` set entries = set (up_update_order p)"
  proof (rule check_firmware_Inr [OF check])
    fix m trusted trust
    assume "validate_firmware \<lparr>fc_packages = mf_packages m, fc_trusted = trusted, fc_read = mg_files t0 (mf_release_version m),
       fc_require_downloaded = True, fc_target_names = selected_update_names p\<rparr> camp vehicle = Inr entries"
    from entries_cover_plan [OF this assms(4) _ ne sub len] sel show ?thesis by simp
  qed
  have entries: "ue_ecu ` set entries \<subseteq> set vehicle"
  proof (rule check_firmware_Inr [OF check])
    fix m trusted trust
    assume "validate_firmware \<lparr>fc_packages = mf_packages m, fc_trusted = trusted, fc_read = mg_files t0 (mf_release_version m),
       fc_require_downloaded = True, fc_target_names = selected_update_names p\<rparr> camp vehicle = Inr entries"
    from arg_cong [OF validate_firmware_ecus [OF this], of set] show ?thesis by auto
  qed
  obtain success summary st where result: "result = (success, summary, st)" by (cases result)
  have success: success and facts: "summary = reason" "results = ss_results st"
    using after result
    by (auto simp: after_execution_def bindM_def abort_campaign_def validate_update_def Let_def
        split: if_splits prod.splits option.splits)
  obtain m where m: "execute_plan (scheduler_env_of env vehicle p entries m t1) (up_update_order p) = Inr (True, reason, st)"
    using ex result success facts by (auto simp: execute_updates_def lift_Inr lift_def split: option.splits sum.splits)
  have follows: "follows_plan (scheduler_env_of env vehicle p entries m t1) vehicle p"
    using cover by (auto simp: follows_plan_def scheduler_env_of_def eligible_names_def image_image)
  have order: "up_update_order p \<noteq> []" using ne sel by auto
  have flashed: "ss_results st = map (\<lambda>n. (n, Flashed)) (up_update_order p)" "reason = ''FLASHING COMPLETE''"
    using planned_campaign_result [OF assms(2) follows m order] by auto
  have ver: "\<forall>n \<in> set (up_update_order p). \<exists>u. ue_ecu u \<in> set vehicle \<and> verified_update env t0 camp n u"
  proof
    fix n assume "n \<in> set (up_update_order p)"
    then have "n \<in> (\<lambda>u. ecu_name (ue_ecu u)) ` set entries" by (simp only: cover)
    then obtain u where "u \<in> set entries" and "ecu_name (ue_ecu u) = n" by auto
    moreover have "ue_ecu u \<in> set vehicle" using entries \<open>u \<in> set entries\<close> by auto
    ultimately show "\<exists>u. ue_ecu u \<in> set vehicle \<and> verified_update env t0 camp n u"
      using checked_entries_verified [OF check] by blast
  qed
  have "results = map (\<lambda>n. (n, Flashed)) (up_update_order p)" using flashed(1) facts(2) by simp
  moreover have "after_execution env camp (True, reason, st) t1 =
      (Inl (Finalized ''COMPLETED'' reason results), s')"
    using after result success facts(1) by simp
  moreover have "mg_files t0 = mg_files s'"
  proof -
    have "mg_files t1 = mg_files t0" by (rule check_firmware_Inr [OF check]) simp
    with after_execution_files [OF after] show ?thesis by simp
  qed
  ultimately show ?thesis using order flashed(2) ver by (intro that)
qed


lemma obtained_campaign:
  assumes "obtain_campaign env s = (Inr data, t)"
  shows "\<exists>url. me_get_campaign env url = Inr data"
  using assms
  by (auto simp: obtain_campaign_def download_campaign_def download_campaign_from_mqtt_def lift_Inr finalize_failed_def
      Let_def split: if_splits sum.splits prod.splits mqtt_outcome.splits)



section \<open>Every run ends, and what becomes of its job\<close>

definition always_ends :: "'a run \<Rightarrow> bool" where
  "always_ends m \<longleftrightarrow> (\<forall>s. \<exists>v s'. m s = (Inl v, s'))"

lemma always_ends_bind: "(\<And>a. always_ends (f a)) \<Longrightarrow> always_ends (bindM m f)"
  unfolding always_ends_def bindM_def by (auto split: prod.split sum.split)

lemma ota_steps_end: "always_ends (ota_steps env)"
proof -
  have abort: "always_ends (abort_campaign reason rs)" "always_ends (finalize_failed reason)"
    "always_ends (\<lambda>s. (Inl v, g s))" for reason rs v g
    by (simp_all add: always_ends_def abort_campaign_def finalize_failed_def)
  have "always_ends (after_execution env camp result)" for camp result
    unfolding after_execution_def Let_def split_beta
    by (simp add: abort always_ends_bind)
  then show ?thesis
    unfolding ota_steps_def run_campaign_def run_plan_def Let_def
    by (auto intro!: always_ends_bind abort split: option.split)
qed

text \<open>
  Steps that leave the current job alone, and record a status for it only when they finalize the
  run with that status.
\<close>

definition keeps_job :: "'a run \<Rightarrow> bool" where
  "keeps_job m \<longleftrightarrow> (\<forall>s x s'. m s = (x, s') \<longrightarrow> mg_current_job s' = mg_current_job s \<and>
     (mg_jobs s' = mg_jobs s \<or> (\<exists>status r rs. x = Inl (Finalized status r rs) \<and> status \<in> {''COMPLETED'', ''FAILED''} \<and>
        mg_jobs s' = mg_jobs (mark_current_job status s))))"

lemma mark_current_job_jobs:
  "mg_current_job (mark_current_job status s) = mg_current_job s"
  "mg_jobs s = mg_jobs t \<Longrightarrow> mg_current_job s = mg_current_job t \<Longrightarrow>
     mg_jobs (mark_current_job status s) = mg_jobs (mark_current_job status t)"
  by (simp_all add: mark_current_job_def record_job_def split: option.split sum.split prod.split)

named_theorems keeps_intros \<open>steps that keep the job\<close>

lemma keeps_bind [keeps_intros]:
  assumes "keeps_job m" and "\<And>a. keeps_job (f a)"
  shows "keeps_job (bindM m f)"
  unfolding keeps_job_def
proof (intro allI impI)
  fix s x s' assume run: "bindM m f s = (x, s')"
  obtain y t where m: "m s = (y, t)" by (cases "m s")
  note first = assms(1) [unfolded keeps_job_def, rule_format, OF m]
  show "mg_current_job s' = mg_current_job s \<and>
     (mg_jobs s' = mg_jobs s \<or> (\<exists>status r rs. x = Inl (Finalized status r rs) \<and> status \<in> {''COMPLETED'', ''FAILED''} \<and>
        mg_jobs s' = mg_jobs (mark_current_job status s)))"
  proof (cases y)
    case (Inl v)
    with run m have "x = Inl v" "s' = t" by (auto simp: bindM_def)
    with first Inl show ?thesis by auto
  next
    case (Inr a)
    with run m have "f a t = (x, s')" by (simp add: bindM_def)
    from assms(2) [unfolded keeps_job_def, rule_format, OF this] first Inr show ?thesis
      using mark_current_job_jobs(2) [of t s] by auto
  qed
qed

lemma keeps_state [keeps_intros]:
  assumes "\<And>s. mg_jobs (g s) = mg_jobs s" and "\<And>s. mg_current_job (g s) = mg_current_job s"
  shows "keeps_job (\<lambda>s. (h s, g s))"
  using assms by (simp add: keeps_job_def)

lemma keeps_lift [keeps_intros]: "keeps_job (lift r)" "keeps_job (\<lambda>s. lift (q s) s)"
  by (simp_all add: keeps_job_def lift_def split: sum.split)

lemma keeps_finalize [keeps_intros]:
  "keeps_job (abort_campaign reason rs)" "keeps_job (finalize_failed reason)"
  "keeps_job (\<lambda>s. (Inl (Finalized ''COMPLETED'' reason rs), mark_current_job ''COMPLETED'' s))"
  by (simp_all add: keeps_job_def abort_campaign_def finalize_failed_def mark_current_job_jobs(1))

lemma keeps_require [keeps_intros]: "keeps_job (require c reason)"
  by (simp add: require_def keeps_finalize) (simp add: keeps_job_def returnM_def)

lemma keeps_load_manifest [keeps_intros]: "keeps_job (load_manifest env v)"
  by (auto simp: keeps_job_def load_manifest_def lift_def split: option.splits sum.splits)

lemma keeps_build_inventory [keeps_intros]: "keeps_job (build_inventory env names)"
  by (auto simp: keeps_job_def build_inventory_def lift_def split: option.splits sum.splits)

lemma keeps_execute [keeps_intros]: "keeps_job (execute_updates env vehicle p entries)"
  by (auto simp: keeps_job_def execute_updates_def lift_def split: option.splits sum.splits)

lemma keeps_validate [keeps_intros]: "keeps_job (validate_update env camp)"
  by (auto simp: keeps_job_def validate_update_def Let_def split: option.splits prod.splits)

lemma keeps_download_files [keeps_intros]: "keeps_job (download_files env ts)"
proof -
  have "download_files env ts s = (x, s') \<Longrightarrow> mg_current_job s' = mg_current_job s \<and> mg_jobs s' = mg_jobs s" for s x s'
    by (induction ts arbitrary: s) (auto split: sum.splits prod.splits)
  then show ?thesis by (simp add: keeps_job_def)
qed

lemma keeps_check_firmware [keeps_intros]: "keeps_job (check_firmware env camp vehicle req names)"
  unfolding check_firmware_def by (intro keeps_bind keeps_load_manifest) (simp add: split_beta keeps_lift)

lemma keeps_run_campaign: "keeps_job (run_campaign env transport data)"
proof -
  have "keeps_job (after_execution env camp result)" for camp result
    unfolding after_execution_def Let_def split_beta by (auto intro!: keeps_intros)
  then show ?thesis
    unfolding run_campaign_def run_plan_def download_firmware_def Let_def split_beta by (intro keeps_intros)
qed

text \<open>The job that this run works on: not completed before, and the one of the payload received.\<close>

definition current_job_ok :: "manager_env \<Rightarrow> manager \<Rightarrow> manager \<Rightarrow> bool" where
  "current_job_ok env s t \<longleftrightarrow> (case mg_current_job t of
     None \<Rightarrow> mg_jobs t = mg_jobs s
   | Some payload \<Rightarrow> me_mqtt_campaign env = Inr payload \<and> (\<exists>j c. job_ids payload = Inr (j, c) \<and> \<not> job_completed j s \<and>
       (\<forall>n. n \<noteq> j \<longrightarrow> map_of (mg_jobs t) n = map_of (mg_jobs s) n) \<and> \<not> job_completed j t))"

lemma job_recorded: "map_of (mg_jobs (record_job j status s)) n = (if n = j then Some status else map_of (mg_jobs s) n)"
  by (simp add: record_job_def update_conv')

lemma obtained_job:
  assumes "obtain_campaign env s = (x, t)" and "mg_current_job s = None"
  shows "current_job_ok env s t \<and> (\<forall>v. x = Inl v \<longrightarrow> (\<forall>r rs. v \<noteq> Finalized ''COMPLETED'' r rs))"
proof -
  have same: "current_job_ok env s s" using assms(2) by (simp add: current_job_ok_def)
  have mqtt: "current_job_ok env s t" if m: "download_campaign_from_mqtt env s = (out, t)" for out t
  proof (cases "bindE (me_mqtt_campaign env) (\<lambda>payload. bindE (job_ids payload) (\<lambda>ids. Inr (payload, ids)))")
    case (Inl e)
    with m same show ?thesis by (simp add: download_campaign_from_mqtt_def)
  next
    case (Inr r)
    then obtain payload j c where r: "r = (payload, j, c)" "me_mqtt_campaign env = Inr payload" "job_ids payload = Inr (j, c)"
      by (auto simp: bindE_Inr_iff)
    show ?thesis
    proof (cases "job_completed j s")
      case True
      with m same Inr r show ?thesis by (simp add: download_campaign_from_mqtt_def)
    next
      case False
      define t1 where "t1 = (record_job j ''RECEIVED'' s)\<lparr>mg_current_job := Some payload\<rparr>"
      have "t = t1 \<or> t = record_job j ''PROCESSING'' t1"
        using m Inr r False by (auto simp: download_campaign_from_mqtt_def Let_def t1_def split: sum.splits)
      moreover have "mg_current_job t1 = Some payload"
        "map_of (mg_jobs t1) n = (if n = j then Some ''RECEIVED'' else map_of (mg_jobs s) n)" for n
        by (simp_all add: t1_def job_recorded)
      moreover have "mg_current_job (record_job j ''PROCESSING'' t1) = mg_current_job t1" by (simp add: record_job_def)
      ultimately show ?thesis using False r(2,3)
        by (elim disjE) (simp_all add: current_job_ok_def job_completed_def job_recorded)
    qed
  qed
  show ?thesis
    using assms(1) same mqtt
    by (auto simp: obtain_campaign_def lift_def finalize_failed_def split: if_splits sum.splits prod.splits mqtt_outcome.splits)
qed

lemma marked_job:
  assumes "current_job_ok env s t"
    and "mg_jobs t' = mg_jobs t \<or> (\<exists>st r rs. x = Inl (Finalized st r rs) \<and> st \<in> {''COMPLETED'', ''FAILED''} \<and>
        mg_jobs t' = mg_jobs (mark_current_job st t))"
  shows "(job_completed j s \<longrightarrow> job_completed j t') \<and>
    (job_completed j t' \<and> \<not> job_completed j s \<longrightarrow>
      (\<exists>r rs payload c. x = Inl (Finalized ''COMPLETED'' r rs) \<and> me_mqtt_campaign env = Inr payload \<and> job_ids payload = Inr (j, c)))"
proof (cases "mg_current_job t")
  case None
  then have "mg_jobs t' = mg_jobs s" using assms by (auto simp: current_job_ok_def mark_current_job_def)
  then show ?thesis by (simp add: job_completed_def)
next
  case (Some payload)
  then obtain i c where job: "me_mqtt_campaign env = Inr payload" "job_ids payload = Inr (i, c)" "\<not> job_completed i s"
    "\<not> job_completed i t" "\<And>n. n \<noteq> i \<Longrightarrow> map_of (mg_jobs t) n = map_of (mg_jobs s) n"
    using assms(1) by (auto simp: current_job_ok_def)
  have jobs: "mg_jobs (mark_current_job st t) = mg_jobs t \<or>
      (\<forall>n. map_of (mg_jobs (mark_current_job st t)) n = (if n = i then Some st else map_of (mg_jobs t) n))" for st
    using Some job(2) by (simp add: mark_current_job_def job_recorded)
  show ?thesis
  proof (cases "mg_jobs t' = mg_jobs t")
    case True
    with job show ?thesis by (cases "j = i") (auto simp: job_completed_def)
  next
    case False
    with assms(2) obtain st r rs where x: "x = Inl (Finalized st r rs)" "st \<in> {''COMPLETED'', ''FAILED''}"
      "mg_jobs t' = mg_jobs (mark_current_job st t)" by blast
    with jobs [of st] False have "map_of (mg_jobs t') n = (if n = i then Some st else map_of (mg_jobs t) n)" for n by auto
    with job x show ?thesis by (cases "j = i") (auto simp: job_completed_def)
  qed
qed

text \<open>C16: A job notified over MQTT is completed only by a run that ends as completed and received that very
  job; a job once completed stays so, and a run that receives it again ends as a duplicate with no ECU,
  file or trusted metadata touched.\<close>

theorem jobs_complete_once:
  assumes "ota_main env s = (v, s')"
  shows "(job_completed j s \<longrightarrow> job_completed j s') \<and>
    (job_completed j s' \<and> \<not> job_completed j s \<longrightarrow>
      (\<exists>r rs payload c. v = Finalized ''COMPLETED'' r rs \<and> me_mqtt_campaign env = Inr payload \<and>
        job_ids payload = Inr (j, c))) \<and>
    (me_scenario_consistent env \<and> select_transport env \<noteq> None \<and> uses_mqtt env \<and> me_publish env = Inr () \<and>
      me_mqtt_campaign env = Inr payload \<and> job_ids payload = Inr (j, c) \<and> job_completed j s \<longrightarrow>
        v = Finalized ''FAILED'' ''DUPLICATE_MQTT_JOB'' [] \<and> s' = s\<lparr>mg_current_job := None\<rparr>)"
proof -
  let ?s = "s\<lparr>mg_current_job := None\<rparr>"
  have s: "mg_current_job ?s = None" "job_completed j ?s = job_completed j s" for j
    by (simp_all add: job_completed_def)
  have steps: "ota_steps env ?s = (Inl v, s')"
    using assms ota_steps_end [of env, unfolded always_ends_def, rule_format, of ?s]
    by (auto simp: ota_main_def)
  have "(job_completed j s \<longrightarrow> job_completed j s') \<and>
    (job_completed j s' \<and> \<not> job_completed j s \<longrightarrow>
      (\<exists>r rs payload c. v = Finalized ''COMPLETED'' r rs \<and> me_mqtt_campaign env = Inr payload \<and>
        job_ids payload = Inr (j, c)))"
  proof (cases "me_scenario_consistent env \<and> select_transport env \<noteq> None")
    case False
    with steps have "s' = ?s" by (auto simp: ota_steps_def finalize_failed_def split: if_splits option.splits)
    then show ?thesis by (simp add: job_completed_def)
  next
    case True
    then obtain transport where "select_transport env = Some transport" by blast
    with True steps have run: "bindM (obtain_campaign env) (run_campaign env transport) ?s = (Inl v, s')"
      by (simp add: ota_steps_def)
    obtain x t where obtained: "obtain_campaign env ?s = (x, t)" by (cases "obtain_campaign env ?s")
    have ok: "current_job_ok env ?s t" using obtained_job [OF obtained s(1)] by blast
    have "mg_jobs s' = mg_jobs t \<or> (\<exists>st r rs. (Inl v :: verdict + unit) = Inl (Finalized st r rs) \<and>
        st \<in> {''COMPLETED'', ''FAILED''} \<and> mg_jobs s' = mg_jobs (mark_current_job st t))"
    proof (cases x)
      case (Inl w)
      with run obtained show ?thesis by (simp add: bindM_def)
    next
      case (Inr data)
      with run obtained have "run_campaign env transport data t = (Inl v, s')" by (simp add: bindM_def)
      from keeps_run_campaign [unfolded keeps_job_def, rule_format, OF this] show ?thesis by blast
    qed
    from marked_job [OF ok this, of j] show ?thesis unfolding s(2) by simp
  qed
  moreover have "v = Finalized ''FAILED'' ''DUPLICATE_MQTT_JOB'' [] \<and> s' = ?s"
    if "me_scenario_consistent env \<and> select_transport env \<noteq> None \<and> uses_mqtt env \<and> me_publish env = Inr () \<and>
      me_mqtt_campaign env = Inr payload \<and> job_ids payload = Inr (j, c) \<and> job_completed j s"
    using that steps s(2)
    by (auto simp: ota_steps_def obtain_campaign_def download_campaign_from_mqtt_def finalize_failed_def bindM_def)
  ultimately show ?thesis by blast
qed

section \<open>A concrete run\<close>

text \<open>One ECU over DoIP, whose firmware is the file of the demonstration release.\<close>

definition demo_run_ecu :: Update_Planner.ecu where
  "demo_run_ecu = (demo_vehicle_ecu 0x202 ''BCM'' ''1.0.0'')\<lparr>ecu_transport := ''DOIP''\<rparr>"

definition demo_campaign_data :: json where
  "demo_campaign_data =
     JsObj [(''campaign_id'', JsStr ''C1''), (''vehicle_model'', JsStr ''VM''), (''release_version'', JsStr ''2.0.0''),
       (''priority'', JsStr ''high''), (''transport'', JsStr ''CAN''), (''rollback_enabled'', JsBool True),
       (''created_by'', JsStr ''ops''),
       (''targets'', JsArr [JsObj [(''ecu_name'', JsStr ''BCM''), (''target_version'', JsStr ''2.0.0''),
          (''minimum_supported_version'', JsStr ''1.0.0''), (''hardware_variant'', JsStr ''HW''),
          (''minimum_bootloader'', JsStr ''1.0.0''), (''mandatory'', JsBool True), (''priority'', JsInt 1),
          (''requires_reboot'', JsBool True), (''firmware_file'', JsStr ''fw.bin'')]])]"

definition demo_run_campaign :: "string list \<Rightarrow> campaign" where
  "demo_run_campaign approved =
     (demo_campaign [])\<lparr>cg_transport := ''DOIP'', cg_targets := [demo_target ''BCM''], cg_approved_targets := approved\<rparr>"

definition demo_payload :: json where
  "demo_payload = JsObj [(''job_id'', JsStr ''J1''), (''campaign_id'', JsStr ''C1''), (''download_url'', JsStr ''https://ota/campaign'')]"

definition demo_manager_env :: manager_env where
  "demo_manager_env =
     \<lparr>me_topology = demo_topology, me_scenario_consistent = True, me_transport = ''doip'', me_transport_input = [],
      me_cloud = ''mqtt'', me_cloud_input = [], me_publish = Inr (), me_mqtt_campaign = Inr demo_payload,
      me_campaign_url_override = [], me_base_url = [],
      me_get_campaign = (\<lambda>_. Inr demo_campaign_data), me_discover = (\<lambda>_. Inr [demo_run_ecu]),
      me_expected_versions = None, me_offline_ecus = [], me_runtime_control = (\<lambda>_. None),
      me_manifest = (\<lambda>_. Some \<lparr>mf_release_version = ''2.0.0'', mf_packages = [fresh_package]\<rparr>),
      me_trust_files = (\<lambda>_. tr_files (demo_release 1)), me_now = 0, me_timestamp = (\<lambda>_. Inr 1),
      me_get_firmware = (\<lambda>_. Inr demo_image), me_send = (\<lambda>_ _. True), me_flash_retry_count = 1,
      me_ecus_after = (\<lambda>_ _ _. demo_trial_ecu), me_deadline = 45,
      me_first_discovery = Inr [demo_vehicle_ecu 0x202 ''BCM'' ''2.0.0''], me_later_discoveries = []\<rparr>"

definition demo_manager :: "trust_state \<Rightarrow> manager" where
  "demo_manager trust =
     \<lparr>mg_jobs = [(''J1'', ''PROCESSING'')], mg_current_job = Some demo_payload, mg_trust = trust,
      mg_files = (\<lambda>d. if d = ''2.0.0'' then [''fw.bin'' \<mapsto> demo_image] else (\<lambda>_. None)), mg_ecus = (\<lambda>_. demo_trial_ecu), mg_reports = []\<rparr>"

text \<open>The state before a run, and the job of the run.\<close>

definition demo_start :: "(string \<times> string) list \<Rightarrow> manager" where
  "demo_start jobs = (demo_manager [])\<lparr>mg_jobs := jobs, mg_current_job := None\<rparr>"

lemma demo_job: "job_ids demo_payload = Inr (''J1'', ''C1'')" "js_truthy demo_payload"
  by code_simp+

lemma demo_load: "load_campaign demo_campaign_data = Inr ((demo_run_campaign [])\<lparr>cg_transport := ''CAN''\<rparr>)"
  by code_simp

lemma demo_transport: "select_transport demo_manager_env = Some ''DOIP''" "uses_mqtt demo_manager_env"
  by (simp_all add: select_transport_def uses_mqtt_def demo_manager_env_def) code_simp+

lemma demo_valid: "validate_campaign (demo_run_campaign approved)"
proof -
  have "normalize_transport (Some ''DOIP'') \<in> set supported_transports" by code_simp
  then show ?thesis by (simp add: validate_campaign_def demo_run_campaign_def demo_campaign_def demo_target_def)
qed

lemma demo_compatible:
  "validate_compatibility demo_topology [demo_run_ecu] (demo_run_campaign []) = Inr (True, demo_run_campaign [''BCM''])"
proof -
  have "version_lt (VersionText ''1.0.0'') (VersionText ''1.0.0'') = Inr False" by code_simp
  then show ?thesis
    by (simp add: validate_compatibility_def check_target_def target_failed_def demo_run_campaign_def demo_campaign_def
        demo_target_def demo_run_ecu_def demo_vehicle_ecu_def)
qed

definition demo_run_entry :: update_entry where
  "demo_run_entry = fresh_entry\<lparr>ue_ecu := demo_run_ecu\<rparr>"

lemma demo_run_validates:
  assumes "names = [] \<or> names = [''BCM'']"
  shows "validate_firmware \<lparr>fc_packages = [fresh_package], fc_trusted = demo_trusted, fc_read = [''fw.bin'' \<mapsto> demo_image],
      fc_require_downloaded = downloaded, fc_target_names = names\<rparr> (demo_run_campaign [''BCM'']) [demo_run_ecu] =
    Inr [demo_run_entry]"
proof -
  have trust: "check_trust demo_trusted demo_run_ecu fresh_package = Inr (Inr (snd (hd demo_trusted)))"
    by (simp add: check_trust_def demo_trusted_def fresh_package_def demo_run_ecu_def demo_vehicle_ecu_def custom_is_def)
  have "0 < length demo_image" using build_payload(1) [OF demo_image_built demo_spec_payload] by simp
  moreover have "version_lt (VersionText ''1.0.0'') (VersionText ''1.0.0'') = Inr False"
    "version_eq (VersionText ''1.0.0'') (VersionText ''2.0.0'') = Inr False"
    "version_gte (VersionText ''1.0.0'') (VersionText ''2.0.0'') = Inr False"
    "normalize_transport (Some ''DOIP'') \<in> set (package_transports fresh_package)"
    by code_simp+
  ultimately have side: "check_vehicle_side (demo_run_campaign [''BCM'']) demo_run_ecu fresh_package (length demo_image) = Inr None"
    by (simp add: check_vehicle_side_def demo_run_ecu_def demo_vehicle_ecu_def demo_run_campaign_def)
      (simp add: fresh_package_def)
  have dl: "(if downloaded then check_download (Some demo_image) fresh_package (snd (hd demo_trusted))
      else Inr (Inr (tt_length (snd (hd demo_trusted))))) = Inr (Inr (length demo_image))"
    by (simp add: fresh_download) (simp add: demo_trusted_def)
  have strip: "strip_space ''BCM'' = ''BCM''" by code_simp
  have parts: "pk_ecu_name fresh_package = ''BCM''" "pk_file fresh_package = ''fw.bin''" "ecu_name demo_run_ecu = ''BCM''"
    "cg_approved_targets (demo_run_campaign [''BCM'']) = [''BCM'']"
    by (simp_all add: fresh_package_def demo_run_ecu_def demo_vehicle_ecu_def demo_run_campaign_def)
  have "check_ecu \<lparr>fc_packages = [fresh_package], fc_trusted = demo_trusted, fc_read = [''fw.bin'' \<mapsto> demo_image],
      fc_require_downloaded = downloaded, fc_target_names = names\<rparr> (demo_run_campaign [''BCM'']) demo_run_ecu =
    Inr (Inr demo_run_entry)"
    using assms trust side dl parts strip
    by (cases downloaded; elim disjE) (simp_all add: check_ecu_def selected_names_def demo_run_entry_def fresh_entry_def)
  then show ?thesis by (simp add: validate_firmware_def)
qed

definition demo_run_plan :: update_plan where
  "demo_run_plan =
     \<lparr>up_update_order = [''BCM''], up_dependency_map = [(''BCM'', [])], up_dependency_sources = [(''BCM'', ''none'')],
      up_classifications = [(''BCM'', Eligible)], up_blocking_errors = []\<rparr>"

lemma demo_run_policy:
  "policy_for demo_topology ''BCM'' = \<lparr>pol_ecu_name = ''BCM'', pol_dependencies = [], pol_criticality = ''optional'',
     pol_on_unavailable = ''skip'', pol_on_dependency_failed = ''skip''\<rparr>"
  by (simp add: policy_for_def demo_registry)

lemma demo_run_planned:
  "dynamic_plan demo_topology [demo_run_ecu] (demo_run_campaign [''BCM'']) [''BCM''] = Inr demo_run_plan"
proof -
  have loop: "block_loop demo_topology [(''BCM'', [])] [] [''BCM''] [(''BCM'', Eligible)] [] =
      ([''BCM''], [(''BCM'', Eligible)], [])"
    by (subst block_loop.simps) (simp add: missing_dependencies_def dependency_lookup_def or_default_def)
  have order: "topological_plan (graph_of [''BCM''] [(''BCM'', [])]) (target_priority (demo_run_campaign [''BCM''])) = Inr [''BCM'']"
    by code_simp
  have cycle: "validate_cycle [(''BCM'', [])] = []" by code_simp
  have names: "map fst (dict_of ct_ecu_name (cg_targets (demo_run_campaign [''BCM'']))) = [''BCM'']"
    "cg_dependency_overrides (demo_run_campaign [''BCM'']) = []"
    by (simp_all add: demo_run_campaign_def demo_campaign_def demo_target_def dict_of_def)
  have resolved: "resolve_dependencies demo_topology [''BCM''] (demo_run_campaign [''BCM'']) =
      ([(''BCM'', [])], [(''BCM'', ''none'')], [])"
    by (simp add: resolve_dependencies_def resolve_one_def demo_run_policy names cycle)
  have classes: "plan_classifications demo_topology [demo_run_ecu] (demo_run_campaign [''BCM'']) [''BCM''] = [(''BCM'', Eligible)]"
    "concat (map (\<lambda>entry. snd (classify demo_topology [demo_run_ecu] (demo_run_campaign [''BCM'']) [''BCM''] entry))
      (dict_of ct_ecu_name (cg_targets (demo_run_campaign [''BCM''])))) = []"
    by (simp_all add: plan_classifications_def classify_def demo_run_campaign_def demo_campaign_def demo_target_def dict_of_def)
  have sel: "names_with (\<lambda>c. c = Eligible) [(''BCM'', Eligible)] = [''BCM'']"
    "names_with (\<lambda>c. c = AlreadySatisfied) [(''BCM'', Eligible)] = []" by (simp_all add: names_with_def)
  show ?thesis
    using loop by (simp add: dynamic_plan_def Let_def names resolved classes sel order demo_run_plan_def)
qed

lemma demo_run_names: "selected_update_names demo_run_plan = [''BCM'']"
  by code_simp

lemma demo_run_checked:
  assumes "verify_release (demo_release 1) trust = Inr (demo_trusted, trust')" and "names = [] \<or> names = [''BCM'']"
  shows "check_firmware demo_manager_env (demo_run_campaign [''BCM'']) [demo_run_ecu] downloaded names (demo_manager trust) =
    (Inr [demo_run_entry], demo_manager trust')"
proof -
  have "trust_env_of demo_manager_env ''2.0.0'' (demo_manager trust) = demo_release 1"
    by (simp add: trust_env_of_def demo_manager_env_def demo_manager_def demo_release_def)
  moreover have "cg_release_version (demo_run_campaign [''BCM'']) = ''2.0.0''"
    by (simp add: demo_run_campaign_def demo_campaign_def)
  moreover have "mg_trust (demo_manager trust) = trust" "(demo_manager trust)\<lparr>mg_trust := trust'\<rparr> = demo_manager trust'"
    "mg_files (demo_manager t) ''2.0.0'' = [''fw.bin'' \<mapsto> demo_image]" for t
    by (simp_all add: demo_manager_def)
  moreover have "me_manifest demo_manager_env r = Some \<lparr>mf_release_version = ''2.0.0'', mf_packages = [fresh_package]\<rparr>" for r
    by (simp add: demo_manager_env_def)
  ultimately show ?thesis
    using assms(1) demo_run_validates [OF assms(2), of downloaded]
    by (simp add: check_firmware_def load_manifest_def bindM_def lift_def)
qed

lemma demo_trust_twice:
  obtains t1 t2 where "verify_release (demo_release 1) [] = Inr (demo_trusted, t1)"
    and "verify_release (demo_release 1) t1 = Inr (demo_trusted, t2)"
proof -
  obtain t1 where first: "verify_release (demo_release 1) [] = Inr (demo_trusted, t1)"
    using demo_accepted [of 1 "[]"] by (auto simp: trusted_version_def)
  have versions: "role_version (demo_release 1) f = Inr 1" if "(r, f) \<in> set trusted_files" for r f
    using that
    by (auto simp: trusted_files_def role_version_def demo_files demo_root_def demo_timestamp_def demo_snapshot_def
        demo_targets_def demo_meta_get)
  have "trusted_version t1 r \<le> 1" if "(r, f) \<in> set trusted_files" for r f
    using accepted_versions [OF first that] versions [OF that] by auto
  with demo_accepted [of 1 t1] first that show ?thesis by auto
qed

lemma demo_downloaded:
  "download_firmware demo_manager_env demo_campaign_data [''BCM''] (demo_manager trust) = (Inr (), demo_manager trust)"
proof -
  have same: "(demo_manager trust)\<lparr>mg_files := (mg_files (demo_manager trust))(flash_directory :=
      (mg_files (demo_manager trust) flash_directory)(''fw.bin'' \<mapsto> demo_image))\<rparr> = demo_manager trust"
    by (auto simp: demo_manager_def flash_directory_def)
  have "strip_space ''BCM'' = ''BCM''" by code_simp
  with same show ?thesis
    by (simp add: download_firmware_def demo_campaign_data_def bindM_def lift_def mapE_def text_field_def Let_def
        demo_manager_env_def)
qed

lemma demo_inventory:
  "build_inventory demo_manager_env [''BCM''] (demo_manager trust) = (Inr (), demo_manager trust)"
  by (simp add: build_inventory_def demo_manager_env_def demo_manager_def lift_def guardE_def selected_packages_def
      fresh_package_def flash_directory_def)

lemma demo_run_execution:
  "\<exists>st. execute_updates demo_manager_env [demo_run_ecu] demo_run_plan [demo_run_entry] (demo_manager trust) =
      (Inr (True, ''FLASHING COMPLETE'', st), demo_manager trust) \<and> ss_results st = [(''BCM'', Flashed)]"
proof -
  let ?env = "\<lparr>sn_topology = demo_topology, sn_entries = [(demo_run_ecu, fresh_package)], sn_packages = [fresh_package],
      sn_exists = (\<lambda>f. f = ''fw.bin''), sn_discovered = [''BCM''], sn_dependency_map = [(''BCM'', [])], sn_send = (\<lambda>_ _. True),
      sn_flash_retry_count = 1\<rparr>"
  have parts: "ecu_name demo_run_ecu = ''BCM''" "pk_file fresh_package = ''fw.bin''"
    by (simp_all add: demo_run_ecu_def demo_vehicle_ecu_def fresh_package_def)
  have "scheduler_env_of demo_manager_env [demo_run_ecu] demo_run_plan [demo_run_entry]
      \<lparr>mf_release_version = ''2.0.0'', mf_packages = [fresh_package]\<rparr> (demo_manager trust) = ?env"
    by (auto simp: scheduler_env_of_def demo_manager_env_def demo_run_entry_def fresh_entry_def demo_run_plan_def
        demo_manager_def parts flash_directory_def)
  moreover have one: "schedule_one ?env [''BCM''] ''BCM'' (initial_scheduler ?env) =
      (False, flash_ecu ?env ''BCM'' (ecu_current_version demo_run_ecu) fresh_package (initial_scheduler ?env))"
    by (simp add: schedule_one_def scheduled_dependencies_def dependency_lookup_def or_default_def find_entry_def parts)
  moreover have "ss_results (flash_ecu ?env ''BCM'' v fresh_package (initial_scheduler ?env)) = [(''BCM'', Flashed)]"
    "ss_failed (flash_ecu ?env ''BCM'' v fresh_package (initial_scheduler ?env)) = []"
    "\<not> ss_fatal (flash_ecu ?env ''BCM'' v fresh_package (initial_scheduler ?env))" for v
    by (simp_all add: flash_ecu_def report_def record_result_def initial_scheduler_def Let_def)
  moreover have "verify_repository (sn_exists ?env) (sn_packages ?env) (eligible_names ?env)"
    by (simp add: verify_repository_def selected_packages_def parts)
  ultimately show ?thesis
    by (simp add: execute_updates_def demo_manager_env_def lift_def demo_run_plan_def execute_plan_def campaign_result_def)
qed

lemma demo_run_targets:
  "target_versions (demo_run_campaign [''BCM'']) = [(''BCM'', ''2.0.0'')]"
  "validation_names (demo_run_campaign [''BCM'']) = [''BCM'']"
  by (simp_all add: target_versions_def validation_names_def demo_run_campaign_def demo_campaign_def
      demo_target_def dict_of_def)

lemma demo_run_validated:
  "\<exists>s'. validate_update demo_manager_env (demo_run_campaign [''BCM''])
      ((demo_manager trust)\<lparr>mg_ecus := \<lambda>_. demo_trial_ecu\<rparr>) = (Inr True, s')"
proof -
  let ?e = "demo_vehicle_ecu 0x202 ''BCM'' ''2.0.0''"
  have pending: "has_pending_commit (ecu_version demo_trial_ecu)"
    by (simp add: demo_trial_ecu_def has_pending_commit_def)
  have commit: "fst (commit_pending (ecu_slots demo_trial_ecu)) = None"
    using demo_disk_ok by (intro commit_pending_total) (simp add: demo_trial_ecu_def layouts_ok_def)
  have version: "ecu_current_version ?e = ''2.0.0''" by (simp add: demo_vehicle_ecu_def)
  have found: "discovered [?e] ''BCM'' = Some ?e" by (simp add: discovered_def dict_of_def demo_vehicle_ecu_def)
  have confirm: "fst (confirm_version ''2.0.0'' f) = None" for f
    by (simp add: confirm_version_def demo_normalized Let_def)
  have key: "ecu_key ''BCM'' = Inr ''bcm''" by code_simp
  have env: "me_deadline demo_manager_env = 45" "me_first_discovery demo_manager_env = Inr [?e]"
    "me_later_discoveries demo_manager_env = []" by (simp_all add: demo_manager_env_def)
  obtain err q where run: "validate_installation (demo_run_campaign [''BCM'']) 45 (Inr [?e]) []
      (post_install_of ((demo_manager trust)\<lparr>mg_ecus := \<lambda>_. demo_trial_ecu\<rparr>)) = (err, q)"
    by (cases "validate_installation (demo_run_campaign [''BCM'']) 45 (Inr [?e]) []
      (post_install_of ((demo_manager trust)\<lparr>mg_ecus := \<lambda>_. demo_trial_ecu\<rparr>))")
  have "err = None \<and> pi_all_updated q"
    using run pending commit confirm
    by (auto simp: validate_installation_def demo_run_targets found version demo_same_version
        validate_ecu_version_def key post_install_of_def run_steps.simps commit_ecu_def
        on_ecu_files_def on_version_def on_slots_def post_report_def split_beta split: option.splits)
  with run show ?thesis by (simp add: validate_update_def env)
qed

lemma demo_received:
  "me_publish demo_manager_env = Inr ()" "me_mqtt_campaign demo_manager_env = Inr demo_payload"
  "me_get_campaign demo_manager_env url = Inr demo_campaign_data" "campaign_url demo_payload = Inr ''https://ota/campaign''"
  "job_ids demo_payload = Inr (''J1'', ''C1'')" "\<not> job_completed ''J1'' (demo_start [])"
  "record_job ''J1'' ''PROCESSING'' ((record_job ''J1'' ''RECEIVED'' (demo_start []))\<lparr>mg_current_job := Some demo_payload\<rparr>) =
     demo_manager []"
  by (simp_all add: demo_manager_env_def demo_job job_completed_def record_job_def demo_start_def demo_manager_def)
    code_simp

lemma demo_completed_run:
  "\<exists>s'. ota_main demo_manager_env (demo_start []) = (Finalized ''COMPLETED'' ''FLASHING COMPLETE'' [(''BCM'', Flashed)], s') \<and>
     job_completed ''J1'' s'"
proof -
  obtain t1 t2 where trust: "verify_release (demo_release 1) [] = Inr (demo_trusted, t1)"
    "verify_release (demo_release 1) t1 = Inr (demo_trusted, t2)" by (rule demo_trust_twice)
  note check = demo_run_checked [OF trust(1)] demo_run_checked [OF trust(2)]
  obtain st where exec: "execute_updates demo_manager_env [demo_run_ecu] demo_run_plan [demo_run_entry] (demo_manager t2) =
      (Inr (True, ''FLASHING COMPLETE'', st), demo_manager t2)" and res: "ss_results st = [(''BCM'', Flashed)]"
    using demo_run_execution by blast
  obtain s' where validated: "validate_update demo_manager_env (demo_run_campaign [''BCM''])
      ((demo_manager t2)\<lparr>mg_ecus := \<lambda>_. demo_trial_ecu\<rparr>) = (Inr True, s')"
    using demo_run_validated by blast
  have "mg_current_job s' = Some demo_payload"
    using keeps_validate [unfolded keeps_job_def, rule_format, OF validated] by (simp add: demo_manager_def)
  then have job: "job_completed ''J1'' (mark_current_job ''COMPLETED'' s')"
    by (simp add: mark_current_job_def demo_job job_completed_def job_recorded)
  have "me_ecus_after demo_manager_env st (mg_ecus (demo_manager t2)) = (\<lambda>_. demo_trial_ecu)"
    by (simp add: demo_manager_env_def)
  with validated have after: "after_execution demo_manager_env (demo_run_campaign [''BCM'']) (True, ''FLASHING COMPLETE'', st)
      (demo_manager t2) = (Inl (Finalized ''COMPLETED'' ''FLASHING COMPLETE'' [(''BCM'', Flashed)]), mark_current_job ''COMPLETED'' s')"
    by (simp add: after_execution_def bindM_def res)
  have no_errors: "up_blocking_errors demo_run_plan = []" by (simp add: demo_run_plan_def)
  have plan: "run_plan demo_manager_env demo_campaign_data (demo_run_campaign [''BCM'']) [demo_run_ecu] demo_run_plan
      (demo_manager t1) = (Inl (Finalized ''COMPLETED'' ''FLASHING COMPLETE'' [(''BCM'', Flashed)]), mark_current_job ''COMPLETED'' s')"
    using after check(2) exec
    by (simp add: run_plan_def Let_def demo_run_names bindM_def require_def returnM_def demo_downloaded demo_inventory
        executable_def no_errors)
  have names: "map (\<lambda>u. ecu_name (ue_ecu u)) [demo_run_entry] = [''BCM'']"
    by (simp add: demo_run_entry_def demo_run_ecu_def demo_vehicle_ecu_def)
  have transport: "((demo_run_campaign [])\<lparr>cg_transport := ''CAN''\<rparr>)\<lparr>cg_transport := ''DOIP''\<rparr> = demo_run_campaign []"
    by (simp add: demo_run_campaign_def)
  have env: "me_topology demo_manager_env = demo_topology" "me_discover demo_manager_env x = Inr [demo_run_ecu]"
    "me_expected_versions demo_manager_env = None" "me_scenario_consistent demo_manager_env" for x
    by (simp_all add: demo_manager_env_def)
  have campaign: "run_campaign demo_manager_env ''DOIP'' demo_campaign_data (demo_manager []) =
      (Inl (Finalized ''COMPLETED'' ''FLASHING COMPLETE'' [(''BCM'', Flashed)]), mark_current_job ''COMPLETED'' s')"
    using plan check(1) names
    by (simp add: run_campaign_def Let_def demo_load transport bindM_def lift_def require_def returnM_def demo_valid env
        expected_ecu_versions_hold_def demo_compatible demo_run_planned)
  have "(demo_start [])\<lparr>mg_current_job := None\<rparr> = demo_start []" by (simp add: demo_start_def)
  moreover have "obtain_campaign demo_manager_env (demo_start []) = (Inr demo_campaign_data, demo_manager [])"
    using demo_transport(2) by (simp add: obtain_campaign_def download_campaign_from_mqtt_def demo_received)
  ultimately have "ota_main demo_manager_env (demo_start []) =
      (Finalized ''COMPLETED'' ''FLASHING COMPLETE'' [(''BCM'', Flashed)], mark_current_job ''COMPLETED'' s')"
    using campaign by (simp add: ota_main_def ota_steps_def env demo_transport(1) bindM_def)
  with job show ?thesis by blast
qed


theorem jobs_complete_once_witness:
  "(\<exists>s' payload c. ota_main demo_manager_env (demo_start []) =
       (Finalized ''COMPLETED'' ''FLASHING COMPLETE'' [(''BCM'', Flashed)], s') \<and> job_completed ''J1'' s' \<and>
       me_mqtt_campaign demo_manager_env = Inr payload \<and> job_ids payload = Inr (''J1'', c)) \<and>
   ota_main demo_manager_env (demo_start [(''J1'', ''COMPLETED'')]) =
     (Finalized ''FAILED'' ''DUPLICATE_MQTT_JOB'' [], demo_start [(''J1'', ''COMPLETED'')])"
proof (rule conjI)
  obtain s' where run: "ota_main demo_manager_env (demo_start []) =
      (Finalized ''COMPLETED'' ''FLASHING COMPLETE'' [(''BCM'', Flashed)], s')" and completed: "job_completed ''J1'' s'"
    using demo_completed_run by blast
  have "\<not> job_completed ''J1'' (demo_start [])" by (rule demo_received)
  with jobs_complete_once [OF run, of "''J1''"] run completed show "\<exists>s' payload c. ota_main demo_manager_env (demo_start []) =
       (Finalized ''COMPLETED'' ''FLASHING COMPLETE'' [(''BCM'', Flashed)], s') \<and> job_completed ''J1'' s' \<and>
       me_mqtt_campaign demo_manager_env = Inr payload \<and> job_ids payload = Inr (''J1'', c)" by blast
next
  let ?s = "demo_start [(''J1'', ''COMPLETED'')]"
  obtain v s' where run: "ota_main demo_manager_env ?s = (v, s')" by (cases "ota_main demo_manager_env ?s")
  have "job_completed ''J1'' ?s" by (simp add: job_completed_def demo_start_def)
  moreover have "me_scenario_consistent demo_manager_env" by (simp add: demo_manager_env_def)
  moreover have "?s\<lparr>mg_current_job := None\<rparr> = ?s" by (simp add: demo_start_def)
  ultimately have "v = Finalized ''FAILED'' ''DUPLICATE_MQTT_JOB'' [] \<and> s' = ?s"
    using jobs_complete_once [OF run, of "''J1''" demo_payload "''C1''"] demo_transport demo_received by simp
  with run show "ota_main demo_manager_env ?s = (Finalized ''FAILED'' ''DUPLICATE_MQTT_JOB'' [], ?s)" by simp
qed

end
