(* ===== verification/Spec2Isabelle.thy ===== *)
theory Spec2Isabelle
  imports UDS_Codec IsoTp Versions Digests Firmware_Image Flash_Memory AB_Update Slots Version_Manager
    ECU_Boot Firmware_Receiver UDS_Server UDS_Programmer UDS_Client CAN_Sender DoIP_Packet DoIP_Server
    DoIP_Client DoIP_Gateway Gateway_Sessions Dependency_Graph Vehicle_Topology Update_Planner Update_Scheduler
    JSON_Text Trust_Metadata Campaign_Checks Zone_Controller Post_Install OTA_Manager
begin

text \<open>
  A verification of the over-the-air update demonstrator: the update manager of a vehicle's TCU,
  its transports, its gateway and zone controllers, and the software of its ECUs. The theories
  translate the Python sources under \<open>src/\<close>; the names of operations are those of the sources,
  suffixed or prefixed where they clash.

  \<^bold>\<open>The program and its parts.\<close> \<open>tcu/main.py\<close> obtains a campaign, discovers the ECUs, checks the
  campaign, the vehicle and the firmware, plans an order, downloads, checks again, lets the scheduler
  flash one ECU after the other and validates the result. Flashing is a UDS client, over ISO-TP on
  the CAN bus or over DoIP to the gateway. An ECU receives the image with its programmer (CAN) or in
  its context at the gateway (DoIP), compares it with the original file, installs it into the
  inactive one of two slots, boots it on trial, and keeps it or falls back. Diagnosis of ECUs behind
  a zone goes through the zone's controller, its service and a router.

  \<^item> Shared: \<open>OTA_Prelude\<close> (bytes, exceptions as values, results, lists), \<open>Versions\<close>
    (\<open>common/utils.py\<close>), \<open>Digests\<close> (SHA-256 and HMAC, written out), \<open>JSON_Text\<close> (JSON values).
  \<^item> Software of an ECU: \<open>Firmware_Image\<close> (\<open>firmware/image_format.py\<close>), \<open>Flash_Memory\<close>,
    \<open>Slots\<close>, \<open>Version_Manager\<close>, \<open>ECU_Boot\<close> (\<open>ecus/base/flash_memory.py\<close>,
    \<open>slot_manager.py\<close>, \<open>version_manager.py\<close>, \<open>installer.py\<close>, \<open>reboot_manager.py\<close>),
    \<open>Firmware_Receiver\<close> (\<open>ecus/*/firmware_receiver.py\<close>), \<open>UDS_Programmer\<close>
    (\<open>ecus/base/uds_can_programmer.py\<close>).
  \<^item> Transports: \<open>UDS_Codec\<close> (\<open>transport/uds/codec.py\<close>, \<open>security.py\<close>), \<open>UDS_Client\<close>
    (\<open>transport/uds/client.py\<close>, \<open>flash_manager.py\<close>), \<open>IsoTp\<close> and \<open>CAN_Sender\<close>
    (\<open>transport/can/\<close>), \<open>DoIP_Packet\<close>, \<open>DoIP_Client\<close>, \<open>DoIP_Server\<close>, \<open>DoIP_Gateway\<close>,
    \<open>Gateway_Sessions\<close> (\<open>transport/doip/packet.py\<close>, \<open>library_client.py\<close>, \<open>server.py\<close>).
  \<^item> Update manager: \<open>Dependency_Graph\<close>, \<open>Vehicle_Topology\<close>, \<open>Update_Planner\<close>,
    \<open>Update_Scheduler\<close>, \<open>Trust_Metadata\<close>, \<open>Campaign_Checks\<close>, \<open>Post_Install\<close> and
    \<open>OTA_Manager\<close>, each naming its files of \<open>tcu/\<close> and \<open>vehicle/\<close> in its first paragraph.
  \<^item> Zones: \<open>Zone_Controller\<close> (\<open>zones/base/zone_controller.py\<close>, \<open>zone_service.py\<close>,
    \<open>zones/zone_transport_client.py\<close>, \<open>zone_router.py\<close>, \<open>tcu/zone_availability_guard.py\<close>).

  \<^bold>\<open>How state is represented.\<close> A class is a record of its attributes, and a method a function that
  returns the updated record. The files of an ECU are fields or maps of its record. Where an
  exception can leave a method with part of its effect done, the method returns the new state beside
  the error; elsewhere it returns \<open>py_error + 'a\<close>. An installation is the list of its file
  operations, so that losing power is taking a prefix of that list. A bus is the sequence of the
  frames that arrive, with the times of their arrival; a DoIP connection is a queue of messages, which
  may lose or delay them. \<open>UDS_Codec\<close> and \<open>CAN_Sender\<close> take what the third-party udsoncan package
  builds as parameters, and the hypotheses on it are named there. The readings of the clock, the
  answers of the HTTP and MQTT clients, the reading of ISO 8601 times and the discovered vehicle are
  parameters too.

  \<^bold>\<open>Contracts.\<close> \<open>ab_update\<close> (theory \<open>AB_Update\<close>) says what staging, booting on trial, confirming
  and falling back promise; the slots and the version manager interpret it. \<open>uds_server\<close>
  (\<open>UDS_Server\<close>) is a machine that answers one request at a time and installs verified images only;
  the CAN programmer and the gateway interpret it, and its lemmas follow whole request sequences.
  \<open>flash_target\<close> (\<open>UDS_Client\<close>) is what the flashing client needs of the operations of a
  transport; it is interpreted on the CAN sender composed with the programmer and on the DoIP client
  composed with the gateway, which gives the end-to-end theorems on flashing. Version texts
  are an instance of \<open>linorder\<close>.

  \<^bold>\<open>What the lemmas show.\<close> For an ECU: whatever file operation power fails before, the next boot runs
  confirmed or complete new software; what is on trial without confirmation does not survive a second
  boot; no sequence of requests or packets starts an installation of an image whose hash is not the
  original's. For the transports: segmentation and reassembly, and packets on a stream,
  are inverse to each other; flashing delivers exactly the image; a repeated block is stored once. For
  the update manager: the trust metadata accepts signed artifacts only and never older versions; the
  plan has exactly the eligible ECUs with their dependencies first, and leaves out none it could
  make; the scheduler sends nothing before what it depends on; the validation leaves no ECU on
  trial; every run ends, a completed one took all these steps, and a job is completed once. For zones: nothing is sent that the
  policy, the health of the zone or the availability of the ECU forbids. Properties of kind \<open>error\<close>
  state behaviour that differs from what the sources say they do, such as a header digest that is
  never compared or a dependency cycle that raises.

  \<^bold>\<open>Termination and bounds.\<close> There is no fuel in the models: loops over lists are structural
  recursion, and the others (\<open>kahn\<close>, \<open>block_loop\<close>, \<open>visit_all\<close>, \<open>extract_packets\<close>,
  \<open>consecutive_frames\<close>, \<open>send_loop\<close>, \<open>expect_final\<close>, \<open>transfer_chunks\<close>, \<open>program_pages\<close>) have
  a termination proof, whose measure is the number of remaining nodes, candidates, bytes or messages. Loops that poll until a deadline consume the list
  of readings they are given and time out at its end, as at the deadline. Integers of the wire formats
  are kept at their width: bytes are \<open>8 word\<close>, sequence counters wrap as in the code, and lengths are
  bounded where a header field bounds them.

  \<^bold>\<open>Not modelled.\<close> Sockets, threads, sleeping and printing; discovery of ECUs and vehicles; the MQTT
  and HTTP clients and their configuration; the scenario runner, command line and scripts, whose
  consistency check is an input of \<open>OTA_Manager\<close>; the web service \<open>ota_server\<close> and the
  integrations; the loops of the ECU processes around the programmer; the older message protocol in
  \<open>transport/doip/client.py\<close> and the legacy frames of \<open>transport/can/\<close>. These are input and
  output around the modelled parts, or third-party code the sources call.
\<close>

end
